(* ===== verification/Prelude.thy ===== *)
theory Prelude
  imports Main "HOL-Library.List_Lexorder" "HOL-Library.Char_ord" "HOL-Library.Word"
begin

text \<open>
  Shared vocabulary of the development: Rust's \<open>Result\<close>, the \<open>?\<close> operator on stateful
  code, unsigned machine integers with saturating addition and subtraction, and \<open>BTreeMap\<close> as an association list
  kept in strictly increasing key order. The locale \<open>keyed_map\<close> is the interface the components
  rely on when they look branches, layers and delivery channels up; \<open>bt_insert\<close> provides it.
\<close>

named_theorems result_simps "unfolding rules of the Result and the state-passing combinators"
named_theorems rust_str "simplification rules of the Rust string operations"

type_synonym u32 = "32 word"
type_synonym u64 = "64 word"

subsection \<open>Results\<close>

datatype ('a, 'e) result = Ok 'a | Err 'e

fun is_ok :: "('a, 'e) result \<Rightarrow> bool" where
  "is_ok (Ok x) = True"
| "is_ok (Err e) = False"

fun map_err :: "('e \<Rightarrow> 'f) \<Rightarrow> ('a, 'e) result \<Rightarrow> ('a, 'f) result" where
  "map_err f (Ok x) = Ok x"
| "map_err f (Err e) = Err (f e)"

fun result_ok :: "('a, 'e) result \<Rightarrow> 'a option" where
  "result_ok (Ok x) = Some x"
| "result_ok (Err e) = None"

fun result_err :: "('a, 'e) result \<Rightarrow> 'e option" where
  "result_err (Ok x) = None"
| "result_err (Err e) = Some e"

text \<open>The \<open>?\<close> operator on a pure result.\<close>

fun try_bind :: "('a, 'e) result \<Rightarrow> ('a \<Rightarrow> ('b, 'e) result) \<Rightarrow> ('b, 'e) result" where
  "try_bind (Ok x) f = f x"
| "try_bind (Err e) f = Err e"

text \<open>
  Stateful code is a function from the state before to the result and the state after. The
  \<open>?\<close> operator, \<open>and_then\<close>, keeps the effects that happened before the error.
\<close>

type_synonym ('s, 'a, 'e) action = "'s \<Rightarrow> ('a, 'e) result \<times> 's"

definition return :: "'a \<Rightarrow> ('s, 'a, 'e) action" where
  [result_simps]: "return x = (\<lambda>s. (Ok x, s))"

definition throw :: "'e \<Rightarrow> ('s, 'a, 'e) action" where
  [result_simps]: "throw e = (\<lambda>s. (Err e, s))"

definition and_then :: "('s, 'a, 'e) action \<Rightarrow> ('a \<Rightarrow> ('s, 'b, 'e) action) \<Rightarrow> ('s, 'b, 'e) action" where
  "and_then m f = (\<lambda>s. case m s of (Ok x, s') \<Rightarrow> f x s' | (Err e, s') \<Rightarrow> (Err e, s'))"

definition lift_result :: "('a, 'e) result \<Rightarrow> ('s, 'a, 'e) action" where
  [result_simps]: "lift_result r = (\<lambda>s. (r, s))"

definition map_error :: "('e \<Rightarrow> 'f) \<Rightarrow> ('s, 'a, 'e) action \<Rightarrow> ('s, 'a, 'f) action" where
  "map_error f m = (\<lambda>s. case m s of (r, s') \<Rightarrow> (map_err f r, s'))"

text \<open>A predicate every step of an action keeps, whatever the step returns.\<close>

definition keeps :: "('s \<Rightarrow> bool) \<Rightarrow> ('s, 'a, 'e) action \<Rightarrow> bool" where
  "keeps P m \<longleftrightarrow> (\<forall>s. P s \<longrightarrow> P (snd (m s)))"

subsection \<open>Saturating arithmetic\<close>

definition saturating_add :: "'w::len word \<Rightarrow> 'w word \<Rightarrow> 'w word" where
  "saturating_add a b = (if a + b < a then - 1 else a + b)"

definition saturating_sub :: "'w::len word \<Rightarrow> 'w word \<Rightarrow> 'w word" where
  "saturating_sub a b = (if a < b then 0 else a - b)"

subsection \<open>BTreeMap\<close>

type_synonym ('k, 'v) btree = "('k \<times> 'v) list"

fun bt_insert :: "'k::linorder \<Rightarrow> 'v \<Rightarrow> ('k, 'v) btree \<Rightarrow> ('k, 'v) btree" where
  "bt_insert k v [] = [(k, v)]"
| "bt_insert k v ((a, b) # m) =
     (if k < a then (k, v) # (a, b) # m
      else if k = a then (k, v) # m
      else (a, b) # bt_insert k v m)"

abbreviation bt_get :: "('k, 'v) btree \<Rightarrow> 'k \<Rightarrow> 'v option" where
  "bt_get m k \<equiv> map_of m k"

definition bt_keys :: "('k, 'v) btree \<Rightarrow> 'k list" where
  "bt_keys m = map fst m"

definition bt_wf :: "('k::linorder, 'v) btree \<Rightarrow> bool" where
  "bt_wf m \<longleftrightarrow> sorted_wrt (<) (map fst m)"

subsection \<open>Lemmas on results and actions\<close>

lemma and_then_Ok [result_simps]: "m s = (Ok x, s') \<Longrightarrow> and_then m f s = f x s'"
  by (simp add: and_then_def)

lemma and_then_Err [result_simps]: "m s = (Err e, s') \<Longrightarrow> and_then m f s = (Err e, s')"
  by (simp add: and_then_def)

lemma and_then_lift_Ok [simp]: "and_then (lift_result (Ok x)) f = f x"
  by (simp add: and_then_def lift_result_def)

lemma and_then_lift_Err [simp]: "and_then (lift_result (Err e)) f = throw e"
  by (simp add: and_then_def lift_result_def throw_def)

lemma lift_result_eq [simp]: "lift_result r s = (r', t) \<longleftrightarrow> r' = r \<and> t = s"
  by (auto simp: lift_result_def)

lemma and_then_read: "and_then (\<lambda>s. (g s, s)) f s = and_then (lift_result (g s)) f s"
  by (simp add: and_then_def lift_result_def)

lemma throw_eq [simp]: "throw e s = (r, t) \<longleftrightarrow> r = Err e \<and> t = s"
  by (auto simp: throw_def)

lemma return_eq [simp]: "return x s = (r, t) \<longleftrightarrow> r = Ok x \<and> t = s"
  by (auto simp: return_def)

lemma and_then_cases:
  assumes "and_then m f s = (r, t)"
  obtains (ok) x s' where "m s = (Ok x, s')" "f x s' = (r, t)"
  | (err) e where "m s = (Err e, t)" "r = Err e"
  using assms by (auto simp: and_then_def split: prod.splits result.splits)

lemma keepsI: "(\<And>s. P s \<Longrightarrow> P (snd (m s))) \<Longrightarrow> keeps P m"
  by (simp add: keeps_def)

lemma keepsD: "keeps P m \<Longrightarrow> P s \<Longrightarrow> P (snd (m s))"
  by (simp add: keeps_def)

lemma keeps_return [intro, simp]: "keeps P (return x)"
  by (simp add: keeps_def return_def)

lemma keeps_throw [intro, simp]: "keeps P (throw e)"
  by (simp add: keeps_def throw_def)

lemma keeps_lift_result [intro, simp]: "keeps P (lift_result r)"
  by (simp add: keeps_def lift_result_def)

lemma keeps_and_then [intro]: "keeps P m \<Longrightarrow> (\<And>x. keeps P (f x)) \<Longrightarrow> keeps P (and_then m f)"
  by (fastforce simp: keeps_def and_then_def split: prod.splits result.splits)

lemma keeps_map_error [simp]: "keeps P (map_error f m) = keeps P m"
  by (simp add: keeps_def map_error_def case_prod_unfold)

lemma map_err_Ok_iff [simp]: "map_err f r = Ok x \<longleftrightarrow> r = Ok x"
  by (cases r) auto

lemma is_ok_iff: "is_ok r \<longleftrightarrow> (\<exists>x. r = Ok x)"
  by (cases r) auto

subsection \<open>Lemmas on saturating arithmetic\<close>

lemma unat_saturating_add:
  fixes a b :: "'w::len word"
  shows "unat (saturating_add a b) = min (unat a + unat b) (2 ^ LENGTH('w) - 1)"
proof -
  let ?n = "2 ^ LENGTH('w) :: nat"
  have bounds: "unat a < ?n" "unat b < ?n" by (rule unsigned_less)+
  have sum: "unat (a + b) = (unat a + unat b) mod ?n" by (rule unat_word_ariths)
  have lt: "a + b < a \<longleftrightarrow> unat (a + b) < unat a" by (rule word_less_nat_alt)
  show ?thesis
  proof (cases "unat a + unat b < ?n")
    case True
    then have "unat (a + b) = unat a + unat b" by (simp only: sum mod_less)
    with True lt show ?thesis unfolding saturating_add_def by simp
  next
    case False
    then have "unat (a + b) = (unat a + unat b - ?n) mod ?n"
      by (simp only: sum le_mod_geq not_less)
    moreover have "unat a + unat b - ?n < ?n" using bounds by linarith
    ultimately have "unat (a + b) = unat a + unat b - ?n" by (simp only: mod_less)
    then have "a + b < a" using lt False bounds by linarith
    with False show ?thesis unfolding saturating_add_def by (simp add: unsigned_minus_1_eq_mask mask_eq_exp_minus_1)
  qed
qed

lemma unat_saturating_sub:
  "unat (saturating_sub a b) = unat a - unat b"
  by (simp add: saturating_sub_def word_less_nat_alt unat_sub_if')

subsection \<open>The map interface and its provider\<close>

text \<open>
  What a client of an ordered map relies on: lookups after insertions, and an iteration order
  (\<open>keys\<close>) that is strictly increasing and lists exactly the present keys.
\<close>

locale keyed_map =
  fixes lookup :: "'m \<Rightarrow> 'k::linorder \<Rightarrow> 'v option"
    and insert :: "'k \<Rightarrow> 'v \<Rightarrow> 'm \<Rightarrow> 'm"
    and empty :: "'m"
    and keys :: "'m \<Rightarrow> 'k list"
    and invar :: "'m \<Rightarrow> bool"
  assumes lookup_empty: "lookup empty k = None"
    and lookup_insert: "lookup (insert k v m) = (lookup m)(k \<mapsto> v)"
    and invar_empty: "invar empty"
    and invar_insert: "invar m \<Longrightarrow> invar (insert k v m)"
    and keys_dom: "set (keys m) = dom (lookup m)"
    and keys_sorted: "invar m \<Longrightarrow> sorted_wrt (<) (keys m)"
begin

lemma keys_insert: "set (keys (insert k v m)) = Set.insert k (set (keys m))"
  by (simp add: keys_dom lookup_insert)

lemma keys_distinct: "invar m \<Longrightarrow> distinct (keys m)"
  using keys_sorted strict_sorted_iff by blast

lemma keys_unique:
  assumes "invar m" "invar n" "dom (lookup m) = dom (lookup n)"
  shows "keys m = keys n"
  using assms keys_sorted keys_dom strict_sorted_equal by metis

lemma keys_update: "invar m \<Longrightarrow> lookup m k \<noteq> None \<Longrightarrow> keys (insert k v m) = keys m"
  by (rule keys_unique) (auto simp: invar_insert lookup_insert)

end

lemma map_of_bt_insert: "map_of (bt_insert k v m) = (map_of m)(k \<mapsto> v)"
  by (induction k v m rule: bt_insert.induct) (auto simp: fun_eq_iff)

lemma fst_set_bt_insert: "fst ` set (bt_insert k v m) = insert k (fst ` set m)"
  by (induction k v m rule: bt_insert.induct) auto

lemma bt_wf_insert: "bt_wf m \<Longrightarrow> bt_wf (bt_insert k v m)"
proof (induction k v m rule: bt_insert.induct)
  case (1 k v)
  show ?case by (simp add: bt_wf_def)
next
  case (2 k v a b m)
  have tail: "\<forall>x \<in> set (map fst m). a < x" "bt_wf m"
    using "2.prems" by (auto simp: bt_wf_def)
  consider "k < a" | "k = a" | "a < k" by fastforce
  then show ?case
  proof cases
    case 1
    with "2.prems" show ?thesis by (auto simp: bt_wf_def)
  next
    case 2
    with "2.prems" show ?thesis by (auto simp: bt_wf_def)
  next
    case 3
    with "2.IH" tail have "bt_wf (bt_insert k v m)" by auto
    moreover have "\<forall>x \<in> set (map fst (bt_insert k v m)). a < x"
      using tail(1) 3 by (simp add: fst_set_bt_insert)
    ultimately show ?thesis using 3 by (auto simp: bt_wf_def)
  qed
qed

interpretation bt: keyed_map map_of bt_insert "[]" bt_keys bt_wf
proof
  show "map_of [] k = None" for k :: 'a by simp
  show "map_of (bt_insert k v m) = (map_of m)(k \<mapsto> v)" for k :: 'a and v :: 'b and m
    by (rule map_of_bt_insert)
  show "bt_wf []" by (simp add: bt_wf_def)
  show "bt_wf (bt_insert k v m)" if "bt_wf m" for k :: 'a and v :: 'b and m
    using that by (rule bt_wf_insert)
  show "set (bt_keys m) = dom (map_of m)" for m :: "('a \<times> 'b) list"
    by (simp add: bt_keys_def dom_map_of_conv_image_fst)
  show "sorted_wrt (<) (bt_keys m)" if "bt_wf m" for m :: "('a \<times> 'b) list"
    using that by (simp add: bt_keys_def bt_wf_def)
qed

lemmas bt_simps = bt.lookup_insert bt.keys_insert bt.invar_insert

end
