(* ===== verification/Rust_Strings.thy ===== *)
theory Rust_Strings
  imports Prelude
begin

text \<open>
  The operations of Rust's \<open>str\<close>, \<open>char\<close> and \<open>format!\<close> the program uses. A Rust string is the
  list of its UTF-8 bytes, so \<open>length\<close> is \<open>str::len\<close>; \<open>utf8_chars\<close> groups the bytes into
  characters where the code counts or classifies \<open>char\<close>s (\<open>chars().count()\<close>, \<open>trim\<close>).
\<close>

subsection \<open>Characters\<close>

definition is_ascii_digit :: "char \<Rightarrow> bool" where
  "is_ascii_digit c \<longleftrightarrow> 48 \<le> (of_char c :: nat) \<and> of_char c \<le> (57 :: nat)"

definition is_ascii_uppercase :: "char \<Rightarrow> bool" where
  "is_ascii_uppercase c \<longleftrightarrow> 65 \<le> (of_char c :: nat) \<and> of_char c \<le> (90 :: nat)"

definition is_ascii_lowercase :: "char \<Rightarrow> bool" where
  "is_ascii_lowercase c \<longleftrightarrow> 97 \<le> (of_char c :: nat) \<and> of_char c \<le> (122 :: nat)"

definition is_ascii_alphanumeric :: "char \<Rightarrow> bool" where
  "is_ascii_alphanumeric c \<longleftrightarrow> is_ascii_digit c \<or> is_ascii_uppercase c \<or> is_ascii_lowercase c"

definition is_ascii_hexdigit :: "char \<Rightarrow> bool" where
  "is_ascii_hexdigit c \<longleftrightarrow> is_ascii_digit c
     \<or> (65 \<le> (of_char c :: nat) \<and> of_char c \<le> (70 :: nat))
     \<or> (97 \<le> (of_char c :: nat) \<and> of_char c \<le> (102 :: nat))"

definition to_ascii_lowercase_char :: "char \<Rightarrow> char" where
  "to_ascii_lowercase_char c = (if is_ascii_uppercase c then char_of (of_char c + 32 :: nat) else c)"

definition to_ascii_lowercase :: "string \<Rightarrow> string" where
  "to_ascii_lowercase s = map to_ascii_lowercase_char s"

definition eq_ignore_ascii_case :: "string \<Rightarrow> string \<Rightarrow> bool" where
  "eq_ignore_ascii_case a b \<longleftrightarrow> to_ascii_lowercase a = to_ascii_lowercase b"

text \<open>A UTF-8 continuation byte has the form \<open>10xxxxxx\<close>.\<close>

definition is_utf8_continuation :: "char \<Rightarrow> bool" where
  "is_utf8_continuation c \<longleftrightarrow> 128 \<le> (of_char c :: nat) \<and> of_char c \<le> (191 :: nat)"

fun utf8_chars :: "string \<Rightarrow> string list" where
  "utf8_chars [] = []"
| "utf8_chars (b # bs) =
     (case utf8_chars bs of
        (c # cs) # rest \<Rightarrow>
          if is_utf8_continuation c then (b # c # cs) # rest else [b] # (c # cs) # rest
      | _ \<Rightarrow> [[b]])"

definition chars_count :: "string \<Rightarrow> nat" where
  "chars_count s = length (utf8_chars s)"

definition chars_take :: "nat \<Rightarrow> string \<Rightarrow> string" where
  "chars_take n s = concat (take n (utf8_chars s))"

text \<open>The characters with Unicode's \<open>White_Space\<close> property, in UTF-8.\<close>

definition is_whitespace :: "string \<Rightarrow> bool" where
  "is_whitespace ch \<longleftrightarrow> ch \<in> set
     ([[CHR 0x09], [CHR 0x0A], [CHR 0x0B], [CHR 0x0C], [CHR 0x0D], [CHR 0x20],
       [CHR 0xC2, CHR 0x85], [CHR 0xC2, CHR 0xA0], [CHR 0xE1, CHR 0x9A, CHR 0x80],
       [CHR 0xE2, CHR 0x80, CHR 0xA8], [CHR 0xE2, CHR 0x80, CHR 0xA9],
       [CHR 0xE2, CHR 0x80, CHR 0xAF], [CHR 0xE2, CHR 0x81, CHR 0x9F],
       [CHR 0xE3, CHR 0x80, CHR 0x80]]
      @ map (\<lambda>n. [CHR 0xE2, CHR 0x80, char_of (n :: nat)]) [128 ..< 139])"

text \<open>The ellipsis the one-line surfaces append, U+2026.\<close>

definition ellipsis :: string where
  "ellipsis = [CHR 0xE2, CHR 0x80, CHR 0xA6]"

subsection \<open>Trimming\<close>

definition trim :: "string \<Rightarrow> string" where
  "trim s = concat (rev (dropWhile is_whitespace (rev (dropWhile is_whitespace (utf8_chars s)))))"

definition trim_matches :: "char \<Rightarrow> string \<Rightarrow> string" where
  "trim_matches c s = rev (dropWhile ((=) c) (rev (dropWhile ((=) c) s)))"

definition trim_end_matches_char :: "char \<Rightarrow> string \<Rightarrow> string" where
  "trim_end_matches_char c s = rev (dropWhile ((=) c) (rev s))"

subsection \<open>Prefixes, suffixes and splitting\<close>

fun strip_prefix :: "string \<Rightarrow> string \<Rightarrow> string option" where
  "strip_prefix [] s = Some s"
| "strip_prefix (p # ps) [] = None"
| "strip_prefix (p # ps) (c # cs) = (if p = c then strip_prefix ps cs else None)"

definition strip_suffix :: "string \<Rightarrow> string \<Rightarrow> string option" where
  "strip_suffix p s = map_option rev (strip_prefix (rev p) (rev s))"

definition starts_with :: "string \<Rightarrow> string \<Rightarrow> bool" where
  "starts_with p s \<longleftrightarrow> strip_prefix p s \<noteq> None"

text \<open>\<open>trim_end_matches\<close> with a string pattern removes every trailing copy of it.\<close>

fun trim_start_copies :: "nat \<Rightarrow> string \<Rightarrow> string \<Rightarrow> string" where
  "trim_start_copies 0 p s = s"
| "trim_start_copies (Suc n) p s =
     (case strip_prefix p s of None \<Rightarrow> s | Some r \<Rightarrow> trim_start_copies n p r)"

definition trim_end_matches :: "string \<Rightarrow> string \<Rightarrow> string" where
  "trim_end_matches p s = rev (trim_start_copies (length s) (rev p) (rev s))"

fun split_once :: "string \<Rightarrow> string \<Rightarrow> (string \<times> string) option" where
  "split_once p [] = (if p = [] then Some ([], []) else None)"
| "split_once p (c # cs) =
     (case strip_prefix p (c # cs) of
        Some r \<Rightarrow> Some ([], r)
      | None \<Rightarrow> map_option (\<lambda>(a, b). (c # a, b)) (split_once p cs))"

text \<open>\<open>rsplit_once\<close> at a character: the parts before and after its last occurrence.\<close>

definition rsplit_once :: "char \<Rightarrow> string \<Rightarrow> (string \<times> string) option" where
  "rsplit_once c s = (if c \<in> set s
     then Some (rev (tl (dropWhile ((\<noteq>) c) (rev s))), rev (takeWhile ((\<noteq>) c) (rev s)))
     else None)"

fun contains_str :: "string \<Rightarrow> string \<Rightarrow> bool" where
  "contains_str p [] = (p = [])"
| "contains_str p (c # cs) = (starts_with p (c # cs) \<or> contains_str p cs)"

fun split_inclusive :: "char \<Rightarrow> string \<Rightarrow> string list" where
  "split_inclusive c [] = []"
| "split_inclusive c (x # xs) =
     (if x = c then [x] # split_inclusive c xs
      else case split_inclusive c xs of [] \<Rightarrow> [[x]] | l # ls \<Rightarrow> (x # l) # ls)"

text \<open>\<open>str::lines\<close>: the line ending, \<open>\n\<close> or \<open>\r\n\<close>, is removed.\<close>

definition line_body :: "string \<Rightarrow> string" where
  "line_body l = (case strip_suffix [CHR 0x0A] l of
     None \<Rightarrow> l
   | Some b \<Rightarrow> (case strip_suffix [CHR 0x0D] b of None \<Rightarrow> b | Some b' \<Rightarrow> b'))"

definition str_lines :: "string \<Rightarrow> string list" where
  "str_lines s = map line_body (split_inclusive (CHR 0x0A) s)"

fun join_str :: "string \<Rightarrow> string list \<Rightarrow> string" where
  "join_str sep [] = []"
| "join_str sep [x] = x"
| "join_str sep (x # y # zs) = x @ sep @ join_str sep (y # zs)"

subsection \<open>Decimal numbers\<close>

definition digit_char :: "nat \<Rightarrow> char" where
  "digit_char n = char_of (48 + n)"

fun show_nat :: "nat \<Rightarrow> string" where
  "show_nat n = (if n < 10 then [digit_char n] else show_nat (n div 10) @ [digit_char (n mod 10)])"

declare show_nat.simps [simp del]

text \<open>The \<open>{:0w}\<close> format of a non-negative number.\<close>

definition pad_zero :: "nat \<Rightarrow> string \<Rightarrow> string" where
  "pad_zero w s = replicate (w - length s) (CHR ''0'') @ s"

definition digit_value :: "char \<Rightarrow> nat" where
  "digit_value c = of_char c - 48"

fun digits_value :: "nat \<Rightarrow> string \<Rightarrow> nat" where
  "digits_value acc [] = acc"
| "digits_value acc (c # cs) = digits_value (10 * acc + digit_value c) cs"

definition parse_digits :: "string \<Rightarrow> nat option" where
  "parse_digits s = (if s \<noteq> [] \<and> list_all is_ascii_digit s then Some (digits_value 0 s) else None)"

text \<open>\<open>str::parse\<close> at an unsigned type with maximum \<open>m\<close>: one leading plus sign is accepted.\<close>

definition parse_unsigned :: "nat \<Rightarrow> string \<Rightarrow> nat option" where
  "parse_unsigned m s =
     (case parse_digits (case s of c # cs \<Rightarrow> if c = CHR ''+'' then cs else s | [] \<Rightarrow> []) of
        None \<Rightarrow> None
      | Some n \<Rightarrow> if n \<le> m then Some n else None)"

definition parse_u32 :: "string \<Rightarrow> nat option" where
  "parse_u32 s = parse_unsigned (2 ^ 32 - 1) s"

definition parse_i64 :: "string \<Rightarrow> int option" where
  "parse_i64 s = (case s of
     c # cs \<Rightarrow>
       if c = CHR ''-'' then
         (case parse_digits cs of None \<Rightarrow> None
          | Some n \<Rightarrow> if n \<le> 2 ^ 63 then Some (- int n) else None)
       else map_option int (parse_unsigned (2 ^ 63 - 1) s)
   | [] \<Rightarrow> None)"

subsection \<open>Lemmas: characters\<close>

lemma utf8_chars_nonempty: "x \<in> set (utf8_chars s) \<Longrightarrow> x \<noteq> []"
  by (induction s arbitrary: x rule: utf8_chars.induct) (auto split: list.splits if_splits)

lemma concat_utf8_chars [rust_str, simp]: "concat (utf8_chars s) = s"
proof (induction s rule: utf8_chars.induct)
  case (2 b bs)
  show ?case
  proof (cases "utf8_chars bs")
    case Nil
    with 2 show ?thesis by simp
  next
    case (Cons x xs)
    then have "x \<noteq> []" using utf8_chars_nonempty by (metis list.set_intros(1))
    with 2 Cons show ?thesis by (cases x) auto
  qed
qed simp

lemma utf8_chars_ascii:
  "list_all (\<lambda>c. \<not> is_utf8_continuation c) s \<Longrightarrow> utf8_chars s = map (\<lambda>c. [c]) s"
  by (induction s) (auto split: list.splits)

lemma utf8_chars_Nil_iff [simp]: "utf8_chars s = [] \<longleftrightarrow> s = []"
  by (cases s) (auto split: list.splits)

lemma chars_count_le_length: "chars_count s \<le> length s"
proof -
  have "length xs \<le> length (concat xs)" if "\<forall>x \<in> set xs. x \<noteq> []" for xs :: "string list"
    using that by (induction xs) (auto simp: Suc_le_eq neq_Nil_conv)
  then show ?thesis
    unfolding chars_count_def using utf8_chars_nonempty concat_utf8_chars by metis
qed

text \<open>Lists of byte groups that are the characters of their concatenation.\<close>

fun char_group :: "string \<Rightarrow> bool" where
  "char_group [] = False"
| "char_group (b # bs) = list_all is_utf8_continuation bs"

fun char_groups :: "string list \<Rightarrow> bool" where
  "char_groups [] = True"
| "char_groups (g # gs) = (char_group g \<and> list_all (\<lambda>h. char_group h \<and> \<not> is_utf8_continuation (hd h)) gs)"

lemma char_groups_utf8 [simp]: "char_groups (utf8_chars s)"
proof (induction s)
  case (Cons b bs)
  show ?case
  proof (cases "utf8_chars bs")
    case (Cons g gs)
    then obtain c cs where g: "g = c # cs" using utf8_chars_nonempty [of g bs] by (cases g) auto
    with Cons Cons.IH show ?thesis by auto
  qed simp
qed simp

lemma utf8_chars_continuations:
  assumes "list_all is_utf8_continuation bs" "rest = [] \<or> \<not> is_utf8_continuation (hd rest)"
  shows "utf8_chars (b # bs @ rest) = (b # bs) # utf8_chars rest"
  using assms(1)
proof (induction bs arbitrary: b)
  case Nil
  show ?case
  proof (cases "utf8_chars rest")
    case (Cons g gs)
    then obtain c cs where g: "g = c # cs" using utf8_chars_nonempty [of g rest] by (cases g) auto
    have "c = hd rest" using Cons g concat_utf8_chars [of rest] by auto
    then show ?thesis using assms(2) Cons g by auto
  qed simp
next
  case (Cons c cs)
  then show ?case by simp
qed

lemma utf8_chars_concat: "char_groups gs \<Longrightarrow> utf8_chars (concat gs) = gs"
proof (induction gs)
  case (Cons g gs)
  then obtain b bs where g: "g = b # bs" "list_all is_utf8_continuation bs" by (cases g) auto
  have rest: "concat gs = [] \<or> \<not> is_utf8_continuation (hd (concat gs))"
  proof (cases gs)
    case (Cons h hs)
    with Cons.prems have "char_group h" "\<not> is_utf8_continuation (hd h)" by auto
    with Cons show ?thesis by (cases h) auto
  qed simp
  have "char_groups gs" using Cons.prems by (cases gs) auto
  with Cons.IH have "utf8_chars (concat gs) = gs" by blast
  with utf8_chars_continuations [OF g(2) rest, of b] g show ?case by simp
qed simp

lemma char_groups_take: "char_groups gs \<Longrightarrow> char_groups (take n gs)"
  by (cases gs; cases n) (auto simp: list_all_iff dest: in_set_takeD)

lemma utf8_chars_take [simp]: "utf8_chars (chars_take n s) = take n (utf8_chars s)"
  by (simp add: chars_take_def utf8_chars_concat char_groups_take)

lemma utf8_chars_take_append:
  assumes "char_group h" "\<not> is_utf8_continuation (hd h)"
  shows "utf8_chars (chars_take n s @ h) = take n (utf8_chars s) @ [h]"
proof -
  have "char_groups (take n (utf8_chars s) @ [h])"
    using char_groups_take [of "utf8_chars s" n] assms by (cases "take n (utf8_chars s)") auto
  from utf8_chars_concat [OF this] show ?thesis by (simp add: chars_take_def)
qed

lemma utf8_chars_ellipsis: "utf8_chars (chars_take n s @ ellipsis) = take n (utf8_chars s) @ [ellipsis]"
  by (rule utf8_chars_take_append) (simp_all add: ellipsis_def is_utf8_continuation_def)

lemma chars_count_take_ellipsis: "chars_count (chars_take n s @ ellipsis) = Suc (min n (chars_count s))"
  by (simp add: chars_count_def utf8_chars_ellipsis)

lemma hexdigit_alphanumeric: "is_ascii_hexdigit c \<Longrightarrow> is_ascii_alphanumeric c"
  by (auto simp: is_ascii_hexdigit_def is_ascii_alphanumeric_def is_ascii_uppercase_def
      is_ascii_lowercase_def)

lemma alphanumeric_not_continuation: "is_ascii_alphanumeric c \<Longrightarrow> \<not> is_utf8_continuation c"
  by (auto simp: is_ascii_alphanumeric_def is_ascii_digit_def is_ascii_uppercase_def
      is_ascii_lowercase_def is_utf8_continuation_def)

subsection \<open>Lemmas: prefixes and splitting\<close>

lemma strip_prefix_append [rust_str, simp]: "strip_prefix p (p @ s) = Some s"
  by (induction p) auto

lemma strip_prefix_Some_iff: "strip_prefix p s = Some r \<longleftrightarrow> s = p @ r"
  by (induction p s rule: strip_prefix.induct) auto

lemma strip_prefix_None_iff: "strip_prefix p s = None \<longleftrightarrow> (\<forall>r. s \<noteq> p @ r)"
  by (metis not_None_eq strip_prefix_Some_iff)

lemma starts_with_iff: "starts_with p s \<longleftrightarrow> (\<exists>r. s = p @ r)"
  by (auto simp: starts_with_def strip_prefix_None_iff)

lemma strip_suffix_Some_iff: "strip_suffix p s = Some r \<longleftrightarrow> s = r @ p"
proof -
  have "strip_suffix p s = Some r \<longleftrightarrow> strip_prefix (rev p) (rev s) = Some (rev r)"
    by (auto simp: strip_suffix_def)
  also have "\<dots> \<longleftrightarrow> rev s = rev (r @ p)" by (simp add: strip_prefix_Some_iff)
  also have "\<dots> \<longleftrightarrow> s = r @ p" by (rule rev_is_rev_conv)
  finally show ?thesis .
qed

lemma split_once_Some: "split_once p s = Some (a, b) \<Longrightarrow> s = a @ p @ b"
  by (induction p s arbitrary: a rule: split_once.induct)
    (auto simp: strip_prefix_Some_iff split: if_splits option.splits)

lemma split_once_char:
  "c \<notin> set a \<Longrightarrow> split_once [c] (a @ c # b) = Some (a, b)"
  by (induction a) auto

lemma split_once_char_Some:
  "split_once [c] s = Some (a, b) \<Longrightarrow> s = a @ c # b \<and> c \<notin> set a"
  by (induction "[c]" s arbitrary: a rule: split_once.induct)
    (auto split: if_splits option.splits)

lemma split_once_char_None: "split_once [c] s = None \<longleftrightarrow> c \<notin> set s"
  by (induction "[c]" s rule: split_once.induct) (auto split: option.splits)

lemma rsplit_once_append [rust_str]:
  assumes "c \<notin> set b"
  shows "rsplit_once c (a @ c # b) = Some (a, b)"
proof -
  have "takeWhile ((\<noteq>) c) (rev b @ c # rev a) = rev b"
    using assms by (subst takeWhile_append2) auto
  moreover have "dropWhile ((\<noteq>) c) (rev b @ c # rev a) = c # rev a"
    using assms by (subst dropWhile_append2) auto
  ultimately show ?thesis by (simp add: rsplit_once_def)
qed

lemma rsplit_once_Some:
  assumes "rsplit_once c s = Some (a, b)"
  shows "s = a @ c # b" "c \<notin> set b"
proof -
  from assms have c: "c \<in> set s" by (auto simp: rsplit_once_def split: if_splits)
  then obtain u v where uv: "s = u @ c # v" "c \<notin> set v"
    by (metis split_list_last)
  with assms show "s = a @ c # b" "c \<notin> set b"
    by (auto simp: rsplit_once_append)
qed

lemma concat_split_inclusive [rust_str, simp]: "concat (split_inclusive c s) = s"
  by (induction c s rule: split_inclusive.induct) (auto split: list.splits)

lemma contains_str_iff: "contains_str p s \<longleftrightarrow> (\<exists>a b. s = a @ p @ b)"
proof (induction p s rule: contains_str.induct)
  case (2 p c cs)
  show ?case
  proof
    assume "contains_str p (c # cs)"
    then consider r where "c # cs = p @ r" | a b where "cs = a @ p @ b"
      using "2.IH" by (auto simp: starts_with_iff)
    then show "\<exists>a b. c # cs = a @ p @ b"
      by cases (metis append_Nil, metis append_Cons)
  next
    assume "\<exists>a b. c # cs = a @ p @ b"
    then obtain a b where ab: "c # cs = a @ p @ b" by blast
    show "contains_str p (c # cs)"
    proof (cases a)
      case Nil
      with ab have "starts_with p (c # cs)" unfolding starts_with_iff by auto
      then show ?thesis unfolding contains_str.simps by (rule disjI1)
    next
      case (Cons d ds)
      with ab have "cs = ds @ p @ b" by simp
      with "2.IH" show ?thesis unfolding contains_str.simps by blast
    qed
  qed
qed auto

subsection \<open>Lemmas: decimal numbers\<close>

lemma digit_char_digit: "n < 10 \<Longrightarrow> is_ascii_digit (digit_char n)"
  by (simp add: is_ascii_digit_def digit_char_def)

lemma digit_value_digit_char [rust_str]: "n < 10 \<Longrightarrow> digit_value (digit_char n) = n"
  by (simp add: digit_value_def digit_char_def)

lemma digits_value_append:
  "digits_value acc (s @ t) = digits_value (digits_value acc s) t"
  by (induction s arbitrary: acc) auto

lemma show_nat_nonempty [simp]: "show_nat n \<noteq> []"
  by (subst show_nat.simps) simp

lemma show_nat_digits: "list_all is_ascii_digit (show_nat n)"
proof (induction n rule: show_nat.induct)
  case (1 n)
  then show ?case by (subst show_nat.simps) (auto simp: digit_char_digit)
qed

lemma digits_value_show_nat: "digits_value 0 (show_nat n) = n"
proof (induction n rule: show_nat.induct)
  case (1 n)
  then show ?case
    by (subst show_nat.simps) (auto simp: digits_value_append digit_value_digit_char)
qed

lemma digits_value_replicate_zero: "digits_value 0 (replicate k (CHR ''0'') @ s) = digits_value 0 s"
  by (induction k) (simp_all add: digit_value_def)

lemma pad_zero_digits: "list_all is_ascii_digit (pad_zero w (show_nat n))"
  using show_nat_digits [of n] by (auto simp: pad_zero_def list_all_iff is_ascii_digit_def)

lemma parse_digits_pad_zero [rust_str]: "parse_digits (pad_zero w (show_nat n)) = Some n"
  using pad_zero_digits [of w n]
  by (simp add: parse_digits_def pad_zero_def digits_value_replicate_zero digits_value_show_nat)

lemma show_nat_hd_not_sign:
  assumes "pad_zero w (show_nat n) = c # cs"
  shows "c \<noteq> CHR ''+''" "c \<noteq> CHR ''-''"
  using pad_zero_digits [of w n] assms by (auto simp: is_ascii_digit_def)

lemma parse_unsigned_pad_zero [rust_str]:
  assumes "n \<le> m"
  shows "parse_unsigned m (pad_zero w (show_nat n)) = Some n"
proof -
  obtain c cs where s: "pad_zero w (show_nat n) = c # cs"
    by (metis append_is_Nil_conv list.exhaust pad_zero_def show_nat_nonempty)
  then have "c \<noteq> CHR ''+''" by (rule show_nat_hd_not_sign)
  moreover have "parse_digits (c # cs) = Some n"
    using parse_digits_pad_zero [of w n] s by simp
  ultimately show ?thesis using assms by (simp add: parse_unsigned_def s)
qed

lemma parse_i64_pad_zero [rust_str]:
  assumes "n < 2 ^ 63"
  shows "parse_i64 (pad_zero w (show_nat n)) = Some (int n)"
proof -
  obtain c cs where s: "pad_zero w (show_nat n) = c # cs"
    by (metis append_is_Nil_conv list.exhaust pad_zero_def show_nat_nonempty)
  then have "c \<noteq> CHR ''-''" by (rule show_nat_hd_not_sign)
  moreover have "parse_unsigned (2 ^ 63 - 1) (c # cs) = Some n"
    using parse_unsigned_pad_zero [of n "2 ^ 63 - 1" w] assms s by simp
  ultimately show ?thesis by (simp add: parse_i64_def s)
qed

lemma length_show_nat: "0 < k \<Longrightarrow> n < 10 ^ k \<Longrightarrow> length (show_nat n) \<le> k"
proof (induction n arbitrary: k rule: show_nat.induct)
  case (1 n)
  show ?case
  proof (cases "n < 10")
    case True
    with "1.prems" show ?thesis by (subst show_nat.simps) simp
  next
    case False
    with "1.prems" have "k \<noteq> 1" by auto
    with "1.prems"(1) have k: "k = Suc (k - 1)" "0 < k - 1" by simp_all
    then obtain j where k: "k = Suc j" "0 < j" by blast
    with "1.prems" have "n div 10 < 10 ^ j" by (simp add: less_mult_imp_div_less)
    with "1.IH" False k have "length (show_nat (n div 10)) \<le> j" by blast
    with False k show ?thesis by (subst show_nat.simps) simp
  qed
qed

lemma length_pad_zero: "0 < w \<Longrightarrow> n < 10 ^ w \<Longrightarrow> length (pad_zero w (show_nat n)) = w"
  using length_show_nat [of w n] by (simp add: pad_zero_def)

subsection \<open>Lines, trimming and suffixes\<close>

lemma split_inclusive_single: "c \<notin> set s \<Longrightarrow> s \<noteq> [] \<Longrightarrow> split_inclusive c s = [s]"
proof (induction s)
  case (Cons a s)
  then show ?case by (cases s) auto
qed simp

lemma line_body_plain: "CHR 0x0A \<notin> set s \<Longrightarrow> line_body s = s"
  by (cases "strip_suffix [CHR 0x0A] s") (auto simp: line_body_def strip_suffix_Some_iff)

lemma str_lines_single: "CHR 0x0A \<notin> set s \<Longrightarrow> s \<noteq> [] \<Longrightarrow> str_lines s = [s]"
  by (simp add: str_lines_def split_inclusive_single line_body_plain)

lemma trim_ascii:
  assumes "list_all (\<lambda>c. \<not> is_utf8_continuation c) s"
  shows "trim s = rev (dropWhile (\<lambda>c. is_whitespace [c]) (rev (dropWhile (\<lambda>c. is_whitespace [c]) s)))"
  using utf8_chars_ascii [OF assms] by (simp add: trim_def dropWhile_map rev_map o_def concat_map_singleton)

lemma trim_solid:
  assumes "list_all (\<lambda>c. \<not> is_utf8_continuation c \<and> \<not> is_whitespace [c]) s"
  shows "trim s = s"
proof -
  have "dropWhile (\<lambda>c. is_whitespace [c]) t = t" if "set t \<subseteq> set s" for t
    using that assms by (cases t) (auto simp: list_all_iff)
  then show ?thesis using assms by (subst trim_ascii) (auto simp: list_all_iff)
qed

lemma digit_solid: "is_ascii_digit c \<Longrightarrow> \<not> is_utf8_continuation c \<and> \<not> is_whitespace [c]"
  by (auto simp: is_ascii_digit_def is_utf8_continuation_def is_whitespace_def)

lemma trim_start_copies_none: "strip_prefix p s = None \<Longrightarrow> trim_start_copies n p s = s"
  by (cases n) auto

lemma trim_end_matches_none: "strip_suffix p s = None \<Longrightarrow> trim_end_matches p s = s"
  by (simp add: strip_suffix_def trim_end_matches_def trim_start_copies_none)

lemma trim_end_matches_once:
  assumes "strip_suffix p s = None" "p \<noteq> []"
  shows "trim_end_matches p (s @ p) = s"
proof -
  have "length (s @ p) = Suc (length (s @ p) - 1)" using assms(2) by (cases p) auto
  moreover have "strip_prefix (rev p) (rev s) = None" using assms(1) by (simp add: strip_suffix_def)
  ultimately show ?thesis
    unfolding trim_end_matches_def by (metis rev_append strip_prefix_append trim_start_copies.simps(2)
        trim_start_copies_none option.case(2) rev_rev_ident)
qed

lemma slash_split:
  assumes "CHR ''/'' \<notin> set owner"
  shows "split_once ''/'' (owner @ ''/'' @ repo) = Some (owner, repo)"
  using split_once_char [OF assms] by simp

end
