(* ===== verification/Calendar.thy ===== *)
theory Calendar
  imports Rust_Strings "HOL-Library.Monad_Syntax"
begin

text \<open>
  The timestamps of \<open>crates/pa-daemon/src/util.rs\<close>: the proleptic Gregorian calendar as day
  numbers, \<open>iso_from_unix_ms\<close> which prints the timestamps every durable document carries, and
  \<open>iso_to_unix_ms\<close> which the attempt budget and the delivery retry read them back with.
  Rust's \<open>u64\<close> milliseconds are \<open>nat\<close> (no operation here overflows: the largest quantity is
  below \<open>2 ^ 64\<close>), its \<open>i64\<close> days are \<open>int\<close>; \<open>div_euclid\<close> by a positive constant is \<open>div\<close>.
\<close>

definition days_from_civil :: "int \<Rightarrow> int \<Rightarrow> int \<Rightarrow> int" where
  "days_from_civil y0 m d =
     (let y = (if m \<le> 2 then y0 - 1 else y0);
          era = y div 400;
          yoe = y mod 400;
          mp = (m + 9) mod 12;
          doy = (153 * mp + 2) div 5 + d - 1;
          doe = yoe * 365 + yoe div 4 - yoe div 100 + doy
      in era * 146097 + doe - 719468)"

definition civil_from_days :: "int \<Rightarrow> int \<times> int \<times> int" where
  "civil_from_days z0 =
     (let z = z0 + 719468;
          era = z div 146097;
          doe = z mod 146097;
          yoe = (doe - doe div 1460 + doe div 36524 - doe div 146096) div 365;
          y = yoe + era * 400;
          doy = doe - (365 * yoe + yoe div 4 - yoe div 100);
          mp = (5 * doy + 2) div 153;
          d = doy - (153 * mp + 2) div 5 + 1;
          m = (if mp < 10 then mp + 3 else mp - 9)
      in (if m \<le> 2 then y + 1 else y, m, d))"

definition show_int04 :: "int \<Rightarrow> string" where
  "show_int04 y = (if 0 \<le> y then pad_zero 4 (show_nat (nat y))
     else CHR ''-'' # pad_zero 3 (show_nat (nat (- y))))"

definition iso_from_unix_ms :: "nat \<Rightarrow> string" where
  "iso_from_unix_ms ms =
     (let secs = int (ms div 1000);
          millis = ms mod 1000;
          days = secs div 86400;
          secs_of_day = nat (secs mod 86400);
          (year, month, day) = civil_from_days days;
          hour = secs_of_day div 3600;
          minute = (secs_of_day mod 3600) div 60;
          second = secs_of_day mod 60
      in show_int04 year @ ''-'' @ pad_zero 2 (show_nat (nat month)) @ ''-''
         @ pad_zero 2 (show_nat (nat day)) @ ''T'' @ pad_zero 2 (show_nat hour) @ '':''
         @ pad_zero 2 (show_nat minute) @ '':'' @ pad_zero 2 (show_nat second) @ ''.''
         @ pad_zero 3 (show_nat millis) @ ''Z'')"

definition leap_year :: "int \<Rightarrow> bool" where
  "leap_year year \<longleftrightarrow> year mod 4 = 0 \<and> year mod 100 \<noteq> 0 \<or> year mod 400 = 0"

definition days_in_month :: "int \<Rightarrow> nat \<Rightarrow> nat" where
  "days_in_month year month =
     (if month \<in> {1, 3, 5, 7, 8, 10, 12} then 31
      else if month \<in> {4, 6, 9, 11} then 30
      else if month = 2 \<and> leap_year year then 29
      else 28)"

text \<open>\<open>iso.get(a..b)\<close>: the bytes from \<open>a\<close> up to \<open>b\<close>.\<close>

definition str_slice :: "nat \<Rightarrow> nat \<Rightarrow> string \<Rightarrow> string" where
  "str_slice a b s = take (b - a) (drop a s)"

text \<open>The optional fraction: its first three digits, padded with zeros.\<close>

definition iso_millis :: "string \<Rightarrow> nat option" where
  "iso_millis stamp =
     (if length stamp > 20 \<and> stamp ! 19 = CHR ''.'' then
        (let digits = takeWhile is_ascii_digit (drop 20 stamp)
         in if digits = [] then None else parse_digits (take 3 (digits @ ''000'')))
      else Some 0)"

definition iso_to_unix_ms :: "string \<Rightarrow> nat option" where
  "iso_to_unix_ms stamp =
     (if length stamp < 19
         \<or> stamp ! 4 \<noteq> CHR ''-''
         \<or> stamp ! 7 \<noteq> CHR ''-''
         \<or> (stamp ! 10 \<noteq> CHR ''T'' \<and> stamp ! 10 \<noteq> CHR '' '')
         \<or> stamp ! 13 \<noteq> CHR '':''
         \<or> stamp ! 16 \<noteq> CHR '':''
      then None
      else do {
        year \<leftarrow> parse_i64 (str_slice 0 4 stamp);
        month \<leftarrow> parse_u32 (str_slice 5 7 stamp);
        day \<leftarrow> parse_u32 (str_slice 8 10 stamp);
        hour \<leftarrow> parse_u32 (str_slice 11 13 stamp);
        minute \<leftarrow> parse_u32 (str_slice 14 16 stamp);
        second \<leftarrow> parse_u32 (str_slice 17 19 stamp);
        millis \<leftarrow> iso_millis stamp;
        if \<not> (1 \<le> month \<and> month \<le> 12) \<or> day = 0 \<or> day > 31 \<or> hour > 23 \<or> minute > 59
           \<or> second > 59
        then None
        else if day > days_in_month year month then None
        else
          (let days = days_from_civil year (int month) (int day);
               secs = days * 86400 + int hour * 3600 + int minute * 60 + int second
           in if secs < 0 then None else Some (nat (secs * 1000 + int millis)))
      })"

subsection \<open>The calendar is a bijection\<close>

text \<open>Days before year \<open>y\<close> of a calendar whose years start in March.\<close>

definition yday :: "int \<Rightarrow> int" where
  "yday y = 365 * y + y div 4 - y div 100 + y div 400"

lemma div_int_split:
  fixes a b :: int
  assumes "0 < b"
  obtains q r where "a = b * q + r" "0 \<le> r" "r < b" "a div b = q"
  using assms pos_mod_sign pos_mod_bound by (metis mult_div_mod_eq)

lemma doe_decomp:
  assumes "0 \<le> doe" "doe \<le> (146096::int)"
  obtains c q r where "doe = 36524 * c + 1461 * q + r" "0 \<le> c" "c \<le> 3" "0 \<le> q" "q \<le> 24" "0 \<le> r" "r \<le> 1460"
     "doe div 36524 - doe div 146096 = c" "c < 3 \<Longrightarrow> q = 24 \<Longrightarrow> r \<le> 1459"
proof (cases "doe = 146096")
  case True
  then show thesis using that [of 3 24 1460] by simp
next
  case False
  obtain c d where c: "doe = 36524 * c + d" "0 \<le> d" "d < 36524" "doe div 36524 = c"
    using div_int_split [of 36524 doe] by auto
  obtain q r where q: "d = 1461 * q + r" "0 \<le> r" "r < 1461" 
    using div_int_split [of 1461 d] by auto
  have "doe div 146096 = 0" using assms False by simp
  with c q assms False show thesis by (intro that [of c q r]) linarith+
qed

lemma yday_at:
  assumes "0 \<le> c" "c \<le> 3" "0 \<le> q" "q \<le> 24" "0 \<le> k" "k \<le> (3::int)"
  shows "yday (100 * c + 4 * q + k) = 36524 * c + 1461 * q + 365 * k"
proof -
  have "(100 * c + 4 * q + k) div 4 = 25 * c + q" 
    using assms by (intro int_div_pos_eq [where r = k]) (simp_all add: algebra_simps)
  moreover have "(100 * c + 4 * q + k) div 100 = c"
    using assms by (intro int_div_pos_eq [where r = "4 * q + k"]) linarith+
  moreover have "(100 * c + 4 * q + k) div 400 = 0" using assms by simp
  ultimately show ?thesis unfolding yday_def by (simp only:) (simp add: algebra_simps)
qed
lemma yday_end:
  assumes "0 \<le> c" "c \<le> (3::int)" shows "yday (100 * c + 100) = 36524 * (c + 1) + (if c = 3 then 1 else 0)"
proof -
  have "c = 0 \<or> c = 1 \<or> c = 2 \<or> c = 3" using assms by arith
  then show ?thesis by (auto simp: yday_def)
qed

lemma yoe_at:
  assumes "doe = 36524 * c + 1461 * q + r" "0 \<le> c" "c \<le> (3::int)" "0 \<le> q" "q \<le> 24" "0 \<le> r" "r \<le> 1460"
     "doe div 36524 - doe div 146096 = c" 
  shows "(doe - doe div 1460 + doe div 36524 - doe div 146096) div 365 = 100 * c + 4 * q + min 3 (r div 365)"
proof -
  let ?e = "(24 * c + q + r) div 1460"
  have "doe div 1460 = 25 * c + q + ?e" 
  proof -
    obtain e f where "24 * c + q + r = 1460 * e + f" "0 \<le> f" "f < 1460" "?e = e"
      using div_int_split [of 1460 "24 * c + q + r"] by auto
    then show ?thesis using assms(1) by (intro int_div_pos_eq [where r = f]) (simp_all add: algebra_simps)
  qed
  then have "doe - doe div 1460 + doe div 36524 - doe div 146096 = 36500 * c + 1460 * q + (r - ?e)"
    using assms(1,8) by linarith
  moreover have "(36500 * c + 1460 * q + (r - ?e)) div 365 = 100 * c + 4 * q + (r - ?e) div 365"
    by (simp add: div_add1_eq [of "36500 * c + 1460 * q"] algebra_simps)
  moreover have "(r - ?e) div 365 = min 3 (r div 365)"
  proof (cases "24 * c + q + r < 1460")
    case True
    then have "?e = 0" using assms by simp
    with True assms show ?thesis by auto
  next
    case False
    then have "?e = 1" using assms by (intro int_div_pos_eq [where r = "24 * c + q + r - 1460"]) linarith+
    moreover have "(r - 1) div 365 = 3" 
      using False assms by (intro int_div_pos_eq [where r = "r - 1 - 1095"]) linarith+
    moreover have "3 \<le> r div 365" using False assms by simp
    ultimately show ?thesis by simp
  qed
  ultimately show ?thesis by simp
qed

lemma yoe_of_doe:
  assumes "0 \<le> doe" "doe \<le> (146096::int)"
  defines "yoe \<equiv> (doe - doe div 1460 + doe div 36524 - doe div 146096) div 365"
  shows "0 \<le> yoe" "yoe \<le> 399" "yday yoe \<le> doe" "doe < yday (yoe + 1)"
proof -
  obtain c q r where D: "doe = 36524 * c + 1461 * q + r" "0 \<le> c" "c \<le> 3" "0 \<le> q" "q \<le> 24" "0 \<le> r" "r \<le> 1460"
     "doe div 36524 - doe div 146096 = c" and last: "c < 3 \<Longrightarrow> q = 24 \<Longrightarrow> r \<le> 1459"
    using doe_decomp [OF assms(1,2)] by metis
  define k where "k = min 3 (r div 365)"
  have k: "0 \<le> k" "k \<le> 3" "365 * k \<le> r" "k < 3 \<Longrightarrow> r < 365 * (k + 1)" using D unfolding k_def by auto
  have yoe: "yoe = 100 * c + 4 * q + k" using yoe_at [OF D] unfolding yoe_def k_def .
  show "0 \<le> yoe" "yoe \<le> 399" using yoe D k by linarith+
  show "yday yoe \<le> doe" unfolding yoe using yday_at [of c q k] D k by linarith
  show "doe < yday (yoe + 1)"
  proof (cases "k < 3")
    case True
    then have "yday (yoe + 1) = 36524 * c + 1461 * q + 365 * (k + 1)"
      using yday_at [of c q "k + 1"] D k yoe by (simp add: add.assoc)
    then show ?thesis using D k True by linarith
  next
    case False
    then have [simp]: "k = 3" using k by simp
    show ?thesis
    proof (cases "q < 24")
      case True
      then have "yday (yoe + 1) = 36524 * c + 1461 * q + 1461"
        using yday_at [of c "q + 1" 0] D yoe by (simp add: algebra_simps)
      then show ?thesis using D(1,6,7) by linarith
    next
      case False
      then have "q = 24" using D by simp
      then have "yday (yoe + 1) = 36524 * (c + 1) + (if c = 3 then 1 else 0)"
        using yday_end [of c] D yoe by (simp add: algebra_simps)
      then show ?thesis using D last \<open>q = 24\<close> by (auto split: if_splits)
    qed
  qed
qed
definition month_start :: "int \<Rightarrow> int" where "month_start mp = (153 * mp + 2) div 5"

lemma mp_cases: "0 \<le> mp \<Longrightarrow> mp \<le> (11::int) \<Longrightarrow> 
  mp = 0 \<or> mp = 1 \<or> mp = 2 \<or> mp = 3 \<or> mp = 4 \<or> mp = 5 \<or> mp = 6 \<or> mp = 7 \<or> mp = 8 \<or> mp = 9 \<or> mp = 10 \<or> mp = 11"
  by presburger

lemma mp_of_doy:
  assumes "0 \<le> doy" "doy \<le> (365::int)"
  defines "mp \<equiv> (5 * doy + 2) div 153"
  shows "0 \<le> mp" "mp \<le> 11" "month_start mp \<le> doy" "doy < month_start (mp + 1)"
proof -
  define r where "r = (5 * doy + 2) mod 153"
  have r: "5 * doy + 2 = 153 * mp + r" "0 \<le> r" "r < 153"
    unfolding r_def mp_def by simp_all
  show mp: "0 \<le> mp" "mp \<le> 11" using r assms(1,2) by linarith+
  show "month_start mp \<le> doy" "doy < month_start (mp + 1)"
    using mp_cases [OF mp] r unfolding month_start_def by (elim disjE; simp)+
qed

lemma mp_of_month_start:
  assumes "0 \<le> mp" "mp \<le> (11::int)" "month_start mp \<le> doy" "doy < month_start (mp + 1)"
  shows "(5 * doy + 2) div 153 = mp"
proof (rule int_div_pos_eq [where r = "5 * doy + 2 - 153 * mp"])
  show "0 \<le> 5 * doy + 2 - 153 * mp" "5 * doy + 2 - 153 * mp < 153"
    using mp_cases [OF assms(1,2)] assms(3,4) unfolding month_start_def by (elim disjE; simp)+
qed simp

lemma div_int_Suc: "0 < (n::int) \<Longrightarrow> (y + 1) div n = y div n + (if n dvd y + 1 then 1 else 0)"
proof -
  assume n: "0 < n"
  obtain q r where q: "y = n * q + r" "0 \<le> r" "r < n" "y div n = q" using div_int_split [OF n] by metis
  show ?thesis
  proof (cases "r + 1 = n")
    case True
    then have "y + 1 = n * (q + 1)" using q by (simp add: algebra_simps)
    then show ?thesis using n q(4) by simp
  next
    case False
    then have "(y + 1) div n = q" using q by (intro int_div_pos_eq [where r = "r + 1"]) auto
    moreover have "(y + 1) mod n = r + 1" using q False by (intro int_mod_pos_eq [where q = q]) auto
    ultimately show ?thesis using q by (auto simp: dvd_eq_mod_eq_0)
  qed
qed

lemma leap_yday: "yday (y + 1) = yday y + (if leap_year (y + 1) then 366 else 365)"
proof -
  have "100 dvd y + 1 \<Longrightarrow> 4 dvd y + 1" "400 dvd y + 1 \<Longrightarrow> 100 dvd y + 1"
    using dvd_trans [of "4::int" 100 "y + 1"] dvd_trans [of "100::int" 400 "y + 1"] by simp_all
  moreover have "leap_year (y + 1) \<longleftrightarrow> 4 dvd y + 1 \<and> \<not> 100 dvd y + 1 \<or> 400 dvd y + 1"
    by (simp add: leap_year_def dvd_eq_mod_eq_0)
  moreover have "yday (y + 1) = yday y + 365 + (if 4 dvd y + 1 then 1 else 0)
      - (if 100 dvd y + 1 then 1 else 0) + (if 400 dvd y + 1 then 1 else 0)"
  proof -
    have "(y + 1) div 4 = y div 4 + (if 4 dvd y + 1 then 1 else 0)"
      "(y + 1) div 100 = y div 100 + (if 100 dvd y + 1 then 1 else 0)"
      "(y + 1) div 400 = y div 400 + (if 400 dvd y + 1 then 1 else 0)"
      by (rule div_int_Suc, simp)+
    then show ?thesis unfolding yday_def by (simp only:) (simp only: distrib_left)
  qed
  ultimately show ?thesis by (auto simp del: dvd_add_right_iff)
qed
lemma yday_mono: "x \<le> y \<Longrightarrow> yday x \<le> yday y"
  by (induction y rule: int_ge_induct) (auto simp: leap_yday)

lemma leap_year_period: "leap_year (y + era * 400) = leap_year y"
proof -
  have "y + era * 400 = y + 4 * (100 * era)" "y + era * 400 = y + 100 * (4 * era)"
    "y + era * 400 = y + 400 * era" by simp_all
  then have "(y + era * 400) mod 4 = y mod 4" "(y + era * 400) mod 100 = y mod 100"
    "(y + era * 400) mod 400 = y mod 400" by (metis mod_mult_self2)+
  then show ?thesis by (simp add: leap_year_def)
qed

text \<open>The year starts on the first of March: \<open>mp\<close> counts months from there.\<close>

definition month_of :: "int \<Rightarrow> int" where
  "month_of mp = (if mp < 10 then mp + 3 else mp - 9)"

lemma month_of_props:
  assumes "0 \<le> mp" "mp \<le> 11"
  shows "1 \<le> month_of mp" "month_of mp \<le> 12" "(month_of mp + 9) mod 12 = mp"
    "mp \<noteq> 11 \<Longrightarrow> int (days_in_month y (nat (month_of mp))) = month_start (mp + 1) - month_start mp"
    "mp = 11 \<Longrightarrow> int (days_in_month y (nat (month_of mp))) = (if leap_year y then 29 else 28)"
    "month_of mp \<le> 2 \<longleftrightarrow> 10 \<le> mp"
  using mp_cases [OF assms]
  by (elim disjE; simp add: month_of_def month_start_def days_in_month_def; fail)+

lemma yoe_plain:
  assumes "0 \<le> yoe" "yoe \<le> (399::int)"
  shows "yoe * 365 + yoe div 4 - yoe div 100 = yday yoe"
  using assms by (simp add: yday_def)

lemma days_from_civil_march:
  assumes "0 \<le> mp" "mp \<le> 11" "0 \<le> yoe" "yoe \<le> 399"
  shows "days_from_civil (if month_of mp \<le> 2 then yoe + era * 400 + 1 else yoe + era * 400) (month_of mp) d
    = era * 146097 + (yday yoe + (month_start mp + d - 1)) - 719468"
proof -
  have "(if month_of mp \<le> 2 then (if month_of mp \<le> 2 then yoe + era * 400 + 1 else yoe + era * 400) - 1
     else (if month_of mp \<le> 2 then yoe + era * 400 + 1 else yoe + era * 400)) = yoe + era * 400" by simp
  moreover have "(yoe + era * 400) div 400 = era" "(yoe + era * 400) mod 400 = yoe" using assms by simp_all
  ultimately show ?thesis
    using month_of_props(3) [OF assms(1,2)] yoe_plain [OF assms(3,4)]
    unfolding days_from_civil_def Let_def month_start_def by (simp only:)
qed

lemma civil_from_days_march:
  obtains era yoe mp doy where
    "civil_from_days z = (if month_of mp \<le> 2 then yoe + era * 400 + 1 else yoe + era * 400,
        month_of mp, doy - month_start mp + 1)"
    "0 \<le> mp" "mp \<le> 11" "0 \<le> yoe" "yoe \<le> 399" "month_start mp \<le> doy" "doy < month_start (mp + 1)"
    "0 \<le> doy" "doy < (if leap_year (yoe + 1) then 366 else 365)"
    "z = era * 146097 + (yday yoe + doy) - 719468"
proof -
  define era where "era = (z + 719468) div 146097"
  define doe where "doe = (z + 719468) mod 146097"
  define yoe where "yoe = (doe - doe div 1460 + doe div 36524 - doe div 146096) div 365"
  define doy where "doy = doe - yday yoe"
  define mp where "mp = (5 * doy + 2) div 153"
  have doe: "0 \<le> doe" "doe \<le> 146096" unfolding doe_def by simp_all
  have yoe: "0 \<le> yoe" "yoe \<le> 399" "yday yoe \<le> doe" "doe < yday (yoe + 1)"
    using yoe_of_doe [OF doe] unfolding yoe_def by simp_all
  then have doy: "0 \<le> doy" "doy < (if leap_year (yoe + 1) then 366 else 365)"
    unfolding doy_def leap_yday by simp_all
  then have "doy \<le> 365" by (simp split: if_splits)
  note mp = mp_of_doy [OF doy(1) this, folded mp_def]
  have "365 * yoe + yoe div 4 - yoe div 100 = yday yoe"
    using yoe_plain [OF yoe(1,2)] by (simp only: mult.commute)
  then have "civil_from_days z = (if month_of mp \<le> 2 then yoe + era * 400 + 1 else yoe + era * 400,
        month_of mp, doy - month_start mp + 1)"
    unfolding civil_from_days_def Let_def month_of_def month_start_def mp_def doy_def yoe_def doe_def era_def
    by (simp only:)
  moreover have "z = era * 146097 + (yday yoe + doy) - 719468"
    unfolding doy_def doe_def era_def by (simp add: algebra_simps)
  ultimately show thesis using that mp yoe doy by blast
qed

lemma civil_from_days_valid:
  assumes "civil_from_days z = (y, m, d)"
  shows "1 \<le> m" "m \<le> 12" "1 \<le> d" "d \<le> int (days_in_month y (nat m))" "days_from_civil y m d = z"
proof -
  obtain era yoe mp doy where M: "civil_from_days z = (if month_of mp \<le> 2 then yoe + era * 400 + 1 else yoe + era * 400,
        month_of mp, doy - month_start mp + 1)"
    "0 \<le> mp" "mp \<le> 11" "0 \<le> yoe" "yoe \<le> 399" "month_start mp \<le> doy" "doy < month_start (mp + 1)"
    "0 \<le> doy" "doy < (if leap_year (yoe + 1) then 366 else 365)"
    "z = era * 146097 + (yday yoe + doy) - 719468"
    by (rule civil_from_days_march)
  note P = month_of_props [OF M(2,3)]
  have y: "y = (if month_of mp \<le> 2 then yoe + era * 400 + 1 else yoe + era * 400)"
    and m: "m = month_of mp" and d: "d = doy - month_start mp + 1"
    using assms [unfolded M(1)] by blast+
  show "1 \<le> m" "m \<le> 12" "1 \<le> d" using P m d M by simp_all
  show "days_from_civil y m d = z"
    using days_from_civil_march [OF M(2,3,4,5), of era d] M(10) unfolding y m d by simp
  show "d \<le> int (days_in_month y (nat m))"
  proof (cases "mp = 11")
    case True
    then have "leap_year y = leap_year (yoe + 1)"
      using leap_year_period [of "yoe + 1" era] P(6) unfolding y by (simp add: algebra_simps)
    then show ?thesis using P(5) [OF True, of y] M(9) True unfolding m d
      by (auto simp: month_start_def split: if_splits)
  next
    case False
    then show ?thesis using P(4) [OF False, of y] M(7) unfolding m d by simp
  qed
qed

lemma doe_bounds:
  assumes "0 \<le> yoe" "yoe \<le> 399" "0 \<le> doy" "doy < (if leap_year (yoe + 1) then 366 else 365)"
  shows "0 \<le> yday yoe + doy" "yday yoe + doy < 146097" "yday yoe + doy < yday (yoe + 1)"
proof -
  show lt: "yday yoe + doy < yday (yoe + 1)" using assms(4) by (simp add: leap_yday)
  have "yday 0 = 0" "yday 400 = 146097" by (simp_all add: yday_def)
  moreover have "yday 0 \<le> yday yoe" "yday (yoe + 1) \<le> yday 400" using assms(1,2) yday_mono by auto
  ultimately show "0 \<le> yday yoe + doy" "yday yoe + doy < 146097" using lt assms(3) by linarith+
qed

lemma yoe_unique:
  assumes "yday a + i = yday b + j" "0 \<le> i" "0 \<le> j" "yday a + i < yday (a + 1)" "yday b + j < yday (b + 1)"
  shows "a = b" "i = j"
proof -
  have "\<not> a < b" using assms yday_mono [of "a + 1" b] by linarith
  moreover have "\<not> b < a" using assms yday_mono [of "b + 1" a] by linarith
  ultimately show "a = b" by simp
  with assms(1) show "i = j" by simp
qed

lemma civil_to_march:
  assumes "1 \<le> m" "m \<le> 12" "1 \<le> d" "d \<le> int (days_in_month y (nat m))"
  obtains era yoe mp doy where
    "y = (if month_of mp \<le> 2 then yoe + era * 400 + 1 else yoe + era * 400)" "m = month_of mp"
    "d = doy - month_start mp + 1"
    "0 \<le> mp" "mp \<le> 11" "0 \<le> yoe" "yoe \<le> 399" "month_start mp \<le> doy" "doy < month_start (mp + 1)"
    "0 \<le> doy" "doy < (if leap_year (yoe + 1) then 366 else 365)"
proof -
  define mp where "mp = (m + 9) mod 12"
  define y' where "y' = (if m \<le> 2 then y - 1 else y)"
  define era where "era = y' div 400"
  define yoe where "yoe = y' mod 400"
  define doy where "doy = month_start mp + d - 1"
  have mp: "0 \<le> mp" "mp \<le> 11" "month_of mp = m"
  proof -
    show "0 \<le> mp" "mp \<le> 11" unfolding mp_def by simp_all
    have "mp = (if m \<le> 2 then m + 9 else m - 3)" unfolding mp_def using assms(1,2) by presburger
    then show "month_of mp = m" using assms(1,2) by (simp add: month_of_def)
  qed
  note P = month_of_props [OF mp(1,2)]
  have yoe: "0 \<le> yoe" "yoe \<le> 399" "yoe + era * 400 = y'" unfolding yoe_def era_def by simp_all
  have y: "y = (if month_of mp \<le> 2 then yoe + era * 400 + 1 else yoe + era * 400)"
    unfolding mp(3) yoe(3) y'_def by simp
  have start: "0 \<le> month_start mp" "month_start mp \<le> 337" "mp \<noteq> 11 \<Longrightarrow> month_start (mp + 1) \<le> 337"
    using mp_cases [OF mp(1,2)] by (elim disjE; simp add: month_start_def; fail)+
  have doy: "doy < month_start (mp + 1) \<and> doy < (if leap_year (yoe + 1) then 366 else 365)"
  proof (cases "mp = 11")
    case True
    then have "leap_year y = leap_year (yoe + 1)"
      using leap_year_period [of "yoe + 1" era] P(6) unfolding y by (simp add: algebra_simps)
    then show ?thesis using P(5) [OF True, of y] assms(4) True unfolding doy_def mp(3)
      by (auto simp: month_start_def split: if_splits)
  next
    case False
    then show ?thesis using P(4) [OF False, of y] start(3) assms(4) unfolding doy_def mp(3) by auto
  qed
  show thesis
    using that [OF y _ _ mp(1,2) yoe(1,2), of doy] mp(3) doy start(1) assms(3) unfolding doy_def by simp
qed

lemma civil_from_days_from_civil:
  assumes "1 \<le> m" "m \<le> 12" "1 \<le> d" "d \<le> int (days_in_month y (nat m))"
  shows "civil_from_days (days_from_civil y m d) = (y, m, d)"
proof -
  obtain era yoe mp doy where M: 
    "y = (if month_of mp \<le> 2 then yoe + era * 400 + 1 else yoe + era * 400)" "m = month_of mp"
    "d = doy - month_start mp + 1"
    "0 \<le> mp" "mp \<le> 11" "0 \<le> yoe" "yoe \<le> 399" "month_start mp \<le> doy" "doy < month_start (mp + 1)"
    "0 \<le> doy" "doy < (if leap_year (yoe + 1) then 366 else 365)"
    using assms by (rule civil_to_march)
  define z where "z = days_from_civil y m d"
  obtain era2 yoe2 mp2 doy2 where N: "civil_from_days z = (if month_of mp2 \<le> 2 then yoe2 + era2 * 400 + 1 else yoe2 + era2 * 400,
        month_of mp2, doy2 - month_start mp2 + 1)"
    "0 \<le> mp2" "mp2 \<le> 11" "0 \<le> yoe2" "yoe2 \<le> 399" "month_start mp2 \<le> doy2" "doy2 < month_start (mp2 + 1)"
    "0 \<le> doy2" "doy2 < (if leap_year (yoe2 + 1) then 366 else 365)"
    "z = era2 * 146097 + (yday yoe2 + doy2) - 719468"
    by (rule civil_from_days_march)
  have z: "z = era * 146097 + (yday yoe + doy) - 719468"
    using days_from_civil_march [OF M(4,5,6,7), of era d] unfolding z_def M(1,2) using M(3) by simp
  note B = doe_bounds [OF M(6,7,10,11)] and B2 = doe_bounds [OF N(4,5,8,9)]
  have "era = (z + 719468) div 146097" "era2 = (z + 719468) div 146097"
    using z B N(10) B2 by simp_all
  then have era: "era2 = era" by simp
  then have "yday yoe2 + doy2 = yday yoe + doy" using z N(10) by simp
  then have yoe: "yoe2 = yoe" "doy2 = doy"
    using yoe_unique [of yoe2 doy2 yoe doy] N(8) M(10) B(3) B2(3) by simp_all
  then have "mp2 = mp" using mp_of_month_start [OF M(4,5,8,9)] mp_of_month_start [OF N(2,3,6,7)] by simp
  then show ?thesis using N(1) unfolding z_def [symmetric] era yoe by (simp only: M(1,2,3))
qed

subsection \<open>Printing and reading timestamps\<close>

lemma yday_period: "yday (y + era * 400) = yday y + era * 146097"
proof -
  have "y + era * 400 = y + 4 * (100 * era)" "y + era * 400 = y + 100 * (4 * era)"
    "y + era * 400 = y + 400 * era" by simp_all
  then have "(y + era * 400) div 4 = y div 4 + 100 * era" "(y + era * 400) div 100 = y div 100 + 4 * era"
    "(y + era * 400) div 400 = y div 400 + era"
    by (metis add.commute div_mult_self2 zero_neq_numeral)+
  then show ?thesis by (simp add: yday_def)
qed

lemma civil_year_bounds:
  assumes "civil_from_days z = (y, m, d)" "0 \<le> z" "z < 2932897"
  shows "0 \<le> y" "y \<le> 9999"
proof -
  obtain era yoe mp doy where M: "civil_from_days z = (if month_of mp \<le> 2 then yoe + era * 400 + 1 else yoe + era * 400,
        month_of mp, doy - month_start mp + 1)"
    "0 \<le> mp" "mp \<le> 11" "0 \<le> yoe" "yoe \<le> 399" "month_start mp \<le> doy" "doy < month_start (mp + 1)"
    "0 \<le> doy" "doy < (if leap_year (yoe + 1) then 366 else 365)"
    "z = era * 146097 + (yday yoe + doy) - 719468"
    by (rule civil_from_days_march)
  define y' where "y' = yoe + era * 400"
  have y: "y = (if month_of mp \<le> 2 then y' + 1 else y')"
    using assms(1) [unfolded M(1)] unfolding y'_def by blast
  have z: "z = yday y' + doy - 719468" using M(10) by (simp add: y'_def yday_period)
  have "0 \<le> y'"
  proof (rule ccontr)
    assume "\<not> 0 \<le> y'"
    then have "yday (y' + 1) \<le> yday 0" using yday_mono by auto
    moreover have "leap_year (y' + 1) = leap_year (yoe + 1)"
      using leap_year_period [of "yoe + 1" era] by (simp add: y'_def algebra_simps)
    ultimately have "yday y' + doy < yday 0" using M(9) by (simp add: leap_yday)
    then show False using z assms(2) by (simp add: yday_def)
  qed
  then show "0 \<le> y" using y by simp
  show "y \<le> 9999"
  proof (rule ccontr)
    assume "\<not> y \<le> 9999"
    then have "10000 \<le> y' \<or> (y' = 9999 \<and> month_of mp \<le> 2)" using y by (auto split: if_splits)
    then consider "10000 \<le> y'" | "y' = 9999" "month_of mp \<le> 2" by blast
    then show False
    proof cases
      case 1
      then have "yday 10000 \<le> yday y'" by (rule yday_mono)
      then show False using z assms(3) M(8) by (simp add: yday_def)
    next
      case 2
      then have "mp = 10 \<or> mp = 11" using month_of_props(6) [OF M(2,3)] M(3) by auto
      then have "306 \<le> doy" using M(6) by (auto simp: month_start_def)
      then show False using z assms(3) 2 by (simp add: yday_def)
    qed
  qed
qed

lemma iso_layout:
  fixes yy mo dd hh mi ss ms :: string
  assumes "length yy = 4" "length mo = 2" "length dd = 2" "length hh = 2" "length mi = 2" "length ss = 2" "length ms = 3"
  defines "stamp \<equiv> yy @ ''-'' @ mo @ ''-'' @ dd @ ''T'' @ hh @ '':'' @ mi @ '':'' @ ss @ ''.'' @ ms @ ''Z''"
  shows "length stamp = 24" "stamp ! 4 = CHR ''-''" "stamp ! 7 = CHR ''-''" "stamp ! 10 = CHR ''T''"
    "stamp ! 13 = CHR '':''" "stamp ! 16 = CHR '':''" "stamp ! 19 = CHR ''.''"
    "str_slice 0 4 stamp = yy" "str_slice 5 7 stamp = mo" "str_slice 8 10 stamp = dd"
    "str_slice 11 13 stamp = hh" "str_slice 14 16 stamp = mi" "str_slice 17 19 stamp = ss"
    "drop 20 stamp = ms @ ''Z''"
proof -
  obtain y1 y2 y3 y4 where "yy = [y1, y2, y3, y4]" using assms(1) by (auto simp: length_Suc_conv numeral_eq_Suc)
  moreover obtain a1 a2 where "mo = [a1, a2]" using assms(2) by (auto simp: length_Suc_conv numeral_eq_Suc)
  moreover obtain b1 b2 where "dd = [b1, b2]" using assms(3) by (auto simp: length_Suc_conv numeral_eq_Suc)
  moreover obtain c1 c2 where "hh = [c1, c2]" using assms(4) by (auto simp: length_Suc_conv numeral_eq_Suc)
  moreover obtain d1 d2 where "mi = [d1, d2]" using assms(5) by (auto simp: length_Suc_conv numeral_eq_Suc)
  moreover obtain e1 e2 where "ss = [e1, e2]" using assms(6) by (auto simp: length_Suc_conv numeral_eq_Suc)
  moreover obtain f1 f2 f3 where "ms = [f1, f2, f3]" using assms(7) by (auto simp: length_Suc_conv numeral_eq_Suc)
  ultimately show "length stamp = 24" "stamp ! 4 = CHR ''-''" "stamp ! 7 = CHR ''-''" "stamp ! 10 = CHR ''T''"
    "stamp ! 13 = CHR '':''" "stamp ! 16 = CHR '':''" "stamp ! 19 = CHR ''.''"
    "str_slice 0 4 stamp = yy" "str_slice 5 7 stamp = mo" "str_slice 8 10 stamp = dd"
    "str_slice 11 13 stamp = hh" "str_slice 14 16 stamp = mi" "str_slice 17 19 stamp = ss"
    "drop 20 stamp = ms @ ''Z''"
    unfolding stamp_def str_slice_def by simp_all
qed

lemma parse_padded:
  "n < 100 \<Longrightarrow> parse_u32 (pad_zero 2 (show_nat n)) = Some n"
  by (simp add: parse_u32_def parse_unsigned_pad_zero)

lemma iso_millis_layout:
  assumes "length stamp = 24" "stamp ! 19 = CHR ''.''" "drop 20 stamp = pad_zero 3 (show_nat n) @ ''Z''" "n < 1000"
  shows "iso_millis stamp = Some n"
proof -
  have l: "length (pad_zero 3 (show_nat n)) = 3" using length_pad_zero [of 3 n] assms(4) by simp
  have "takeWhile is_ascii_digit (pad_zero 3 (show_nat n) @ ''Z'') = pad_zero 3 (show_nat n)"
    using pad_zero_digits [of 3 n] by (subst takeWhile_append2) (auto simp: list_all_iff is_ascii_digit_def)
  moreover have "pad_zero 3 (show_nat n) \<noteq> []" using l by auto
  ultimately show ?thesis using assms l
    by (simp add: iso_millis_def Let_def parse_digits_pad_zero)
qed

lemma iso_to_unix_ms_eval:
  assumes "length stamp = 24" "stamp ! 4 = CHR ''-''" "stamp ! 7 = CHR ''-''" "stamp ! 10 = CHR ''T''"
    "stamp ! 13 = CHR '':''" "stamp ! 16 = CHR '':''"
    and "parse_i64 (str_slice 0 4 stamp) = Some y" "parse_u32 (str_slice 5 7 stamp) = Some m"
    "parse_u32 (str_slice 8 10 stamp) = Some d" "parse_u32 (str_slice 11 13 stamp) = Some hh"
    "parse_u32 (str_slice 14 16 stamp) = Some mi" "parse_u32 (str_slice 17 19 stamp) = Some ss"
    "iso_millis stamp = Some ml"
    and "1 \<le> m" "m \<le> 12" "1 \<le> d" "d \<le> 31" "d \<le> days_in_month y m" "hh \<le> 23" "mi \<le> 59" "ss \<le> 59"
    and "days_from_civil y (int m) (int d) * 86400 + int hh * 3600 + int mi * 60 + int ss = int secs"
  shows "iso_to_unix_ms stamp = Some (secs * 1000 + ml)"
  using assms by (simp add: iso_to_unix_ms_def Let_def nat_add_distrib nat_mult_distrib)

lemma iso_print_parse:
  assumes "ms < 253402300800000"
  shows "iso_to_unix_ms (iso_from_unix_ms ms) = Some ms"
proof -
  define secs where "secs = ms div 1000"
  define days where "days = int secs div 86400"
  define sod where "sod = nat (int secs mod 86400)"
  obtain y m d where ymd: "civil_from_days days = (y, m, d)" by (metis prod_cases3)
  note V = civil_from_days_valid [OF ymd]
  have "secs < 253402300800" using assms unfolding secs_def by simp
  then have days: "0 \<le> days" "days < 2932897" unfolding days_def by simp_all
  note Y = civil_year_bounds [OF ymd days]
  have sod: "sod < 86400" "int sod = int secs mod 86400" unfolding sod_def by auto
  have d31: "d \<le> 31" using V(4) by (auto simp: days_in_month_def split: if_splits)
  let ?yy = "pad_zero 4 (show_nat (nat y))" and ?mo = "pad_zero 2 (show_nat (nat m))"
    and ?dd = "pad_zero 2 (show_nat (nat d))" and ?hh = "pad_zero 2 (show_nat (sod div 3600))"
    and ?mi = "pad_zero 2 (show_nat ((sod mod 3600) div 60))" and ?ss = "pad_zero 2 (show_nat (sod mod 60))"
    and ?ms = "pad_zero 3 (show_nat (ms mod 1000))"
  let ?s = "?yy @ ''-'' @ ?mo @ ''-'' @ ?dd @ ''T'' @ ?hh @ '':'' @ ?mi @ '':'' @ ?ss @ ''.'' @ ?ms @ ''Z''"
  have s: "iso_from_unix_ms ms = ?s"
    using Y(1) ymd by (simp add: iso_from_unix_ms_def Let_def show_int04_def
        secs_def [symmetric] days_def [symmetric] sod_def [symmetric])
  have hms: "sod div 3600 < 24" "(sod mod 3600) div 60 < 60" "sod mod 60 < 60" "ms mod 1000 < 1000"
    using sod(1) by (simp_all add: less_mult_imp_div_less)
  have len: "length ?yy = 4" "length ?mo = 2" "length ?dd = 2" "length ?hh = 2" "length ?mi = 2"
    "length ?ss = 2" "length ?ms = 3"
    using Y V d31 hms by (simp_all add: length_pad_zero)
  note L = iso_layout [OF len]
  have P: "parse_i64 ?yy = Some y" "parse_u32 ?mo = Some (nat m)" "parse_u32 ?dd = Some (nat d)"
    "parse_u32 ?hh = Some (sod div 3600)" "parse_u32 ?mi = Some ((sod mod 3600) div 60)"
    "parse_u32 ?ss = Some (sod mod 60)"
    using Y V d31 hms by (simp_all add: parse_padded parse_i64_pad_zero)
  have ml: "iso_millis ?s = Some (ms mod 1000)" using iso_millis_layout [OF L(1,7,14) hms(4)] .
  have cal: "days_from_civil y (int (nat m)) (int (nat d)) = days" using V by simp
  have "(sod mod 3600) mod 60 = sod mod 60" by (simp add: mod_mod_cancel)
  then have "sod = (sod div 3600) * 3600 + ((sod mod 3600) div 60) * 60 + sod mod 60"
    using div_mult_mod_eq [of sod 3600] div_mult_mod_eq [of "sod mod 3600" 60] by linarith
  then have "int sod = int (sod div 3600) * 3600 + int ((sod mod 3600) div 60) * 60 + int (sod mod 60)"
    by linarith
  then have secs: "days * 86400 + int (sod div 3600) * 3600 + int ((sod mod 3600) div 60) * 60 + int (sod mod 60) = int secs"
    using sod(2) div_mult_mod_eq [of "int secs" 86400] unfolding days_def by linarith
  have "iso_to_unix_ms ?s = Some (secs * 1000 + ms mod 1000)"
  proof (rule iso_to_unix_ms_eval [OF L(1-6), unfolded L(8-13), OF P ml])
    show "1 \<le> nat m" "nat m \<le> 12" "1 \<le> nat d" "nat d \<le> 31" "nat d \<le> days_in_month y (nat m)"
      using V(1-4) d31 by linarith+
    show "sod div 3600 \<le> 23" "(sod mod 3600) div 60 \<le> 59" "sod mod 60 \<le> 59"
      using hms by linarith+
    show "days_from_civil y (int (nat m)) (int (nat d)) * 86400 + int (sod div 3600) * 3600
        + int ((sod mod 3600) div 60) * 60 + int (sod mod 60) = int secs"
      unfolding cal by (rule secs)
  qed
  then show ?thesis unfolding s secs_def by simp
qed

subsection \<open>Properties\<close>

definition valid_date :: "int \<Rightarrow> int \<Rightarrow> int \<Rightarrow> bool" where
  "valid_date y m d \<longleftrightarrow> 1 \<le> m \<and> m \<le> 12 \<and> 1 \<le> d \<and> d \<le> int (days_in_month y (nat m))"

text \<open>
  Day numbers and Gregorian calendar dates are in bijection: every day number names a real
  calendar date that counts back to it, and every real date is recovered from its day number.
\<close>

theorem calendar_bijection:
  "(\<forall>z. case civil_from_days z of (y, m, d) \<Rightarrow> valid_date y m d \<and> days_from_civil y m d = z)
   \<and> (\<forall>y m d. valid_date y m d \<longrightarrow> civil_from_days (days_from_civil y m d) = (y, m, d))"
  using civil_from_days_valid civil_from_days_from_civil
  by (fastforce simp: valid_date_def split: prod.splits)

theorem calendar_bijection_witness:
  "valid_date 2024 2 29 \<and> civil_from_days (days_from_civil 2024 2 29) = (2024, 2, 29)"
proof -
  have "valid_date 2024 2 29" by (simp add: valid_date_def days_in_month_def leap_year_def)
  with calendar_bijection show ?thesis by blast
qed

text \<open>
  A timestamp the program prints up to the end of the year 9999 reads back as the very
  millisecond it was printed from.
\<close>

theorem iso_roundtrip:
  assumes "ms < 253402300800000"
  shows "iso_to_unix_ms (iso_from_unix_ms ms) = Some ms"
  using assms by (rule iso_print_parse)

theorem iso_roundtrip_witness:
  "iso_to_unix_ms (iso_from_unix_ms 1709251199999) = Some 1709251199999"
  by (rule iso_roundtrip) simp

text \<open>
  The reader accepts more than the documented shape: signs inside the fields, a blank for the
  \<open>T\<close> and any tail instead of the \<open>Z\<close>.
\<close>

theorem iso_reads_beyond_documented_shape:
  "iso_to_unix_ms ''2026-+1-+1 +0:+0:+0 not a timestamp'' = Some 1767225600000"
  by (simp add: iso_to_unix_ms_def str_slice_def parse_i64_def parse_u32_def parse_unsigned_def
      parse_digits_def is_ascii_digit_def digit_value_def iso_millis_def days_in_month_def
      days_from_civil_def Let_def)

end
