(* ===== verification/Filesystem.thy ===== *)
theory Filesystem
  imports Rust_Strings
begin

text \<open>
  The parts of \<open>std::path\<close> and \<open>std::fs\<close> the Big Brother components use. A path is the list of
  its components, the root directory being the component \<open>''/''\<close>, as \<open>Path::components\<close> yields
  them; \<open>Path\<close> equality is equality of that list. A disk maps file paths to contents of an
  unspecified type \<open>'b\<close> (the bytes a serializer produces); directories exist where they are
  needed, since the code creates them before it writes. Every operation asks the environment
  whether it fails: \<open>io_fault\<close> makes any call fail, a failing write may leave torn contents behind,
  and \<open>clock_ms\<close> answers the successive clock readings of one operation.
\<close>

type_synonym path = "string list"

type_synonym 'b disk = "(path, 'b) btree"

datatype io_kind = NotFound | WouldBlock | AlreadyExists | OtherKind

datatype io_error = IoError io_kind string

datatype io_op =
    ReadFile path
  | WriteFile path
  | RenameFile path
  | CreateDirAll path
  | ReadDir path
  | StatFile path

record 'b env =
  clock_ms :: "nat \<Rightarrow> nat"
  io_fault :: "io_op \<Rightarrow> string option"
  torn_write :: "path \<Rightarrow> 'b option"
  lock_attempt :: "nat \<Rightarrow> (unit, io_error) result"

subsection \<open>Paths\<close>

fun split_char :: "char \<Rightarrow> string \<Rightarrow> string list" where
  "split_char c [] = [[]]"
| "split_char c (x # xs) =
     (if x = c then [] # split_char c xs
      else case split_char c xs of p # ps \<Rightarrow> (x # p) # ps | [] \<Rightarrow> [[x]])"

definition path_of_string :: "string \<Rightarrow> path" where
  "path_of_string s =
     (let pieces = split_char (CHR ''/'') s;
          normal = filter (\<lambda>c. c \<noteq> [] \<and> c \<noteq> ''.'') pieces
      in (if starts_with ''/'' s then [''/'']
          else if hd pieces = ''.'' then [''.'']
          else []) @ normal)"

definition path_is_absolute :: "path \<Rightarrow> bool" where
  "path_is_absolute p \<longleftrightarrow> (case p of [] \<Rightarrow> False | c # _ \<Rightarrow> c = ''/'')"

definition path_join :: "path \<Rightarrow> string \<Rightarrow> path" where
  "path_join p s =
     (let q = path_of_string s
      in if path_is_absolute q then q else p @ filter (\<lambda>c. c \<noteq> ''.'') q)"

definition path_parent :: "path \<Rightarrow> path option" where
  "path_parent p = (if p = [] \<or> p = [''/''] then None else Some (butlast p))"

definition path_file_name :: "path \<Rightarrow> string option" where
  "path_file_name p =
     (if p = [] then None
      else if last p \<in> {''/'', ''.'', ''..''} then None
      else Some (last p))"

definition path_string :: "path \<Rightarrow> string" where
  "path_string p =
     (if path_is_absolute p then ''/'' @ join_str ''/'' (tl p) else join_str ''/'' p)"

text \<open>\<open>Path::extension\<close>: what follows the last dot of the file name, unless it is the first byte.\<close>

definition path_extension :: "path \<Rightarrow> string option" where
  "path_extension p = (case path_file_name p of
     None \<Rightarrow> None
   | Some name \<Rightarrow>
       (case rsplit_once (CHR ''.'') name of
          Some (stem, extension) \<Rightarrow> if stem = [] then None else Some extension
        | None \<Rightarrow> None))"

text \<open>\<open>Path::ancestors\<close>: the path, its parent, and so on up to the root.\<close>

function path_ancestors :: "path \<Rightarrow> path list" where
  "path_ancestors p = p # (case path_parent p of None \<Rightarrow> [] | Some q \<Rightarrow> path_ancestors q)"
  by pat_completeness auto
termination
  by (relation "measure length") (auto simp: path_parent_def split: if_splits)

declare path_ancestors.simps [simp del]

subsection \<open>Files\<close>

definition fs_read :: "('b, 'z) env_scheme \<Rightarrow> 'b disk \<Rightarrow> path \<Rightarrow> ('b, io_error) result" where
  "fs_read env disk p = (case io_fault env (ReadFile p) of
     Some msg \<Rightarrow> Err (IoError OtherKind msg)
   | None \<Rightarrow> (case bt_get disk p of
        None \<Rightarrow> Err (IoError NotFound ''No such file or directory'')
      | Some b \<Rightarrow> Ok b))"

definition fs_exists :: "('b, 'z) env_scheme \<Rightarrow> 'b disk \<Rightarrow> path \<Rightarrow> bool" where
  "fs_exists env disk p \<longleftrightarrow> io_fault env (StatFile p) = None \<and> bt_get disk p \<noteq> None"

definition fs_write :: "('b, 'z) env_scheme \<Rightarrow> path \<Rightarrow> 'b \<Rightarrow> ('b disk, unit, io_error) action" where
  "fs_write env p b disk = (case io_fault env (WriteFile p) of
     Some msg \<Rightarrow>
       (Err (IoError OtherKind msg),
        case torn_write env p of None \<Rightarrow> disk | Some torn \<Rightarrow> bt_insert p torn disk)
   | None \<Rightarrow> (Ok (), bt_insert p b disk))"

definition disk_remove :: "path \<Rightarrow> 'b disk \<Rightarrow> 'b disk" where
  "disk_remove p disk = filter (\<lambda>(q, _). q \<noteq> p) disk"

definition fs_rename :: "('b, 'z) env_scheme \<Rightarrow> path \<Rightarrow> path \<Rightarrow> ('b disk, unit, io_error) action" where
  "fs_rename env src dst disk = (case io_fault env (RenameFile dst) of
     Some msg \<Rightarrow> (Err (IoError OtherKind msg), disk)
   | None \<Rightarrow> (case bt_get disk src of
        None \<Rightarrow> (Err (IoError NotFound ''No such file or directory''), disk)
      | Some b \<Rightarrow> (Ok (), bt_insert dst b (disk_remove src disk))))"

definition fs_create_dir_all :: "('b, 'z) env_scheme \<Rightarrow> path \<Rightarrow> (unit, io_error) result" where
  "fs_create_dir_all env p = (case io_fault env (CreateDirAll p) of
     Some msg \<Rightarrow> Err (IoError OtherKind msg)
   | None \<Rightarrow> Ok ())"

text \<open>
  \<open>read_dir\<close> lists the files directly below a directory. A directory that was never created has
  no files; the callers treat a missing and an empty directory alike.
\<close>

definition fs_read_dir :: "('b, 'z) env_scheme \<Rightarrow> 'b disk \<Rightarrow> path \<Rightarrow> (path list, io_error) result" where
  "fs_read_dir env disk d = (case io_fault env (ReadDir d) of
     Some msg \<Rightarrow> Err (IoError OtherKind msg)
   | None \<Rightarrow>
       (let entries = filter (\<lambda>p. path_parent p = Some d) (bt_keys disk)
        in if entries = [] then Err (IoError NotFound ''No such file or directory'')
           else Ok entries))"

subsection \<open>Lemmas: paths\<close>

lemma split_char_no_sep: "c \<notin> set s \<Longrightarrow> split_char c s = [s]"
  by (induction s) auto

lemma path_of_string_component:
  assumes "CHR ''/'' \<notin> set s" "s \<noteq> []" "s \<noteq> ''.''"
  shows "path_of_string s = [s]"
proof -
  have "\<not> starts_with ''/'' s" using assms(1) by (auto simp: starts_with_iff)
  with assms show ?thesis by (simp add: path_of_string_def split_char_no_sep)
qed

lemma path_join_component [simp]:
  assumes "CHR ''/'' \<notin> set s" "s \<noteq> []" "s \<noteq> ''.''"
  shows "path_join p s = p @ [s]"
proof -
  have "s \<noteq> ''/''" using assms(1) by auto
  then show ?thesis
    using path_of_string_component [OF assms] assms(3)
    by (simp add: path_join_def path_is_absolute_def)
qed

lemma path_parent_snoc [simp]: "c \<noteq> ''/'' \<Longrightarrow> path_parent (p @ [c]) = Some p"
  by (auto simp: path_parent_def)

lemma path_file_name_snoc:
  "c \<notin> {''/'', ''.'', ''..''} \<Longrightarrow> path_file_name (p @ [c]) = Some c"
  by (simp add: path_file_name_def)

text \<open>Absolute paths as \<open>canonicalize\<close> returns them.\<close>

definition plain_component :: "string \<Rightarrow> bool" where
  "plain_component c \<longleftrightarrow> c \<noteq> [] \<and> c \<noteq> ''.'' \<and> CHR ''/'' \<notin> set c"

definition absolute_path :: "path \<Rightarrow> bool" where
  "absolute_path p \<longleftrightarrow> (\<exists>cs. p = ''/'' # cs \<and> list_all plain_component cs)"

lemma split_char_append: "c \<notin> set a \<Longrightarrow> split_char c (a @ c # b) = a # split_char c b"
  by (induction a) auto

lemma split_char_join:
  "cs \<noteq> [] \<Longrightarrow> list_all plain_component cs \<Longrightarrow> split_char (CHR ''/'') (join_str ''/'' cs) = cs"
  by (induction "''/''" cs rule: join_str.induct)
    (auto simp: plain_component_def split_char_no_sep split_char_append)

lemma path_string_roundtrip:
  assumes "absolute_path p"
  shows "path_of_string (path_string p) = p"
proof -
  obtain cs where cs: "p = ''/'' # cs" "list_all plain_component cs" using assms by (auto simp: absolute_path_def)
  then have str: "path_string p = CHR ''/'' # join_str ''/'' cs" by (simp add: path_string_def path_is_absolute_def)
  have "filter (\<lambda>c. c \<noteq> [] \<and> c \<noteq> ''.'') (split_char (CHR ''/'') (join_str ''/'' cs)) = cs"
  proof (cases "cs = []")
    case False
    then have "split_char (CHR ''/'') (join_str ''/'' cs) = cs" using split_char_join cs(2) by blast
    moreover have "filter (\<lambda>c. c \<noteq> [] \<and> c \<noteq> ''.'') cs = cs"
      using cs(2) by (auto simp: list_all_iff plain_component_def intro!: filter_True)
    ultimately show ?thesis by simp
  qed simp
  then show ?thesis unfolding path_of_string_def str by (simp add: cs(1) starts_with_iff Let_def)
qed

subsection \<open>Lemmas: files\<close>

lemma bt_get_disk_remove: "bt_get (disk_remove p disk) q = (if q = p then None else bt_get disk q)"
  by (induction disk) (auto simp: disk_remove_def)

lemma bt_wf_disk_remove: "bt_wf disk \<Longrightarrow> bt_wf (disk_remove p disk)"
  unfolding bt_wf_def disk_remove_def
  by (induction disk) (auto simp: sorted_wrt_append)

lemma fs_write_get_other:
  "q \<noteq> p \<Longrightarrow> bt_get (snd (fs_write env p b disk)) q = bt_get disk q"
  by (simp add: fs_write_def bt_simps split: option.splits)

lemma fs_write_wf: "bt_wf disk \<Longrightarrow> bt_wf (snd (fs_write env p b disk))"
  by (simp add: fs_write_def bt_simps split: option.splits)

lemma fs_rename_wf: "bt_wf disk \<Longrightarrow> bt_wf (snd (fs_rename env src dst disk))"
  by (simp add: fs_rename_def bt_simps bt_wf_disk_remove split: option.splits)

lemma fs_read_Ok_iff: "fs_read env disk p = Ok b \<longleftrightarrow> io_fault env (ReadFile p) = None \<and> bt_get disk p = Some b"
  by (auto simp: fs_read_def split: option.splits)

lemma fs_read_NotFound_iff:
  "fs_read env disk p = Err (IoError NotFound m) \<longleftrightarrow>
     io_fault env (ReadFile p) = None \<and> bt_get disk p = None \<and> m = ''No such file or directory''"
  by (auto simp: fs_read_def split: option.splits)

text \<open>Disks that agree outside a set of paths.\<close>

definition agree_off :: "path set \<Rightarrow> 'b disk \<Rightarrow> 'b disk \<Rightarrow> bool" where
  "agree_off P disk disk' \<longleftrightarrow> (\<forall>q. q \<notin> P \<longrightarrow> bt_get disk' q = bt_get disk q)"

lemma agree_offD: "agree_off P disk disk' \<Longrightarrow> q \<notin> P \<Longrightarrow> bt_get disk' q = bt_get disk q"
  by (simp add: agree_off_def)

lemma agree_off_refl [simp]: "agree_off P disk disk"
  by (simp add: agree_off_def)

lemma agree_off_trans:
  "agree_off P a b \<Longrightarrow> agree_off Q b c \<Longrightarrow> P \<union> Q \<subseteq> R \<Longrightarrow> agree_off R a c"
  unfolding agree_off_def by (metis UnCI subsetD)

end
