(* ===== verification/Profile.thy ===== *)
theory Profile
  imports Filesystem
begin

text \<open>
  The per-repository review profile of \<open>crates/pa-daemon/src/big_brother/profile.rs\<close>: its record,
  the accessors, \<open>validate\<close>, the repository-keyed directory and the loader. Deserialization is the
  parameter \<open>decode\<close>. The properties: \<open>validate\<close> accepts exactly the profiles that meet the
  schema's invariants, and the directory slug is a canonical name over a safe alphabet which,
  however, does not separate all work trees.
\<close>

definition PROFILE_VERSION :: u32 where
  "PROFILE_VERSION = 1"

definition DEFAULT_ATTEMPT_TIMEOUT_SECONDS :: u32 where
  "DEFAULT_ATTEMPT_TIMEOUT_SECONDS = 1800"

definition DEFAULT_MAX_ATTEMPTS :: u32 where
  "DEFAULT_MAX_ATTEMPTS = 3"

record review_layer =
  layer_name :: string
  layer_model_selector :: string

record review_profile =
  profile_version :: u32
  session_name :: string
  main_model :: "string option"
  layers :: "review_layer list"
  attempt_timeout_seconds :: "u32 option"
  max_attempts_opt :: "u32 option"

datatype profile_error =
    UnsupportedProfileVersion u32
  | InvalidProfile path string
  | UnreadableProfile path io_error
  | MalformedProfile path string

definition layer_model :: "review_profile \<Rightarrow> string \<Rightarrow> string option" where
  "layer_model profile layer =
     map_option layer_model_selector (find (\<lambda>candidate. layer_name candidate = layer) (layers profile))"

text \<open>\<open>Duration::from_secs\<close> of the budget, in milliseconds (\<open>as_millis\<close> of the callers).\<close>

definition attempt_timeout_ms :: "review_profile \<Rightarrow> nat" where
  "attempt_timeout_ms profile =
     1000 * unat (case attempt_timeout_seconds profile of
       None \<Rightarrow> DEFAULT_ATTEMPT_TIMEOUT_SECONDS | Some s \<Rightarrow> s)"

definition max_attempts :: "review_profile \<Rightarrow> u32" where
  "max_attempts profile = (case max_attempts_opt profile of
     None \<Rightarrow> DEFAULT_MAX_ATTEMPTS | Some n \<Rightarrow> n)"

fun validate_layers :: "path \<Rightarrow> string set \<Rightarrow> review_layer list \<Rightarrow> (unit, profile_error) result" where
  "validate_layers p seen [] = Ok ()"
| "validate_layers p seen (layer # rest) =
     (if trim (layer_name layer) = [] then
        Err (InvalidProfile p ''layer names must not be empty'')
      else if layer_name layer \<in> seen then
        Err (InvalidProfile p (''duplicate review layer \"'' @ layer_name layer @ ''\"''))
      else if trim (layer_model_selector layer) = [] then
        Err (InvalidProfile p (''review layer \"'' @ layer_name layer @ ''\" must name a model''))
      else validate_layers p (insert (layer_name layer) seen) rest)"

definition validate :: "review_profile \<Rightarrow> path \<Rightarrow> (unit, profile_error) result" where
  "validate profile p =
     (if profile_version profile \<noteq> PROFILE_VERSION then
        Err (UnsupportedProfileVersion (profile_version profile))
      else if trim (session_name profile) = [] then
        Err (InvalidProfile p ''sessionName must not be empty'')
      else if layers profile = [] then
        Err (InvalidProfile p ''layers must contain at least one review layer'')
      else if attempt_timeout_seconds profile = Some 0 then
        Err (InvalidProfile p ''attemptTimeoutSeconds must be greater than zero'')
      else if max_attempts_opt profile = Some 0 then
        Err (InvalidProfile p ''maxAttempts must be at least 1'')
      else validate_layers p {} (layers profile))"

subsection \<open>The repository-keyed directory\<close>

text \<open>
  The loop \<open>repo_slug\<close> and \<open>sanitize_branch\<close> share: characters outside the ASCII letters and
  digits collapse to one dash per run; \<open>keep\<close> maps the kept characters.
\<close>

fun collapse_runs :: "(char \<Rightarrow> char) \<Rightarrow> bool \<Rightarrow> string list \<Rightarrow> string" where
  "collapse_runs keep in_separator_run [] = []"
| "collapse_runs keep in_separator_run (character # rest) =
     (case character of
        [c] \<Rightarrow>
          if is_ascii_alphanumeric c then keep c # collapse_runs keep False rest
          else if \<not> in_separator_run then CHR ''-'' # collapse_runs keep True rest
          else collapse_runs keep in_separator_run rest
      | _ \<Rightarrow>
          if \<not> in_separator_run then CHR ''-'' # collapse_runs keep True rest
          else collapse_runs keep in_separator_run rest)"

definition repo_slug :: "path \<Rightarrow> string" where
  "repo_slug git_root =
     trim_matches (CHR ''-'')
       (collapse_runs to_ascii_lowercase_char False (utf8_chars (path_string git_root)))"

definition repo_dir :: "path \<Rightarrow> path \<Rightarrow> path" where
  "repo_dir agent_dir git_root =
     path_join (path_join (path_join agent_dir ''big-brother'') ''repos'') (repo_slug git_root)"

definition profile_path :: "path \<Rightarrow> path \<Rightarrow> path" where
  "profile_path agent_dir git_root = path_join (repo_dir agent_dir git_root) ''profile.json''"

subsection \<open>Loading\<close>

definition load_profile_at ::
  "('b, 'z) env_scheme \<Rightarrow> ('b \<Rightarrow> (review_profile, string) result) \<Rightarrow> 'b disk \<Rightarrow> path
   \<Rightarrow> (review_profile option, profile_error) result" where
  "load_profile_at env decode disk p = (case fs_read env disk p of
     Err (IoError kind msg) \<Rightarrow>
       if kind = NotFound then Ok None else Err (UnreadableProfile p (IoError kind msg))
   | Ok bytes \<Rightarrow> (case decode bytes of
        Err source \<Rightarrow> Err (MalformedProfile p source)
      | Ok profile \<Rightarrow> (case validate profile p of
           Err e \<Rightarrow> Err e
         | Ok _ \<Rightarrow> Ok (Some profile))))"

text \<open>
  \<open>find_git_repo_root\<close> walks from a directory to its ancestors until one holds \<open>.git\<close>; \<open>has_git\<close>
  says which directories do. The recursion follows \<open>Path::parent\<close>, so it stops at the root.
\<close>

function find_git_repo_root :: "(path \<Rightarrow> bool) \<Rightarrow> path \<Rightarrow> path option" where
  "find_git_repo_root has_git dir =
     (if has_git dir then Some dir
      else case path_parent dir of
        None \<Rightarrow> None
      | Some parent \<Rightarrow>
          if parent = dir then None else find_git_repo_root has_git parent)"
  by pat_completeness auto
termination
  by (relation "measure (\<lambda>(_, dir). length dir)") (auto simp: path_parent_def split: if_splits)

declare find_git_repo_root.simps [simp del]

definition resolve_profile ::
  "('b, 'z) env_scheme \<Rightarrow> ('b \<Rightarrow> (review_profile, string) result) \<Rightarrow> (path \<Rightarrow> bool) \<Rightarrow> 'b disk \<Rightarrow> path \<Rightarrow> path
   \<Rightarrow> (review_profile option, profile_error) result" where
  "resolve_profile env decode has_git disk agent_dir cwd =
     (case find_git_repo_root has_git cwd of
        None \<Rightarrow> Ok None
      | Some git_root \<Rightarrow> load_profile_at env decode disk (profile_path agent_dir git_root))"

subsection \<open>Lemmas: validation\<close>

definition layer_wf :: "review_layer \<Rightarrow> bool" where
  "layer_wf layer \<longleftrightarrow> trim (layer_name layer) \<noteq> [] \<and> trim (layer_model_selector layer) \<noteq> []"

definition profile_wf :: "review_profile \<Rightarrow> bool" where
  "profile_wf profile \<longleftrightarrow>
     profile_version profile = PROFILE_VERSION
     \<and> trim (session_name profile) \<noteq> []
     \<and> layers profile \<noteq> []
     \<and> attempt_timeout_seconds profile \<noteq> Some 0
     \<and> max_attempts_opt profile \<noteq> Some 0
     \<and> list_all layer_wf (layers profile)
     \<and> distinct (map layer_name (layers profile))"

lemma validate_layers_Ok_iff:
  "validate_layers p seen ls = Ok () \<longleftrightarrow>
     list_all layer_wf ls \<and> distinct (map layer_name ls) \<and> layer_name ` set ls \<inter> seen = {}"
  by (induction p seen ls rule: validate_layers.induct) (auto simp: layer_wf_def)

lemma validate_Ok_iff: "validate profile p = Ok () \<longleftrightarrow> profile_wf profile"
  by (auto simp: validate_def profile_wf_def validate_layers_Ok_iff)

lemma profile_wf_budget:
  assumes "profile_wf profile"
  shows "1000 \<le> attempt_timeout_ms profile" "1 \<le> max_attempts profile"
proof -
  have nz: "Suc 0 \<le> unat w" if "w \<noteq> 0" for w :: u32
    using that by (simp add: Suc_le_eq unat_gt_0)
  show "1000 \<le> attempt_timeout_ms profile"
    using assms nz
    by (cases "attempt_timeout_seconds profile")
      (auto simp: profile_wf_def attempt_timeout_ms_def DEFAULT_ATTEMPT_TIMEOUT_SECONDS_def)
  show "1 \<le> max_attempts profile"
    using assms
    by (cases "max_attempts_opt profile")
      (auto simp: profile_wf_def max_attempts_def DEFAULT_MAX_ATTEMPTS_def word_le_nat_alt nz)
qed

lemma layer_model_unique:
  assumes "distinct (map layer_name (layers profile))" "l \<in> set (layers profile)"
  shows "layer_model profile (layer_name l) = Some (layer_model_selector l)"
proof -
  have "find (\<lambda>c. layer_name c = layer_name l) ls = Some l"
    if "distinct (map layer_name ls)" "l \<in> set ls" for ls
    using that by (induction ls) (auto simp: image_iff)
  then show ?thesis using assms by (simp add: layer_model_def)
qed

lemma layer_model_Some:
  "layer_model profile n = Some s \<Longrightarrow> \<exists>l \<in> set (layers profile). layer_name l = n \<and> layer_model_selector l = s"
  by (auto simp: layer_model_def find_Some_iff)

subsection \<open>Lemmas: slugs\<close>

text \<open>A slug: alphanumeric runs accepted by \<open>ok\<close>, separated by single dashes.\<close>

fun dashed :: "(char \<Rightarrow> bool) \<Rightarrow> string \<Rightarrow> bool" where
  "dashed ok [] = True"
| "dashed ok [c] = (ok c \<or> c = CHR ''-'')"
| "dashed ok (a # b # s) =
     ((ok a \<or> a = CHR ''-'') \<and> \<not> (a = CHR ''-'' \<and> b = CHR ''-'') \<and> dashed ok (b # s))"

definition slug_wf :: "(char \<Rightarrow> bool) \<Rightarrow> string \<Rightarrow> bool" where
  "slug_wf ok s \<longleftrightarrow> dashed ok s \<and> (s \<noteq> [] \<longrightarrow> hd s \<noteq> CHR ''-'' \<and> last s \<noteq> CHR ''-'')"

lemma not_alnum_dash [simp]: "\<not> is_ascii_alphanumeric CHR ''-''"
  by (simp add: is_ascii_alphanumeric_def is_ascii_digit_def is_ascii_uppercase_def
      is_ascii_lowercase_def)

lemma dashed_Cons:
  "dashed ok (a # s) \<longleftrightarrow> (ok a \<or> a = CHR ''-'') \<and> \<not> (a = CHR ''-'' \<and> s \<noteq> [] \<and> hd s = CHR ''-'') \<and> dashed ok s"
  by (cases s) auto

lemma collapse_runs_hd:
  assumes "\<And>c. is_ascii_alphanumeric c \<Longrightarrow> keep c \<noteq> CHR ''-''"
  shows "collapse_runs keep True cs \<noteq> [] \<Longrightarrow> hd (collapse_runs keep True cs) \<noteq> CHR ''-''"
  using assms by (induction keep True cs rule: collapse_runs.induct) (auto split: list.splits if_splits)

lemma collapse_runs_dashed:
  assumes "\<And>c. is_ascii_alphanumeric c \<Longrightarrow> ok (keep c) \<and> keep c \<noteq> CHR ''-''"
  shows "dashed ok (collapse_runs keep sep cs)"
  using assms
proof (induction keep sep cs rule: collapse_runs.induct)
  case (2 keep sep ch rest)
  have hd: "collapse_runs keep True rest \<noteq> [] \<Longrightarrow> hd (collapse_runs keep True rest) \<noteq> CHR ''-''"
    using "2.prems" by (intro collapse_runs_hd) auto
  show ?case using 2 hd by (auto simp: dashed_Cons split: list.splits)
qed simp

lemma dashed_dropWhile: "dashed ok s \<Longrightarrow> dashed ok (dropWhile ((=) CHR ''-'') s)"
  by (induction s) (auto simp: dashed_Cons)

lemma dashed_snoc:
  "dashed ok (s @ [a]) \<longleftrightarrow> dashed ok s \<and> (ok a \<or> a = CHR ''-'')
     \<and> \<not> (s \<noteq> [] \<and> last s = CHR ''-'' \<and> a = CHR ''-'')"
  by (induction s) (auto simp: dashed_Cons hd_append)

lemma dashed_rev: "dashed ok (rev s) = dashed ok s"
  by (induction s) (auto simp: dashed_Cons dashed_snoc last_rev)

lemma hd_dropWhile_neq: "dropWhile ((=) c) s \<noteq> [] \<Longrightarrow> hd (dropWhile ((=) c) s) \<noteq> c"
  using hd_dropWhile [of "(=) c" s] by metis

lemma last_dropWhile: "dropWhile P s \<noteq> [] \<Longrightarrow> last (dropWhile P s) = last s"
  by (induction s) auto

lemma trim_matches_slug_wf:
  assumes "dashed ok s"
  shows "slug_wf ok (trim_matches (CHR ''-'') s)"
proof -
  let ?d = "dropWhile ((=) CHR ''-'')"
  have "dashed ok (?d (rev (?d s)))"
    using assms by (intro dashed_dropWhile) (simp add: dashed_rev dashed_dropWhile)
  then have "dashed ok (rev (?d (rev (?d s))))" by (simp add: dashed_rev)
  moreover have "hd (rev (?d (rev (?d s)))) \<noteq> CHR ''-''" if ne: "?d (rev (?d s)) \<noteq> []"
  proof -
    have "last (?d (rev (?d s))) = last (rev (?d s))" using ne by (rule last_dropWhile)
    also have "\<dots> = hd (?d s)" using ne by (metis dropWhile.simps(1) last_rev rev.simps(1))
    finally show ?thesis
      using hd_dropWhile_neq [of "CHR ''-''" s] ne by (metis dropWhile.simps(1) hd_rev rev.simps(1))
  qed
  moreover have "last (rev (?d (rev (?d s)))) \<noteq> CHR ''-''" if ne: "?d (rev (?d s)) \<noteq> []"
    using hd_dropWhile_neq [OF ne] ne by (simp add: last_rev)
  ultimately show ?thesis by (simp add: slug_wf_def trim_matches_def)
qed

definition slug_char :: "char \<Rightarrow> bool" where
  "slug_char c \<longleftrightarrow> is_ascii_digit c \<or> is_ascii_lowercase c"

lemma lowercase_slug_char:
  assumes "is_ascii_alphanumeric c"
  shows "slug_char (to_ascii_lowercase_char c) \<and> to_ascii_lowercase_char c \<noteq> CHR ''-''"
proof -
  have "slug_char (to_ascii_lowercase_char c)"
    using assms by (auto simp: slug_char_def to_ascii_lowercase_char_def is_ascii_alphanumeric_def
        is_ascii_digit_def is_ascii_uppercase_def is_ascii_lowercase_def)
  moreover have "\<not> slug_char CHR ''-''"
    by (simp add: slug_char_def is_ascii_digit_def is_ascii_lowercase_def)
  ultimately show ?thesis by metis
qed

lemma repo_slug_wf: "slug_wf slug_char (repo_slug git_root)"
  unfolding repo_slug_def
  by (intro trim_matches_slug_wf collapse_runs_dashed) (use lowercase_slug_char in auto)

lemma find_git_repo_root_ancestors:
  "find_git_repo_root has_git dir = find has_git (path_ancestors dir)"
proof (induction has_git dir rule: find_git_repo_root.induct)
  case (1 has_git dir)
  show ?case
  proof (cases "path_parent dir")
    case None
    then show ?thesis by (simp add: find_git_repo_root.simps path_ancestors.simps)
  next
    case (Some parent)
    then have "length parent < length dir" by (auto simp: path_parent_def split: if_splits)
    then have "parent \<noteq> dir" by blast
    with Some 1 show ?thesis
      by (subst find_git_repo_root.simps, subst path_ancestors.simps) simp
  qed
qed

text \<open>On ASCII text the shared loop runs over the bytes; literal names are evaluated this way.\<close>

fun collapse_ascii :: "(char \<Rightarrow> char) \<Rightarrow> bool \<Rightarrow> string \<Rightarrow> string" where
  "collapse_ascii keep run [] = []"
| "collapse_ascii keep run (c # cs) =
     (if is_ascii_alphanumeric c then keep c # collapse_ascii keep False cs
      else if run then collapse_ascii keep run cs
      else CHR ''-'' # collapse_ascii keep True cs)"

lemma collapse_runs_ascii:
  assumes "list_all (\<lambda>c. \<not> is_utf8_continuation c) s"
  shows "collapse_runs keep run (utf8_chars s) = collapse_ascii keep run s"
proof -
  have "collapse_runs keep run (map (\<lambda>c. [c]) s) = collapse_ascii keep run s"
    by (induction s arbitrary: run) auto
  then show ?thesis using utf8_chars_ascii [OF assms] by simp
qed

lemma repo_slug_ascii:
  assumes "path_string r = s" "list_all (\<lambda>c. \<not> is_utf8_continuation c) s"
    "collapse_ascii to_ascii_lowercase_char False s = t"
  shows "repo_slug r = trim_matches (CHR ''-'') t"
  using assms by (simp add: repo_slug_def collapse_runs_ascii)

lemmas ascii_class_defs = is_ascii_alphanumeric_def is_ascii_digit_def is_ascii_uppercase_def
  is_ascii_lowercase_def

subsection \<open>Properties\<close>

text \<open>
  C24. \<open>ReviewProfile::validate\<close> accepts exactly the profiles with the known version, a non-blank wake
  name, positive budgets, and at least one layer, all with distinct non-blank names and models.
\<close>

theorem validate_accepts_exactly:
  "validate profile p = Ok () \<longleftrightarrow> profile_wf profile"
  by (rule validate_Ok_iff)

text \<open>
  C25. A profile the loader returns is usable: one attempt lasts at least a second, at least one
  attempt is allowed, and every configured layer resolves to its own model.
\<close>

theorem loaded_profile_usable:
  assumes "load_profile_at env decode disk p = Ok (Some profile)"
  shows "1000 \<le> attempt_timeout_ms profile \<and> 1 \<le> max_attempts profile
    \<and> layers profile \<noteq> []
    \<and> (\<forall>l \<in> set (layers profile). layer_model profile (layer_name l) = Some (layer_model_selector l))"
proof -
  have "validate profile p = Ok ()"
    using assms by (auto simp: load_profile_at_def split: result.splits io_error.splits if_splits)
  then have wf: "profile_wf profile" by (simp add: validate_Ok_iff)
  then show ?thesis
    using profile_wf_budget layer_model_unique by (auto simp: profile_wf_def)
qed

definition sample_profile :: review_profile where
  "sample_profile = \<lparr>profile_version = 1, session_name = ''review-main'', main_model = Some ''p/main'',
     layers = [\<lparr>layer_name = ''requirements'', layer_model_selector = ''p/r''\<rparr>,
               \<lparr>layer_name = ''project-fit'', layer_model_selector = ''p/f''\<rparr>],
     attempt_timeout_seconds = None, max_attempts_opt = Some 2\<rparr>"

definition quiet_env :: "'b env" where
  "quiet_env = \<lparr>clock_ms = (\<lambda>_. 0), io_fault = (\<lambda>_. None), torn_write = (\<lambda>_. None),
     lock_attempt = (\<lambda>_. Ok ())\<rparr>"

lemma sample_profile_wf: "profile_wf sample_profile"
  by (simp add: profile_wf_def sample_profile_def PROFILE_VERSION_def layer_wf_def trim_def
      is_whitespace_def is_utf8_continuation_def)

theorem loaded_profile_usable_witness:
  "load_profile_at quiet_env Ok [([''p.json''], sample_profile)] [''p.json''] = Ok (Some sample_profile)
   \<and> 1000 \<le> attempt_timeout_ms sample_profile \<and> 1 \<le> max_attempts sample_profile"
proof -
  have load: "load_profile_at quiet_env Ok [([''p.json''], sample_profile)] [''p.json''] = Ok (Some sample_profile)"
    using sample_profile_wf validate_Ok_iff [of sample_profile "[''p.json'']"]
    by (simp add: load_profile_at_def fs_read_def quiet_env_def)
  then show ?thesis using loaded_profile_usable [OF load] by blast
qed

text \<open>
  The slug of a work tree is a canonical directory name: lower-case letters and digits in runs
  separated by single dashes, none leading or trailing.
\<close>

theorem repo_slug_canonical:
  "slug_wf slug_char (repo_slug git_root)"
  by (rule repo_slug_wf)

lemma slug_a_b_c:
  "repo_slug [''/'', ''srv'', ''a-b'', ''c''] = trim_matches (CHR ''-'') ''-srv-a-b-c''"
proof (rule repo_slug_ascii)
  show "path_string [''/'', ''srv'', ''a-b'', ''c''] = ''/srv/a-b/c''"
    by (simp add: path_string_def path_is_absolute_def)
qed (simp_all add: ascii_class_defs to_ascii_lowercase_char_def is_utf8_continuation_def)

lemma slug_a_bc:
  "repo_slug [''/'', ''srv'', ''a'', ''b-c''] = trim_matches (CHR ''-'') ''-srv-a-b-c''"
proof (rule repo_slug_ascii)
  show "path_string [''/'', ''srv'', ''a'', ''b-c''] = ''/srv/a/b-c''"
    by (simp add: path_string_def path_is_absolute_def)
qed (simp_all add: ascii_class_defs to_ascii_lowercase_char_def is_utf8_continuation_def)

text \<open>
  The slug does not identify a work tree: two different absolute git roots share one
  repository-keyed directory, hence one profile and one durable state.
\<close>

theorem repo_dir_collision:
  "\<exists>r s. r \<noteq> s \<and> path_is_absolute r \<and> path_is_absolute s \<and> repo_dir agent r = repo_dir agent s"
proof (intro exI conjI)
  show "repo_dir agent [''/'', ''srv'', ''a-b'', ''c''] = repo_dir agent [''/'', ''srv'', ''a'', ''b-c'']"
    by (simp only: repo_dir_def slug_a_b_c slug_a_bc)
qed (simp_all add: path_is_absolute_def)

text \<open>
  The enclosing repository of a directory is its nearest ancestor, itself included, that holds
  \<open>.git\<close>.
\<close>

theorem find_git_root_nearest:
  "find_git_repo_root has_git dir = find has_git (path_ancestors dir)"
  by (rule find_git_repo_root_ancestors)

end
