(* ===== verification/Repo_State.thy ===== *)
theory Repo_State
  imports Calendar Profile
begin

text \<open>
  The durable Repository state of \<open>crates/pa-daemon/src/big_brother/state.rs\<close>: the records and
  enumerations of the file, the store and each of its operations. Serialization (serde) is the
  parameter \<open>codec\<close>; the environment \<open>env\<close> answers every file-system call, every attempt to take
  the lock directory and every clock reading. An operation is an action on the disk; it runs under
  the state lock, so no other operation of the store interleaves with it. The frame the operations share,
  \<open>acquire_lock\<close>, \<open>read_state\<close>, a decision on the loaded state and \<open>write_state\<close>, is
  \<open>transact\<close>; the decisions are pure functions of the state.
\<close>

definition STATE_VERSION :: u32 where
  "STATE_VERSION = 1"

definition RECORD_VERSION :: u32 where
  "RECORD_VERSION = 1"

record review_range =
  range_base :: string
  range_head :: string
  admitted_at :: string
  range_attempts :: u32
  attempt_started_at :: string

record review_failure =
  failure_base :: string
  failure_head :: string
  failure_attempts :: u32
  failure_reason :: string
  failed_at :: string

record observation_failure =
  observation_kind :: string
  observation_message :: string
  observed_at :: string

record branch_state =
  cursor :: "string option"
  in_flight :: "review_range option"
  last_failure :: "review_failure option"
  last_observation_failure :: "observation_failure option"
  updated_at :: string

record repository_state =
  state_version :: u32
  state_git_root :: "string option"
  branches :: "(string, branch_state) btree"

record delivery_state =
  delivery_attempts :: u32
  last_attempt_at :: string
  last_error :: "string option"
  delivered_at :: "string option"

record review_record_layer =
  record_layer :: string
  record_model :: string
  record_child :: "string option"
  record_answer :: "string option"

record review_record =
  record_version :: u32
  record_branch :: string
  record_base :: string
  record_head :: string
  record_attempts :: u32
  completed_at :: string
  record_layers :: "review_record_layer list"
  conclusion :: "string option"
  delivery :: "(string, delivery_state) btree"

datatype admission =
    Admitted review_range
  | AlreadyReviewed string
  | InReview review_range
  | Busy review_range

datatype completion =
    Completed review_range path
  | AlreadyComplete string path

datatype state_error =
    Unreadable path io_error
  | MalformedState path string
  | MalformedRecord path string
  | UnsupportedVersion u32
  | UnsupportedRecordVersion u32
  | NotSeeded string
  | RangeNotInFlight string string
  | Reseed string string string
  | InvalidRevision string
  | StrayCompletion string string string
  | RecordBranchMismatch path string string
  | RecordMissing path io_error
  | LockError string
  | WriteError path io_error
  | DirectoryError path io_error

definition default_repository_state :: repository_state where
  "default_repository_state =
     \<lparr>state_version = STATE_VERSION, state_git_root = None, branches = []\<rparr>"

definition default_branch_state :: branch_state where
  "default_branch_state =
     \<lparr>cursor = None, in_flight = None, last_failure = None, last_observation_failure = None,
      updated_at = []\<rparr>"

subsection \<open>Delivery state\<close>

definition delivered :: "delivery_state \<Rightarrow> bool" where
  "delivered state \<longleftrightarrow> delivered_at state \<noteq> None"

definition advance :: "delivery_state option \<Rightarrow> string \<Rightarrow> string option \<Rightarrow> delivery_state" where
  "advance previous now_iso error =
     \<lparr>delivery_attempts = (case previous of None \<Rightarrow> 1
                           | Some state \<Rightarrow> saturating_add (delivery_attempts state) 1),
      last_attempt_at = now_iso,
      last_error = error,
      delivered_at = (if error = None then Some now_iso else None)\<rparr>"

subsection \<open>Helpers\<close>

definition validate_revision :: "string \<Rightarrow> (unit, state_error) result" where
  "validate_revision value =
     (if (length value = 40 \<or> length value = 64) \<and> list_all is_ascii_hexdigit value
      then Ok () else Err (InvalidRevision value))"

definition sanitize_branch :: "string \<Rightarrow> string" where
  "sanitize_branch branch =
     trim_matches (CHR ''-'') (collapse_runs (\<lambda>c. c) False (utf8_chars branch))"

definition now_iso :: "('b, 'z) env_scheme \<Rightarrow> nat \<Rightarrow> string" where
  "now_iso env k = iso_from_unix_ms (clock_ms env k)"

text \<open>
  \<open>atomic_write\<close>: the temporary file sits beside the target and the rename replaces the target.
\<close>

definition temp_path :: "path \<Rightarrow> path" where
  "temp_path p =
     (let parent = (case path_parent p of None \<Rightarrow> [''.''] | Some q \<Rightarrow> q);
          file_name = (case path_file_name p of None \<Rightarrow> ''state'' | Some name \<Rightarrow> name)
      in path_join parent (''.'' @ file_name @ ''.tmp''))"

definition atomic_write ::
  "('b, 'z) env_scheme \<Rightarrow> path \<Rightarrow> 'b \<Rightarrow> ('b disk, unit, state_error) action" where
  "atomic_write env p content =
     and_then (map_error (WriteError (temp_path p)) (fs_write env (temp_path p) content)) (\<lambda>_.
     map_error (WriteError p) (fs_rename env (temp_path p) p))"

subsection \<open>The store\<close>

record store =
  store_repo_dir :: path
  store_git_root :: path

record 'b codec =
  state_to_json :: "repository_state \<Rightarrow> ('b, string) result"
  state_from_json :: "'b \<Rightarrow> (repository_state, string) result"
  record_to_json :: "review_record \<Rightarrow> ('b, string) result"
  record_from_json :: "'b \<Rightarrow> (review_record, string) result"

definition open_store :: "path \<Rightarrow> path \<Rightarrow> store" where
  "open_store agent_dir git_root =
     \<lparr>store_repo_dir = repo_dir agent_dir git_root, store_git_root = git_root\<rparr>"

definition state_path :: "store \<Rightarrow> path" where
  "state_path store = path_join (store_repo_dir store) ''state.json''"

definition records_branch_dir :: "store \<Rightarrow> string \<Rightarrow> path" where
  "records_branch_dir store branch =
     path_join (path_join (store_repo_dir store) ''records'') (sanitize_branch branch)"

definition record_path :: "store \<Rightarrow> string \<Rightarrow> string \<Rightarrow> path" where
  "record_path store branch head = path_join (records_branch_dir store branch) (head @ ''.json'')"

definition read_state ::
  "('b, 'z) env_scheme \<Rightarrow> 'b codec \<Rightarrow> store \<Rightarrow> 'b disk \<Rightarrow> (repository_state, state_error) result" where
  "read_state env codec store disk = (case fs_read env disk (state_path store) of
     Err (IoError kind msg) \<Rightarrow>
       if kind = NotFound then Ok default_repository_state
       else Err (Unreadable (state_path store) (IoError kind msg))
   | Ok bytes \<Rightarrow> (case state_from_json codec bytes of
        Err source \<Rightarrow> Err (MalformedState (state_path store) source)
      | Ok state \<Rightarrow>
          if state_version state \<noteq> STATE_VERSION then Err (UnsupportedVersion (state_version state))
          else Ok state))"

definition load ::
  "('b, 'z) env_scheme \<Rightarrow> 'b codec \<Rightarrow> store \<Rightarrow> 'b disk \<Rightarrow> (repository_state, state_error) result" where
  "load env codec store disk = read_state env codec store disk"

definition write_state ::
  "('b, 'z) env_scheme \<Rightarrow> 'b codec \<Rightarrow> store \<Rightarrow> repository_state
   \<Rightarrow> ('b disk, unit, state_error) action" where
  "write_state env codec store state =
     (let state' = state\<lparr>state_git_root := Some (path_string (store_git_root store))\<rparr>
      in and_then (lift_result (map_err (MalformedState (state_path store)) (state_to_json codec state')))
           (\<lambda>body. atomic_write env (state_path store) body))"

text \<open>
  \<open>acquire_lock\<close>: ten attempts; contention (\<open>WouldBlock\<close>) retries and remembers the first error,
  any other error is final. \<open>lock_attempt env k\<close> is the outcome of the k-th \<open>LockDir::acquire\<close>.
\<close>

fun lock_loop :: "('b, 'z) env_scheme \<Rightarrow> nat \<Rightarrow> nat \<Rightarrow> string option \<Rightarrow> (unit, state_error) result" where
  "lock_loop env 0 attempt last_err =
     Err (LockError (case last_err of None \<Rightarrow> ''busy'' | Some msg \<Rightarrow> msg))"
| "lock_loop env (Suc remaining) attempt last_err = (case lock_attempt env attempt of
     Ok _ \<Rightarrow> Ok ()
   | Err (IoError kind msg) \<Rightarrow>
       if kind = WouldBlock then
         lock_loop env remaining (Suc attempt) (if last_err = None then Some msg else last_err)
       else Err (LockError msg))"

definition acquire_lock :: "('b, 'z) env_scheme \<Rightarrow> store \<Rightarrow> (unit, state_error) result" where
  "acquire_lock env store =
     try_bind (map_err (DirectoryError (store_repo_dir store))
                (fs_create_dir_all env (store_repo_dir store)))
       (\<lambda>_. lock_loop env 10 0 None)"

text \<open>
  The shared frame of the mutating operations. A decision keeps the state (an early
  \<open>return Ok(..)\<close>) or replaces it (the fall-through to \<open>write_state\<close>); a decision error returns
  before any write. The guard is dropped on every exit.
\<close>

datatype 'a decision = Keep 'a | Update repository_state 'a

definition transact ::
  "('b, 'z) env_scheme \<Rightarrow> 'b codec \<Rightarrow> store
   \<Rightarrow> (repository_state \<Rightarrow> ('a decision, state_error) result) \<Rightarrow> ('b disk, 'a, state_error) action" where
  "transact env codec store decide =
     and_then (lift_result (acquire_lock env store)) (\<lambda>_.
     and_then (\<lambda>disk. (read_state env codec store disk, disk)) (\<lambda>state.
     and_then (lift_result (decide state)) (\<lambda>decision. case decision of
       Keep x \<Rightarrow> return x
     | Update state' x \<Rightarrow> and_then (write_state env codec store state') (\<lambda>_. return x))))"

text \<open>\<open>branches.entry(branch).or_default()\<close> and writing the mutated entry back.\<close>

definition branch_entry :: "repository_state \<Rightarrow> string \<Rightarrow> branch_state" where
  "branch_entry state branch = (case bt_get (branches state) branch of
     None \<Rightarrow> default_branch_state | Some branch_state \<Rightarrow> branch_state)"

definition put_branch :: "repository_state \<Rightarrow> string \<Rightarrow> branch_state \<Rightarrow> repository_state" where
  "put_branch state branch branch_state =
     state\<lparr>branches := bt_insert branch branch_state (branches state)\<rparr>"

subsection \<open>Operations\<close>

definition decide_seed ::
  "string \<Rightarrow> string \<Rightarrow> (nat \<Rightarrow> string) \<Rightarrow> repository_state \<Rightarrow> (unit decision, state_error) result" where
  "decide_seed branch revision now state =
     (let branch_state = branch_entry state branch
      in case (cursor branch_state, in_flight branch_state) of
           (None, None) \<Rightarrow>
             Ok (Update (put_branch state branch
                   (branch_state\<lparr>cursor := Some revision, updated_at := now 0\<rparr>)) ())
         | (Some current, None) \<Rightarrow>
             if current = revision then Ok (Keep ())
             else Err (Reseed branch current revision)
         | (Some current, Some _) \<Rightarrow> Err (Reseed branch current revision)
         | (None, Some _) \<Rightarrow> Err (Reseed branch ''in review'' revision))"

definition seed_cursor ::
  "('b, 'z) env_scheme \<Rightarrow> 'b codec \<Rightarrow> store \<Rightarrow> string \<Rightarrow> string \<Rightarrow> ('b disk, unit, state_error) action" where
  "seed_cursor env codec store branch revision =
     and_then (lift_result (validate_revision revision)) (\<lambda>_.
     transact env codec store (decide_seed branch revision (now_iso env)))"

definition decide_observation_failure ::
  "string \<Rightarrow> string \<Rightarrow> string \<Rightarrow> (nat \<Rightarrow> string) \<Rightarrow> repository_state
   \<Rightarrow> (unit decision, state_error) result" where
  "decide_observation_failure branch kind message now state =
     Ok (Update (put_branch state branch ((branch_entry state branch)
           \<lparr>last_observation_failure :=
              Some \<lparr>observation_kind = kind, observation_message = message, observed_at = now 0\<rparr>,
            updated_at := now 1\<rparr>)) ())"

definition record_observation_failure ::
  "('b, 'z) env_scheme \<Rightarrow> 'b codec \<Rightarrow> store \<Rightarrow> string \<Rightarrow> string \<Rightarrow> string
   \<Rightarrow> ('b disk, unit, state_error) action" where
  "record_observation_failure env codec store branch kind message =
     transact env codec store (decide_observation_failure branch kind message (now_iso env))"

definition decide_clear_observation ::
  "string \<Rightarrow> (nat \<Rightarrow> string) \<Rightarrow> repository_state \<Rightarrow> (unit decision, state_error) result" where
  "decide_clear_observation branch now state = (case bt_get (branches state) branch of
     None \<Rightarrow> Ok (Keep ())
   | Some branch_state \<Rightarrow>
       if last_observation_failure branch_state = None then Ok (Keep ())
       else Ok (Update (put_branch state branch
              (branch_state\<lparr>last_observation_failure := None, updated_at := now 0\<rparr>)) ()))"

definition clear_observation_failure ::
  "('b, 'z) env_scheme \<Rightarrow> 'b codec \<Rightarrow> store \<Rightarrow> string \<Rightarrow> ('b disk, unit, state_error) action" where
  "clear_observation_failure env codec store branch =
     transact env codec store (decide_clear_observation branch (now_iso env))"

definition decide_admit ::
  "string \<Rightarrow> string \<Rightarrow> (nat \<Rightarrow> string) \<Rightarrow> repository_state
   \<Rightarrow> (admission decision, state_error) result" where
  "decide_admit branch head now state = (case bt_get (branches state) branch of
     None \<Rightarrow> Err (NotSeeded branch)
   | Some branch_state \<Rightarrow>
       if cursor branch_state = Some head then Ok (Keep (AlreadyReviewed head))
       else (case in_flight branch_state of
          Some rng \<Rightarrow>
            if range_head rng = head then Ok (Keep (InReview rng)) else Ok (Keep (Busy rng))
        | None \<Rightarrow> (case cursor branch_state of
             None \<Rightarrow> Err (NotSeeded branch)
           | Some base \<Rightarrow>
               (let rng = \<lparr>range_base = base, range_head = head, admitted_at = now 0,
                             range_attempts = 1, attempt_started_at = now 1\<rparr>
                in Ok (Update (put_branch state branch
                     (branch_state\<lparr>in_flight := Some rng, updated_at := now 2\<rparr>))
                     (Admitted rng))))))"

definition admit ::
  "('b, 'z) env_scheme \<Rightarrow> 'b codec \<Rightarrow> store \<Rightarrow> string \<Rightarrow> string
   \<Rightarrow> ('b disk, admission, state_error) action" where
  "admit env codec store branch head =
     and_then (lift_result (validate_revision head)) (\<lambda>_.
     transact env codec store (decide_admit branch head (now_iso env)))"

text \<open>\<open>attempts += 1\<close> on the \<open>u32\<close> wraps in a release build.\<close>

definition decide_retry ::
  "string \<Rightarrow> string \<Rightarrow> (nat \<Rightarrow> string) \<Rightarrow> repository_state \<Rightarrow> (u32 decision, state_error) result" where
  "decide_retry branch head now state = (case bt_get (branches state) branch of
     None \<Rightarrow> Err (RangeNotInFlight branch head)
   | Some branch_state \<Rightarrow> (case in_flight branch_state of
        None \<Rightarrow> Err (RangeNotInFlight branch head)
      | Some rng \<Rightarrow>
          if range_head rng \<noteq> head then Err (RangeNotInFlight branch head)
          else (let rng' = rng\<lparr>range_attempts := range_attempts rng + 1,
                                    attempt_started_at := now 0\<rparr>
                in Ok (Update (put_branch state branch
                     (branch_state\<lparr>in_flight := Some rng', updated_at := now 1\<rparr>))
                     (range_attempts rng')))))"

definition retry_attempt ::
  "('b, 'z) env_scheme \<Rightarrow> 'b codec \<Rightarrow> store \<Rightarrow> string \<Rightarrow> string \<Rightarrow> ('b disk, u32, state_error) action" where
  "retry_attempt env codec store branch head =
     transact env codec store (decide_retry branch head (now_iso env))"

definition decide_fail ::
  "string \<Rightarrow> string \<Rightarrow> string \<Rightarrow> (nat \<Rightarrow> string) \<Rightarrow> repository_state
   \<Rightarrow> (unit decision, state_error) result" where
  "decide_fail branch head reason now state = (case bt_get (branches state) branch of
     None \<Rightarrow> Err (RangeNotInFlight branch head)
   | Some branch_state \<Rightarrow> (case in_flight branch_state of
        None \<Rightarrow> Err (RangeNotInFlight branch head)
      | Some rng \<Rightarrow>
          if range_head rng \<noteq> head then Err (RangeNotInFlight branch head)
          else Ok (Update (put_branch state branch
                 (branch_state\<lparr>in_flight := None,
                    last_failure := Some \<lparr>failure_base = range_base rng,
                      failure_head = range_head rng, failure_attempts = range_attempts rng,
                      failure_reason = reason, failed_at = now 0\<rparr>,
                    updated_at := now 1\<rparr>)) ())))"

definition fail_range ::
  "('b, 'z) env_scheme \<Rightarrow> 'b codec \<Rightarrow> store \<Rightarrow> string \<Rightarrow> string \<Rightarrow> string
   \<Rightarrow> ('b disk, unit, state_error) action" where
  "fail_range env codec store branch head reason =
     transact env codec store (decide_fail branch head reason (now_iso env))"

text \<open>The record write of \<open>complete\<close>: skipped when the record file is already there.\<close>

definition persist_record ::
  "('b, 'z) env_scheme \<Rightarrow> 'b codec \<Rightarrow> path \<Rightarrow> review_record \<Rightarrow> ('b disk, unit, state_error) action" where
  "persist_record env codec p record disk =
     (if fs_exists env disk p then (Ok (), disk)
      else and_then (lift_result (map_err (DirectoryError (butlast p)) (fs_create_dir_all env (butlast p)))) (\<lambda>_.
           and_then (lift_result (map_err (MalformedRecord p) (record_to_json codec record))) (\<lambda>body.
           atomic_write env p body)) disk)"

definition stray :: "review_record \<Rightarrow> state_error" where
  "stray record = StrayCompletion (record_branch record) (record_base record) (record_head record)"

definition matches_range :: "review_record \<Rightarrow> review_range \<Rightarrow> bool" where
  "matches_range record rng \<longleftrightarrow>
     range_base rng = record_base record \<and> range_head rng = record_head record"

definition advanced_branch :: "branch_state \<Rightarrow> string \<Rightarrow> string \<Rightarrow> branch_state" where
  "advanced_branch branch_state head now =
     branch_state\<lparr>cursor := Some head, in_flight := None, updated_at := now\<rparr>"

definition complete_locked ::
  "('b, 'z) env_scheme \<Rightarrow> 'b codec \<Rightarrow> store \<Rightarrow> review_record \<Rightarrow> repository_state
   \<Rightarrow> ('b disk, completion, state_error) action" where
  "complete_locked env codec store record state =
     (case bt_get (branches state) (record_branch record) of
        None \<Rightarrow> throw (stray record)
      | Some branch_state \<Rightarrow>
          (let p = record_path store (record_branch record) (record_head record);
               replayed = (\<lambda>disk.
                 if cursor branch_state = Some (record_head record) \<and> fs_exists env disk p
                 then (Ok (AlreadyComplete (record_head record) p), disk)
                 else (Err (stray record), disk))
           in case in_flight branch_state of
                None \<Rightarrow> replayed
              | Some rng \<Rightarrow>
                  if \<not> matches_range record rng then replayed
                  else and_then (persist_record env codec p record) (\<lambda>_.
                       and_then (write_state env codec store
                         (put_branch state (record_branch record)
                           (advanced_branch branch_state (record_head record) (now_iso env 1)))) (\<lambda>_.
                       return (Completed rng p)))))"

definition stamp_completed :: "string \<Rightarrow> review_record \<Rightarrow> review_record" where
  "stamp_completed now record =
     (if trim (completed_at record) = [] then record\<lparr>completed_at := now\<rparr> else record)"

definition complete ::
  "('b, 'z) env_scheme \<Rightarrow> 'b codec \<Rightarrow> store \<Rightarrow> review_record
   \<Rightarrow> ('b disk, completion, state_error) action" where
  "complete env codec store record =
     (if record_version record \<noteq> RECORD_VERSION
      then throw (UnsupportedRecordVersion (record_version record))
      else and_then (lift_result (validate_revision (record_base record))) (\<lambda>_.
           and_then (lift_result (validate_revision (record_head record))) (\<lambda>_.
           if trim (record_branch record) = [] then throw (stray record)
           else and_then (lift_result (acquire_lock env store)) (\<lambda>_.
                and_then (\<lambda>disk. (read_state env codec store disk, disk)) (\<lambda>state.
                complete_locked env codec store (stamp_completed (now_iso env 0) record) state)))))"

definition update_delivery ::
  "('b, 'z) env_scheme \<Rightarrow> 'b codec \<Rightarrow> store \<Rightarrow> string \<Rightarrow> string \<Rightarrow> string \<Rightarrow> delivery_state
   \<Rightarrow> ('b disk, unit, state_error) action" where
  "update_delivery env codec store branch head channel state =
     (let p = record_path store branch head
      in and_then (lift_result (acquire_lock env store)) (\<lambda>_.
         and_then (\<lambda>disk. (map_err (RecordMissing p) (fs_read env disk p), disk)) (\<lambda>bytes.
         and_then (lift_result (map_err (MalformedRecord p) (record_from_json codec bytes))) (\<lambda>record.
         if record_branch record \<noteq> branch
         then throw (RecordBranchMismatch p (record_branch record) branch)
         else and_then (lift_result (map_err (MalformedRecord p)
                (record_to_json codec (record\<lparr>delivery := bt_insert channel state (delivery record)\<rparr>)))) (\<lambda>body.
              atomic_write env p body)))))"

subsection \<open>Reading records\<close>

fun read_records ::
  "('b, 'z) env_scheme \<Rightarrow> 'b codec \<Rightarrow> 'b disk \<Rightarrow> string \<Rightarrow> path list
   \<Rightarrow> (review_record list, state_error) result" where
  "read_records env codec disk branch [] = Ok []"
| "read_records env codec disk branch (p # ps) =
     try_bind (map_err (Unreadable p) (fs_read env disk p)) (\<lambda>bytes.
     try_bind (map_err (MalformedRecord p) (record_from_json codec bytes)) (\<lambda>record.
     if record_version record \<noteq> RECORD_VERSION
     then Err (UnsupportedRecordVersion (record_version record))
     else if record_branch record \<noteq> branch
     then Err (RecordBranchMismatch p (record_branch record) branch)
     else try_bind (read_records env codec disk branch ps) (\<lambda>rest. Ok (record # rest))))"

definition records ::
  "('b, 'z) env_scheme \<Rightarrow> 'b codec \<Rightarrow> store \<Rightarrow> 'b disk \<Rightarrow> string
   \<Rightarrow> (review_record list, state_error) result" where
  "records env codec store disk branch =
     (let dir = records_branch_dir store branch
      in case fs_read_dir env disk dir of
           Err (IoError kind msg) \<Rightarrow>
             if kind = NotFound then Ok [] else Err (Unreadable dir (IoError kind msg))
         | Ok entries \<Rightarrow>
             read_records env codec disk branch
               (sort (filter (\<lambda>p. path_extension p = Some ''json'') entries)))"

end
