(* ===== verification/Repo_Lemmas.thy ===== *)
theory Repo_Lemmas
  imports Repo_State
begin

text \<open>
  What the operations of the store do to the files: the serializer's contract \<open>codec_ok\<close>, the
  state and the records a disk holds, the paths the store touches and that they never clash, the
  outcome of a write, of the shared frame \<open>transact\<close>, of \<open>complete\<close> and of \<open>update_delivery\<close> as
  elimination rules, and the invariant \<open>state_wf\<close> with its preservation by every decision.
\<close>

text \<open>The serializer reads back what it wrote.\<close>

definition codec_ok :: "'b codec \<Rightarrow> bool" where
  "codec_ok codec \<longleftrightarrow>
     (\<forall>s b. state_to_json codec s = Ok b \<longrightarrow> state_from_json codec b = Ok s)
   \<and> (\<forall>r b. record_to_json codec r = Ok b \<longrightarrow> record_from_json codec b = Ok r)"

definition stored_state :: "'b codec \<Rightarrow> store \<Rightarrow> 'b disk \<Rightarrow> repository_state option" where
  "stored_state codec store disk = (case bt_get disk (state_path store) of
     None \<Rightarrow> Some default_repository_state
   | Some bytes \<Rightarrow> result_ok (state_from_json codec bytes))"

definition stored_record :: "'b codec \<Rightarrow> store \<Rightarrow> 'b disk \<Rightarrow> string \<Rightarrow> string \<Rightarrow> review_record option" where
  "stored_record codec store disk branch head = (case bt_get disk (record_path store branch head) of
     None \<Rightarrow> None
   | Some bytes \<Rightarrow> result_ok (record_from_json codec bytes))"

definition revision_ok :: "string \<Rightarrow> bool" where
  "revision_ok value \<longleftrightarrow> (length value = 40 \<or> length value = 64) \<and> list_all is_ascii_hexdigit value"

lemma validate_revision_Ok_iff [simp]: "validate_revision value = Ok () \<longleftrightarrow> revision_ok value"
  by (simp add: validate_revision_def revision_ok_def)

lemma validate_revision_cases:
  "validate_revision value = (if revision_ok value then Ok () else Err (InvalidRevision value))"
  by (simp add: validate_revision_def revision_ok_def)

subsection \<open>Paths of the store\<close>

lemma dashed_chars: "dashed ok s \<Longrightarrow> c \<in> set s \<Longrightarrow> ok c \<or> c = CHR ''-''"
  by (induction s) (auto simp: dashed_Cons)

lemma slug_wf_no_slash:
  assumes "slug_wf ok s" "\<not> ok (CHR ''/'')" "\<not> ok (CHR ''.'')"
  shows "CHR ''/'' \<notin> set s" "CHR ''.'' \<notin> set s"
  using assms dashed_chars [of ok s] unfolding slug_wf_def by fastforce+

lemma repo_dir_eq:
  assumes "repo_slug git_root \<noteq> []"
  shows "repo_dir agent git_root = agent @ [''big-brother'', ''repos'', repo_slug git_root]"
proof -
  have ok: "slug_char c \<or> c = CHR ''-''" if "c \<in> set (repo_slug git_root)" for c
    using dashed_chars [OF _ that, of slug_char] repo_slug_wf by (auto simp: slug_wf_def)
  have "CHR ''/'' \<notin> set (repo_slug git_root)" "CHR ''.'' \<notin> set (repo_slug git_root)"
    using ok [of "CHR ''/''"] ok [of "CHR ''.''"]
    by (auto simp: slug_char_def is_ascii_digit_def is_ascii_lowercase_def)
  moreover from this have "repo_slug git_root \<noteq> ''.''" by auto
  ultimately show ?thesis using assms by (simp add: repo_dir_def)
qed

lemma sanitize_branch_wf: "slug_wf is_ascii_alphanumeric (sanitize_branch branch)"
  unfolding sanitize_branch_def
  by (intro trim_matches_slug_wf collapse_runs_dashed) (auto simp: ascii_class_defs)

lemma sanitize_branch_chars:
  "CHR ''/'' \<notin> set (sanitize_branch branch)" "CHR ''.'' \<notin> set (sanitize_branch branch)"
  using slug_wf_no_slash [OF sanitize_branch_wf] by (simp_all add: ascii_class_defs)

lemma records_branch_dir_eq:
  "records_branch_dir store branch = store_repo_dir store @ [''records'']
     @ (if sanitize_branch branch = [] then [] else [sanitize_branch branch])"
proof -
  have "sanitize_branch branch \<noteq> ''.''" using sanitize_branch_chars(2) [of branch] by auto
  moreover have "path_of_string [] = []" by (simp add: path_of_string_def starts_with_iff)
  ultimately show ?thesis
    using sanitize_branch_chars(1) [of branch]
    by (auto simp: records_branch_dir_def path_join_def [of _ "[]"] path_is_absolute_def)
qed

lemma revision_ok_no_slash: "revision_ok h \<Longrightarrow> CHR ''/'' \<notin> set h"
  by (auto simp: revision_ok_def list_all_iff is_ascii_hexdigit_def is_ascii_digit_def)

lemma revision_ok_no_dot: "revision_ok h \<Longrightarrow> CHR ''.'' \<notin> set h"
  by (auto simp: revision_ok_def list_all_iff is_ascii_hexdigit_def is_ascii_digit_def)

lemma state_path_eq: "state_path store = store_repo_dir store @ [''state.json'']"
  by (simp add: state_path_def)

lemma record_path_eq:
  assumes "CHR ''/'' \<notin> set h"
  shows "record_path store branch h = records_branch_dir store branch @ [h @ ''.json'']"
  using assms by (simp add: record_path_def)

lemma temp_path_eq:
  assumes "CHR ''/'' \<notin> set f" "f \<notin> {[], ''.'', ''..''}"
  shows "temp_path (d @ [f]) = d @ [''.'' @ f @ ''.tmp'']"
proof -
  have "f \<noteq> ''/''" using assms(1) by auto
  with assms show ?thesis by (simp add: temp_path_def path_file_name_snoc)
qed


lemma state_temp_eq: "temp_path (state_path store) = store_repo_dir store @ [''.state.json.tmp'']"
  unfolding state_path_eq by (subst temp_path_eq) simp_all

lemma record_temp_eq:
  assumes "CHR ''/'' \<notin> set h"
  shows "temp_path (record_path store branch h) = records_branch_dir store branch @ [''.'' @ h @ ''.json.tmp'']"
  using assms by (simp add: record_path_eq temp_path_eq)

lemma record_path_inject:
  assumes "CHR ''/'' \<notin> set h" "CHR ''/'' \<notin> set h'"
  shows "record_path store b h = record_path store b' h' \<longleftrightarrow>
    sanitize_branch b = sanitize_branch b' \<and> h = h'"
  using assms by (auto simp: record_path_eq records_branch_dir_eq split: if_splits)

lemma record_path_not_state [simp]:
  assumes "CHR ''/'' \<notin> set h"
  shows "record_path store b h \<noteq> state_path store"
    "record_path store b h \<noteq> temp_path (state_path store)"
    "temp_path (record_path store b h) \<noteq> state_path store"
  unfolding state_temp_eq record_temp_eq [OF assms]
  unfolding record_path_eq [OF assms] state_path_eq records_branch_dir_eq
  by simp_all

lemma temp_path_not_record [simp]:
  assumes "CHR ''/'' \<notin> set h" "CHR ''/'' \<notin> set h'" "CHR ''.'' \<notin> set h"
  shows "record_path store b h \<noteq> temp_path (record_path store b' h')"
proof
  assume "record_path store b h = temp_path (record_path store b' h')"
  then have "h @ ''.json'' = ''.'' @ h' @ ''.json.tmp''"
    unfolding record_temp_eq [OF assms(2)] record_path_eq [OF assms(1)] by simp
  with assms(3) show False by (cases h) auto
qed

lemma state_path_not_temp [simp]: "state_path store \<noteq> temp_path (state_path store)"
  unfolding state_temp_eq unfolding state_path_eq by simp

subsection \<open>Writes\<close>

text \<open>
  A write replaces its target wholly or not at all; what a failed one leaves behind is confined to
  the temporary file.
\<close>

lemma atomic_write_cases:
  assumes "atomic_write env p b disk = (r, disk')" "p \<noteq> temp_path p"
  obtains (ok) "r = Ok ()" "bt_get disk' p = Some b" "agree_off {p, temp_path p} disk disk'"
  | (err) e where "r = Err e" "agree_off {temp_path p} disk disk'"
  using assms
  by (auto simp: atomic_write_def and_then_def map_error_def fs_write_def fs_rename_def agree_off_def
      bt_simps bt_get_disk_remove split: option.splits if_splits)

lemma stored_state_agree:
  "agree_off P disk disk' \<Longrightarrow> state_path store \<notin> P \<Longrightarrow>
   stored_state codec store disk' = stored_state codec store disk"
  by (simp add: stored_state_def agree_off_def)

lemma stored_record_agree:
  "agree_off P disk disk' \<Longrightarrow> record_path store b h \<notin> P \<Longrightarrow>
   stored_record codec store disk' b h = stored_record codec store disk b h"
  by (simp add: stored_record_def agree_off_def)

definition rooted :: "store \<Rightarrow> repository_state \<Rightarrow> repository_state" where
  "rooted store state = state\<lparr>state_git_root := Some (path_string (store_git_root store))\<rparr>"

lemma write_state_cases:
  assumes "write_state env codec store state disk = (r, disk')" "codec_ok codec"
  obtains (ok) "r = Ok ()" "stored_state codec store disk' = Some (rooted store state)"
      "agree_off {state_path store, temp_path (state_path store)} disk disk'"
  | (err) e where "r = Err e" "agree_off {temp_path (state_path store)} disk disk'"
proof (cases "state_to_json codec (rooted store state)")
  case (Err m)
  with assms(1) have "r = Err (MalformedState (state_path store) m)" "disk' = disk"
    by (auto simp: write_state_def rooted_def Let_def result_simps and_then_def)
  then show thesis by (auto intro: err)
next
  case (Ok body)
  then have "atomic_write env (state_path store) body disk = (r, disk')"
    using assms(1) by (simp add: write_state_def rooted_def Let_def result_simps and_then_def)
  from this state_path_not_temp show thesis
  proof (cases rule: atomic_write_cases)
    case ok
    have "state_from_json codec body = Ok (rooted store state)"
      using assms(2) Ok by (simp add: codec_ok_def)
    with ok show thesis by (auto simp: stored_state_def intro: that(1))
  next
    case (err e)
    then show thesis by (rule that(2))
  qed
qed

lemma read_state_stored:
  assumes "read_state env codec store disk = Ok state"
  shows "stored_state codec store disk = Some state"
  using assms
  by (auto simp: read_state_def stored_state_def fs_read_def
      split: option.splits result.splits if_splits io_error.splits)

lemma transact_cases:
  assumes "transact env codec store decide disk = (r, disk')" "codec_ok codec"
  obtains (failed) e where "r = Err e" "agree_off {temp_path (state_path store)} disk disk'"
  | (kept) state x where "stored_state codec store disk = Some state" "decide state = Ok (Keep x)"
      "r = Ok x" "disk' = disk"
  | (updated) state state' x where "stored_state codec store disk = Some state"
      "decide state = Ok (Update state' x)" "r = Ok x"
      "stored_state codec store disk' = Some (rooted store state')"
      "agree_off {state_path store, temp_path (state_path store)} disk disk'"
proof -
  consider (early) e where "r = Err e" "disk' = disk"
  | (keep) state x where "read_state env codec store disk = Ok state" "decide state = Ok (Keep x)"
      "r = Ok x" "disk' = disk"
  | (update) state state' x where "read_state env codec store disk = Ok state"
      "decide state = Ok (Update state' x)"
      "and_then (write_state env codec store state') (\<lambda>_. return x) disk = (r, disk')"
    using assms(1) that unfolding transact_def
    by (cases "acquire_lock env store"; cases "read_state env codec store disk"; cases "decide (the (result_ok (read_state env codec store disk)))")
      (auto simp: and_then_read split: decision.splits)
  then show thesis
  proof cases
    case early
    then show thesis by (auto intro: failed)
  next
    case keep
    then show thesis using kept read_state_stored by blast
  next
    case update
    obtain w d where w: "write_state env codec store state' disk = (w, d)" by fastforce
    from w assms(2) show thesis
    proof (cases rule: write_state_cases)
      case ok
      with update w have "r = Ok x" "disk' = d" by (auto simp: and_then_def return_def)
      with ok update show thesis using updated read_state_stored by blast
    next
      case (err e)
      with update(3) w show thesis by (auto simp: and_then_def intro: failed)
    qed
  qed
qed


subsection \<open>The invariant\<close>

definition branch_wf :: "branch_state \<Rightarrow> bool" where
  "branch_wf branch_state \<longleftrightarrow>
     (\<forall>revision. cursor branch_state = Some revision \<longrightarrow> revision_ok revision)
   \<and> (\<forall>rng. in_flight branch_state = Some rng \<longrightarrow>
        cursor branch_state = Some (range_base rng) \<and> revision_ok (range_head rng)
        \<and> range_head rng \<noteq> range_base rng)"

definition state_wf :: "repository_state \<Rightarrow> bool" where
  "state_wf state \<longleftrightarrow> state_version state = STATE_VERSION \<and> bt_wf (branches state)
     \<and> (\<forall>branch branch_state. bt_get (branches state) branch = Some branch_state \<longrightarrow> branch_wf branch_state)"

lemma default_state_wf [simp]: "state_wf default_repository_state"
  by (simp add: state_wf_def default_repository_state_def bt_wf_def)

lemma rooted_wf [simp]: "state_wf (rooted store state) = state_wf state"
  by (simp add: state_wf_def rooted_def)

lemma branches_rooted [simp]: "branches (rooted store state) = branches state"
  by (simp add: rooted_def)

lemma branch_entry_wf: "state_wf state \<Longrightarrow> branch_wf (branch_entry state branch)"
  by (cases "bt_get (branches state) branch")
    (auto simp: state_wf_def branch_entry_def default_branch_state_def branch_wf_def)

lemma branch_entry_put [simp]:
  "branch_entry (put_branch state branch bs) b = (if b = branch then bs else branch_entry state b)"
  by (simp add: branch_entry_def put_branch_def bt_simps)

lemma branch_entry_rooted [simp]: "branch_entry (rooted store state) b = branch_entry state b"
  by (simp add: branch_entry_def)

lemma put_branch_wf: "state_wf state \<Longrightarrow> branch_wf bs \<Longrightarrow> state_wf (put_branch state branch bs)"
  by (auto simp: state_wf_def put_branch_def bt_simps split: if_splits)

text \<open>What each decision does to the one branch it names.\<close>

definition keeps_wf :: "(repository_state \<Rightarrow> ('a decision, state_error) result) \<Rightarrow> bool" where
  "keeps_wf decide \<longleftrightarrow>
     (\<forall>state state' x. state_wf state \<longrightarrow> decide state = Ok (Update state' x) \<longrightarrow> state_wf state')"

lemma get_branch_wf: "state_wf state \<Longrightarrow> bt_get (branches state) branch = Some bs \<Longrightarrow> branch_wf bs"
  by (auto simp: state_wf_def)

lemma branch_wf_bookkeeping [simp]:
  "branch_wf (bs\<lparr>updated_at := t\<rparr>) = branch_wf bs"
  "branch_wf (bs\<lparr>last_failure := f\<rparr>) = branch_wf bs"
  "branch_wf (bs\<lparr>last_observation_failure := f'\<rparr>) = branch_wf bs"
  by (simp_all add: branch_wf_def)

lemma branch_wf_slot:
  "branch_wf bs \<Longrightarrow> branch_wf (bs\<lparr>in_flight := None\<rparr>)"
  "revision_ok revision \<Longrightarrow> branch_wf (bs\<lparr>cursor := Some revision, in_flight := None\<rparr>)"
  "branch_wf bs \<Longrightarrow> cursor bs = Some (range_base rng) \<Longrightarrow> revision_ok (range_head rng) \<Longrightarrow>
   range_head rng \<noteq> range_base rng \<Longrightarrow> branch_wf (bs\<lparr>in_flight := Some rng\<rparr>)"
  by (auto simp: branch_wf_def)

lemma in_flight_wfD:
  assumes "branch_wf bs" "in_flight bs = Some rng"
  shows "cursor bs = Some (range_base rng)" "revision_ok (range_head rng)"
    "range_head rng \<noteq> range_base rng" "revision_ok (range_base rng)"
  using assms by (auto simp: branch_wf_def)

lemma keeps_wfI:
  "(\<And>state state' x. state_wf state \<Longrightarrow> decide state = Ok (Update state' x) \<Longrightarrow> state_wf state')
   \<Longrightarrow> keeps_wf decide"
  by (auto simp: keeps_wf_def)

lemma decide_seed_wf:
  assumes "revision_ok revision"
  shows "keeps_wf (decide_seed branch revision now)"
proof (rule keeps_wfI)
  fix state state' x
  assume wf: "state_wf state" and dec: "decide_seed branch revision now state = Ok (Update state' x)"
  let ?bs = "branch_entry state branch"
  from dec have "in_flight ?bs = None"
    and state': "state' = put_branch state branch (?bs\<lparr>cursor := Some revision, updated_at := now 0\<rparr>)"
    by (auto simp: decide_seed_def Let_def split: option.splits if_splits)
  then have "branch_wf (?bs\<lparr>cursor := Some revision, updated_at := now 0\<rparr>)"
    using assms by (simp add: branch_wf_def)
  with wf state' show "state_wf state'" by (simp add: put_branch_wf)
qed

lemma decide_observation_failure_wf: "keeps_wf (decide_observation_failure branch kind message now)"
  by (rule keeps_wfI) (auto simp: decide_observation_failure_def branch_entry_wf intro!: put_branch_wf)

lemma decide_clear_observation_wf: "keeps_wf (decide_clear_observation branch now)"
  by (rule keeps_wfI)
    (auto simp: decide_clear_observation_def get_branch_wf intro!: put_branch_wf split: option.splits if_splits)

lemma decide_admit_wf: "revision_ok head \<Longrightarrow> keeps_wf (decide_admit branch head now)"
  by (rule keeps_wfI)
    (auto simp: decide_admit_def Let_def get_branch_wf intro!: put_branch_wf branch_wf_slot
      split: option.splits if_splits)

lemma decide_retry_wf: "keeps_wf (decide_retry branch head now)"
proof (rule keeps_wfI)
  fix state state' x
  assume wf: "state_wf state" and dec: "decide_retry branch head now state = Ok (Update state' x)"
  then obtain bs rng where bs: "bt_get (branches state) branch = Some bs" "in_flight bs = Some rng"
    and state': "state' = put_branch state branch (bs\<lparr>in_flight := Some (rng\<lparr>range_attempts := range_attempts rng + 1,
      attempt_started_at := now 0\<rparr>), updated_at := now 1\<rparr>)"
    by (auto simp: decide_retry_def Let_def split: option.splits if_splits)
  note bwf = get_branch_wf [OF wf bs(1)]
  then show "state_wf state'"
    unfolding state' using wf in_flight_wfD [OF bwf bs(2)]
    by (intro put_branch_wf) (simp_all add: branch_wf_slot)
qed

lemma decide_fail_wf: "keeps_wf (decide_fail branch head reason now)"
  by (rule keeps_wfI)
    (auto simp: decide_fail_def get_branch_wf intro!: put_branch_wf branch_wf_slot(1)
      split: option.splits if_splits)


subsection \<open>Completion and delivery\<close>

lemma persist_record_cases:
  assumes "persist_record env codec p record disk = (r, disk')" "p \<noteq> temp_path p"
  obtains (existing) "r = Ok ()" "disk' = disk" "bt_get disk p \<noteq> None"
  | (written) body where "r = Ok ()" "record_to_json codec record = Ok body"
      "bt_get disk' p = Some body" "agree_off {p, temp_path p} disk disk'"
  | (err) e where "r = Err e" "agree_off {temp_path p} disk disk'"
proof (cases "fs_exists env disk p")
  case True
  with assms(1) show thesis by (intro existing) (auto simp: persist_record_def fs_exists_def)
next
  case False
  show thesis
  proof (cases "fs_create_dir_all env (butlast p)"; cases "record_to_json codec record")
    fix u body
    assume ok: "fs_create_dir_all env (butlast p) = Ok u" "record_to_json codec record = Ok body"
    with assms(1) False have "atomic_write env p body disk = (r, disk')"
      by (simp add: persist_record_def)
    from this assms(2) show thesis
      by (cases rule: atomic_write_cases) (use ok written err in auto)
  qed (use assms(1) False err in \<open>auto simp: persist_record_def\<close>)
qed

definition touched :: "store \<Rightarrow> review_record \<Rightarrow> path set" where
  "touched store record =
     (let p = record_path store (record_branch record) (record_head record)
      in {p, temp_path p, temp_path (state_path store)})"

definition record_kept :: "'b codec \<Rightarrow> store \<Rightarrow> review_record \<Rightarrow> 'b disk \<Rightarrow> 'b disk \<Rightarrow> bool" where
  "record_kept codec store record disk disk' \<longleftrightarrow>
     (let p = record_path store (record_branch record) (record_head record)
      in bt_get disk' p = bt_get disk p
       \<or> bt_get disk' p \<noteq> None
         \<and> stored_record codec store disk' (record_branch record) (record_head record) = Some record)"

lemma persist_record_kept:
  assumes run: "persist_record env codec p record disk = (r, disk')" and codec: "codec_ok codec"
    and p: "p = record_path store (record_branch record) (record_head record)" "p \<noteq> temp_path p"
  shows "record_kept codec store record disk disk'" "agree_off {p, temp_path p} disk disk'"
    "r = Ok () \<longrightarrow> bt_get disk' p \<noteq> None"
proof -
  have "record_kept codec store record disk disk' \<and> agree_off {p, temp_path p} disk disk'
    \<and> (r = Ok () \<longrightarrow> bt_get disk' p \<noteq> None)"
    using run p(2)
  proof (cases rule: persist_record_cases)
    case existing
    then show ?thesis by (simp add: record_kept_def)
  next
    case (written body)
    then show ?thesis using codec p by (auto simp: record_kept_def stored_record_def codec_ok_def Let_def)
  next
    case (err e)
    then show ?thesis using p by (auto simp: record_kept_def agree_off_def Let_def)
  qed
  then show "record_kept codec store record disk disk'" "agree_off {p, temp_path p} disk disk'"
    "r = Ok () \<longrightarrow> bt_get disk' p \<noteq> None" by blast+
qed

lemma record_kept_agree:
  assumes "record_kept codec store record disk d" "agree_off P d disk'"
    "record_path store (record_branch record) (record_head record) \<notin> P"
  shows "record_kept codec store record disk disk'"
  using assms by (simp add: record_kept_def agree_off_def stored_record_def Let_def)

lemma persist_advance_cases:
  assumes run: "and_then (persist_record env codec p record) (\<lambda>_.
      and_then (write_state env codec store state') (\<lambda>_. return x)) disk = (r, disk')"
    and codec: "codec_ok codec" and head: "revision_ok (record_head record)"
    and p: "p = record_path store (record_branch record) (record_head record)"
  obtains (failed) e where "r = Err e" "agree_off (touched store record) disk disk'"
      "record_kept codec store record disk disk'"
  | (advanced) "r = Ok x" "stored_state codec store disk' = Some (rooted store state')"
      "bt_get disk' p \<noteq> None" "record_kept codec store record disk disk'"
      "agree_off (insert (state_path store) (touched store record)) disk disk'"
proof -
  note chars = revision_ok_no_slash [OF head] revision_ok_no_dot [OF head]
  have distinct: "p \<noteq> temp_path p" "p \<noteq> state_path store" "p \<noteq> temp_path (state_path store)"
    "temp_path p \<noteq> state_path store" using chars by (simp_all add: p)
  have touched: "touched store record = {p, temp_path p, temp_path (state_path store)}"
    by (simp add: touched_def p Let_def)
  from run show thesis
  proof (cases rule: and_then_cases)
    case (err e)
    with persist_record_kept [OF err(1) codec p distinct(1)] show thesis
      by (intro failed [of e]) (auto simp: touched agree_off_def)
  next
    case (ok u d)
    note kept = persist_record_kept [OF ok(1) codec p distinct(1)]
    obtain w d' where w: "write_state env codec store state' d = (w, d')" by fastforce
    then have r: "r = (case w of Ok _ \<Rightarrow> Ok x | Err e \<Rightarrow> Err e)" "d' = disk'"
      using ok(2) by (auto simp: and_then_def split: result.splits)
    from w codec show thesis
    proof (cases rule: write_state_cases)
      case wok: ok
      have "record_kept codec store record disk disk'" "bt_get disk' p \<noteq> None"
        using record_kept_agree [OF kept(1) wok(3)] kept(3) ok agree_offD [OF wok(3), of p] distinct p r
        by auto
      with wok r kept show thesis
        by (intro advanced) (auto simp: touched intro: agree_off_trans)
    next
      case werr: (err e)
      have "record_kept codec store record disk disk'"
        using record_kept_agree [OF kept(1) werr(2)] distinct p r by auto
      with werr r kept show thesis
        by (intro failed [of e]) (auto simp: touched intro: agree_off_trans)
    qed
  qed
qed

lemma complete_locked_cases:
  assumes run: "complete_locked env codec store record state disk = (r, disk')"
    and codec: "codec_ok codec" and head: "revision_ok (record_head record)"
  defines "p \<equiv> record_path store (record_branch record) (record_head record)"
  obtains (failed) e where "r = Err e" "agree_off (touched store record) disk disk'"
      "record_kept codec store record disk disk'"
  | (replayed) bs where "bt_get (branches state) (record_branch record) = Some bs"
      "cursor bs = Some (record_head record)" "bt_get disk p \<noteq> None"
      "r = Ok (AlreadyComplete (record_head record) p)" "disk' = disk"
  | (completed) bs rng t where "bt_get (branches state) (record_branch record) = Some bs"
      "in_flight bs = Some rng" "matches_range record rng" "r = Ok (Completed rng p)"
      "stored_state codec store disk' = Some (rooted store (put_branch state (record_branch record)
         (advanced_branch bs (record_head record) t)))"
      "bt_get disk' p \<noteq> None" "record_kept codec store record disk disk'"
      "agree_off (insert (state_path store) (touched store record)) disk disk'"
proof (cases "bt_get (branches state) (record_branch record)")
  case None
  with run show thesis by (intro failed) (auto simp: complete_locked_def record_kept_def)
next
  case (Some bs)
  show thesis
  proof (cases "\<exists>rng. in_flight bs = Some rng \<and> matches_range record rng")
    case False
    then have "complete_locked env codec store record state disk =
      (if cursor bs = Some (record_head record) \<and> fs_exists env disk p
       then (Ok (AlreadyComplete (record_head record) p), disk) else (Err (stray record), disk))"
      using Some by (auto simp: complete_locked_def Let_def p_def split: option.splits)
    with run Some show thesis
      by (auto simp: fs_exists_def record_kept_def split: if_splits intro: failed replayed)
  next
    case True
    then obtain rng where rng: "in_flight bs = Some rng" "matches_range record rng" by blast
    then have "and_then (persist_record env codec p record) (\<lambda>_.
        and_then (write_state env codec store (put_branch state (record_branch record)
          (advanced_branch bs (record_head record) (now_iso env 1)))) (\<lambda>_. return (Completed rng p))) disk = (r, disk')"
      using run Some by (simp add: complete_locked_def Let_def p_def)
    from this codec head p_def [THEN meta_eq_to_obj_eq] show thesis
      by (cases rule: persist_advance_cases) (use Some rng in \<open>auto intro: failed completed\<close>)
  qed
qed

lemma stamp_completed_same [simp]:
  "record_version (stamp_completed t record) = record_version record"
  "record_branch (stamp_completed t record) = record_branch record"
  "record_base (stamp_completed t record) = record_base record"
  "record_head (stamp_completed t record) = record_head record"
  "record_layers (stamp_completed t record) = record_layers record"
  "conclusion (stamp_completed t record) = conclusion record"
  by (simp_all add: stamp_completed_def)

lemma matches_range_stamp [simp]: "matches_range (stamp_completed t record) rng = matches_range record rng"
  by (simp add: matches_range_def)

lemma touched_stamp [simp]: "touched store (stamp_completed t record) = touched store record"
  by (simp add: touched_def)

lemma complete_cases:
  assumes "complete env codec store record disk = (r, disk')"
  obtains (rejected) e where "r = Err e" "disk' = disk"
  | (locked) state where "record_version record = RECORD_VERSION" "revision_ok (record_base record)"
      "revision_ok (record_head record)" "stored_state codec store disk = Some state"
      "complete_locked env codec store (stamp_completed (now_iso env 0) record) state disk = (r, disk')"
proof -
  consider (early) e where "r = Err e" "disk' = disk"
  | (ran) state where "record_version record = RECORD_VERSION" "revision_ok (record_base record)"
      "revision_ok (record_head record)" "read_state env codec store disk = Ok state"
      "complete_locked env codec store (stamp_completed (now_iso env 0) record) state disk = (r, disk')"
    using assms
    by (cases "acquire_lock env store"; cases "read_state env codec store disk")
      (auto simp: complete_def validate_revision_cases and_then_read split: if_splits)
  then show thesis by cases (use read_state_stored rejected locked in blast)+
qed

lemma update_delivery_cases:
  assumes run: "update_delivery env codec store branch head channel state disk = (r, disk')"
    and codec: "codec_ok codec" and p: "p = record_path store branch head" "p \<noteq> temp_path p"
  obtains (failed) e where "r = Err e" "agree_off {temp_path p} disk disk'"
  | (updated) review where "r = Ok ()" "stored_record codec store disk branch head = Some review"
      "record_branch review = branch"
      "stored_record codec store disk' branch head
         = Some (review\<lparr>delivery := bt_insert channel state (delivery review)\<rparr>)"
      "agree_off {p, temp_path p} disk disk'"
proof -
  consider (early) e where "r = Err e" "disk' = disk"
  | (ran) bytes review body where "fs_read env disk p = Ok bytes" "record_from_json codec bytes = Ok review"
      "record_branch review = branch"
      "record_to_json codec (review\<lparr>delivery := bt_insert channel state (delivery review)\<rparr>) = Ok body"
      "atomic_write env p body disk = (r, disk')"
    using run p(1)
    by (cases "acquire_lock env store"; cases "fs_read env disk p";
        cases "record_from_json codec (the (result_ok (fs_read env disk p)))";
        cases "record_to_json codec ((\<lambda>review. review\<lparr>delivery := bt_insert channel state (delivery review)\<rparr>)
          (the (result_ok (record_from_json codec (the (result_ok (fs_read env disk p)))))))")
      (auto simp: update_delivery_def Let_def and_then_read split: if_splits)
  then show thesis
  proof cases
    case early
    then show thesis by (auto intro: failed)
  next
    case ran
    from ran(5) p(2) show thesis
      by (cases rule: atomic_write_cases)
        (use ran codec p in \<open>auto simp: stored_record_def codec_ok_def fs_read_Ok_iff intro: failed updated\<close>)
  qed
qed

end
