(* ===== verification/State_Spec.thy ===== *)
theory State_Spec
  imports Repo_Lemmas
begin

text \<open>
  The contract of the store (ADR 0018, 0021, 0028): per branch a machine with three phases, in which
  a range is admitted from the cursor, one at a time, and either completes, moving the cursor to its
  head, or fails, leaving the cursor where it was. \<open>run_op\<close> runs any mutating operation of
  \<open>state.rs\<close>; the refinement lemma shows that, whatever the environment does, one run changes the
  stored state by at most one step of the machine on the branch the operation names. Runs of many
  operations are traces with their replies; the properties speak of what the traces can contain.
\<close>

subsection \<open>The abstract machine\<close>

datatype phase = Unseeded | Idle string | Reviewing string string

datatype event = Seed string | Admission_of string | Review_of string | Give_up

inductive phase_step :: "phase \<Rightarrow> event \<Rightarrow> phase \<Rightarrow> bool" where
  seed: "phase_step Unseeded (Seed revision) (Idle revision)"
| admit: "head \<noteq> base \<Longrightarrow> phase_step (Idle base) (Admission_of head) (Reviewing base head)"
| review: "phase_step (Reviewing base head) (Review_of head) (Idle head)"
| give_up: "phase_step (Reviewing base head) Give_up (Idle base)"

inductive_simps phase_step_simps [simp]:
  "phase_step p (Seed revision) q"
  "phase_step p (Admission_of head) q"
  "phase_step p (Review_of head) q"
  "phase_step p Give_up q"

definition phase_of :: "branch_state \<Rightarrow> phase" where
  "phase_of branch_state = (case in_flight branch_state of
     Some rng \<Rightarrow> Reviewing (range_base rng) (range_head rng)
   | None \<Rightarrow> (case cursor branch_state of None \<Rightarrow> Unseeded | Some revision \<Rightarrow> Idle revision))"

definition phase_at :: "repository_state \<Rightarrow> string \<Rightarrow> phase" where
  "phase_at state branch = phase_of (branch_entry state branch)"

subsection \<open>Operations and their replies\<close>

datatype store_op =
    SeedCursor string string
  | RecordObservationFailure string string string
  | ClearObservationFailure string
  | Admit string string
  | RetryAttempt string string
  | FailRange string string string
  | Complete review_record
  | UpdateDelivery string string string delivery_state

datatype reply =
    Done
  | Admission admission
  | Attempts u32
  | Completion completion
  | Refused state_error

fun reply_of :: "('a \<Rightarrow> reply) \<Rightarrow> ('a, state_error) result \<times> 'b disk \<Rightarrow> reply \<times> 'b disk" where
  "reply_of f (Ok x, disk) = (f x, disk)"
| "reply_of f (Err e, disk) = (Refused e, disk)"

fun run_op :: "('b, 'z) env_scheme \<Rightarrow> 'b codec \<Rightarrow> store \<Rightarrow> store_op \<Rightarrow> 'b disk \<Rightarrow> reply \<times> 'b disk" where
  "run_op env codec store (SeedCursor branch revision) disk =
     reply_of (\<lambda>_. Done) (seed_cursor env codec store branch revision disk)"
| "run_op env codec store (RecordObservationFailure branch kind message) disk =
     reply_of (\<lambda>_. Done) (record_observation_failure env codec store branch kind message disk)"
| "run_op env codec store (ClearObservationFailure branch) disk =
     reply_of (\<lambda>_. Done) (clear_observation_failure env codec store branch disk)"
| "run_op env codec store (Admit branch head) disk =
     reply_of Admission (admit env codec store branch head disk)"
| "run_op env codec store (RetryAttempt branch head) disk =
     reply_of Attempts (retry_attempt env codec store branch head disk)"
| "run_op env codec store (FailRange branch head reason) disk =
     reply_of (\<lambda>_. Done) (fail_range env codec store branch head reason disk)"
| "run_op env codec store (Complete record) disk =
     reply_of Completion (complete env codec store record disk)"
| "run_op env codec store (UpdateDelivery branch head channel state) disk =
     reply_of (\<lambda>_. Done) (update_delivery env codec store branch head channel state disk)"

text \<open>The event an operation may cause, with its branch.\<close>

fun op_event :: "store_op \<Rightarrow> (string \<times> event) option" where
  "op_event (SeedCursor branch revision) = Some (branch, Seed revision)"
| "op_event (Admit branch head) = Some (branch, Admission_of head)"
| "op_event (FailRange branch head reason) = Some (branch, Give_up)"
| "op_event (Complete record) = Some (record_branch record, Review_of (record_head record))"
| "op_event _ = None"

text \<open>The effect of an operation on the phases: none, or one step of the machine on one branch.\<close>

definition stutters :: "repository_state \<Rightarrow> repository_state \<Rightarrow> bool" where
  "stutters state state' \<longleftrightarrow> (\<forall>branch. phase_at state' branch = phase_at state branch)"

definition steps :: "string \<Rightarrow> event \<Rightarrow> repository_state \<Rightarrow> repository_state \<Rightarrow> bool" where
  "steps branch event state state' \<longleftrightarrow>
     phase_step (phase_at state branch) event (phase_at state' branch)
   \<and> (\<forall>other. other \<noteq> branch \<longrightarrow> phase_at state' other = phase_at state other)"

text \<open>
  Which replies come with which effect: a \<open>Completed\<close> reply reports a review step of the range that
  was in flight, and every other step belongs to the operation that asked for it.
\<close>

inductive op_effect :: "store_op \<Rightarrow> reply \<Rightarrow> repository_state \<Rightarrow> repository_state \<Rightarrow> bool" where
  stutter: "stutters state state' \<Longrightarrow> (\<And>rng p. reply \<noteq> Completion (Completed rng p)) \<Longrightarrow>
     op_effect op reply state state'"
| seeded: "steps branch (Seed revision) state state' \<Longrightarrow>
     op_effect (SeedCursor branch revision) Done state state'"
| admitted: "steps branch (Admission_of head) state state' \<Longrightarrow>
     op_effect (Admit branch head) (Admission (Admitted rng)) state state'"
| failed: "steps branch Give_up state state' \<Longrightarrow>
     op_effect (FailRange branch head reason) Done state state'"
| reviewed: "steps (record_branch record) (Review_of (record_head record)) state state' \<Longrightarrow>
     phase_at state (record_branch record) = Reviewing (range_base rng) (range_head rng) \<Longrightarrow>
     op_effect (Complete record) (Completion (Completed rng p)) state state'"

text \<open>
  \<open>update_delivery\<close> does not validate the revision it is given; its callers pass the head of a
  stored record.
\<close>

fun op_wf :: "store_op \<Rightarrow> bool" where
  "op_wf (UpdateDelivery branch head channel state) = revision_ok head"
| "op_wf _ = True"

lemma stutters_refl [simp]: "stutters state state"
  by (simp add: stutters_def)

lemma phase_at_rooted [simp]: "phase_at (rooted store state) branch = phase_at state branch"
  by (simp add: phase_at_def)

lemma stutters_rooted [simp]: "stutters state (rooted store state') = stutters state state'"
  by (simp add: stutters_def)

lemma steps_rooted [simp]: "steps b e state (rooted store state') = steps b e state state'"
  by (simp add: steps_def)

lemma phase_of_bookkeeping [simp]:
  "phase_of (bs\<lparr>updated_at := t\<rparr>) = phase_of bs"
  "phase_of (bs\<lparr>last_failure := f\<rparr>) = phase_of bs"
  "phase_of (bs\<lparr>last_observation_failure := f'\<rparr>) = phase_of bs"
  by (simp_all add: phase_of_def split: option.split)

lemma phase_at_put [simp]:
  "phase_at (put_branch state branch bs) b = (if b = branch then phase_of bs else phase_at state b)"
  by (simp add: phase_at_def)

lemma phase_at_get: "bt_get (branches state) branch = Some bs \<Longrightarrow> phase_at state branch = phase_of bs"
  by (simp add: phase_at_def branch_entry_def)

subsection \<open>The decisions as steps\<close>

lemma decide_seed_steps:
  assumes "decide_seed branch revision now state = Ok (Update state' x)"
  shows "steps branch (Seed revision) state state'"
  using assms
  by (auto simp: decide_seed_def Let_def steps_def phase_at_def phase_of_def split: option.splits if_splits)

lemma decide_observation_stutters:
  "decide_observation_failure branch kind message now state = Ok (Update state' x) \<Longrightarrow> stutters state state'"
  by (auto simp: decide_observation_failure_def stutters_def) (simp add: phase_at_def)

lemma decide_clear_stutters:
  "decide_clear_observation branch now state = Ok (Update state' x) \<Longrightarrow> stutters state state'"
  by (auto simp: decide_clear_observation_def stutters_def phase_at_get split: option.splits if_splits)

lemma decide_admit_steps:
  assumes "decide_admit branch head now state = Ok (Update state' x)"
  shows "steps branch (Admission_of head) state state'"
  using assms
  by (auto simp: decide_admit_def Let_def steps_def phase_at_get phase_of_def split: option.splits if_splits)

lemma decide_retry_stutters:
  "decide_retry branch head now state = Ok (Update state' x) \<Longrightarrow> stutters state state'"
  by (auto simp: decide_retry_def Let_def stutters_def phase_at_get phase_of_def split: option.splits if_splits)

lemma decide_fail_steps:
  assumes "state_wf state" "decide_fail branch head reason now state = Ok (Update state' x)"
  shows "steps branch Give_up state state'"
proof -
  obtain bs rng where bs: "bt_get (branches state) branch = Some bs" "in_flight bs = Some rng"
    and phase: "phase_at state' branch = phase_of (bs\<lparr>in_flight := None\<rparr>)"
      "\<And>other. other \<noteq> branch \<Longrightarrow> phase_at state' other = phase_at state other"
    using assms(2) by (auto simp: decide_fail_def split: option.splits if_splits)
  have "cursor bs = Some (range_base rng)"
    using in_flight_wfD [OF get_branch_wf [OF assms(1) bs(1)] bs(2)] by simp
  with bs phase show ?thesis by (simp add: steps_def phase_at_get phase_of_def)
qed

lemma advance_steps:
  assumes "bt_get (branches state) (record_branch record) = Some bs" "in_flight bs = Some rng"
    "matches_range record rng"
  shows "steps (record_branch record) (Review_of (record_head record)) state
    (put_branch state (record_branch record) (advanced_branch bs (record_head record) t))"
  using assms
  by (simp add: steps_def phase_at_get phase_of_def matches_range_def advanced_branch_def)


subsection \<open>The refinement\<close>

lemma transact_effect:
  assumes run: "transact env codec store decide disk = (r, disk')" and codec: "codec_ok codec"
    and stored: "stored_state codec store disk = Some state" and wf: "state_wf state"
    and keeps: "keeps_wf decide"
  obtains (same) "stored_state codec store disk' = Some state" "\<forall>x. r = Ok x \<longrightarrow> decide state = Ok (Keep x)"
  | (changed) state' x where "decide state = Ok (Update state' x)" "r = Ok x" "state_wf state'"
      "stored_state codec store disk' = Some (rooted store state')"
  using run codec
proof (cases rule: transact_cases)
  case (failed e)
  then have "stored_state codec store disk' = Some state"
    using stored stored_state_agree [OF failed(2)] by simp
  with failed show thesis by (intro same) auto
next
  case (kept state' x)
  with stored show thesis by (intro same) auto
next
  case (updated state0 state' x)
  then have "state_wf state'" using keeps wf stored by (auto simp: keeps_wf_def)
  with updated stored show thesis by (intro changed) auto
qed

lemma reply_of_eq:
  "reply_of f q = (reply, disk') \<longleftrightarrow>
     (\<exists>r. q = (r, disk') \<and> reply = (case r of Ok x \<Rightarrow> f x | Err e \<Rightarrow> Refused e))"
  by (cases q; cases "fst q") auto

text \<open>An operation that is one transaction: its effect follows from that of its decision.\<close>

lemma transact_op_effect:
  assumes run: "reply_of f (transact env codec store decide disk) = (reply, disk')"
    and codec: "codec_ok codec" and stored: "stored_state codec store disk = Some state"
    and wf: "state_wf state" and keeps: "keeps_wf decide"
    and no_completion: "\<And>x rng p. f x \<noteq> Completion (Completed rng p)"
    and effect: "\<And>state' x. decide state = Ok (Update state' x) \<Longrightarrow> op_effect op (f x) state (rooted store state')"
  shows "\<exists>state'. stored_state codec store disk' = Some state' \<and> state_wf state' \<and> op_effect op reply state state'"
proof -
  from run obtain r where r: "transact env codec store decide disk = (r, disk')"
    and reply: "reply = (case r of Ok x \<Rightarrow> f x | Err e \<Rightarrow> Refused e)" by (auto simp: reply_of_eq)
  from r codec stored wf keeps show ?thesis
  proof (cases rule: transact_effect)
    case same
    have "op_effect op reply state state"
      using no_completion by (intro op_effect.stutter) (auto simp: reply split: result.splits)
    with same wf show ?thesis by blast
  next
    case (changed state' x)
    with effect reply show ?thesis by auto
  qed
qed

lemma refused_effect:
  "stored_state codec store disk = Some state \<Longrightarrow> state_wf state \<Longrightarrow>
   \<exists>state'. stored_state codec store disk = Some state' \<and> state_wf state' \<and> op_effect op (Refused e) state state'"
  by (auto intro: op_effect.stutter)


lemma touched_not_state:
  "revision_ok (record_head record) \<Longrightarrow> state_path store \<notin> touched store record"
  using record_path_not_state [OF revision_ok_no_slash, of "record_head record" store "record_branch record"]
  by (auto simp: touched_def Let_def)

lemma advanced_branch_wf: "revision_ok head \<Longrightarrow> branch_wf (advanced_branch bs head t)"
  by (simp add: advanced_branch_def branch_wf_slot(2))

lemma complete_effect:
  assumes run: "complete env codec store record disk = (r, disk')"
    and codec: "codec_ok codec" and stored: "stored_state codec store disk = Some state"
    and wf: "state_wf state"
  shows "\<exists>state'. stored_state codec store disk' = Some state' \<and> state_wf state'
    \<and> op_effect (Complete record) (case r of Ok x \<Rightarrow> Completion x | Err e \<Rightarrow> Refused e) state state'"
  using run
proof (cases rule: complete_cases)
  case (rejected e)
  with refused_effect [OF stored wf] show ?thesis by simp
next
  case (locked state0)
  let ?rec = "stamp_completed (now_iso env 0) record"
  have "state0 = state" using locked(4) stored by simp
  with locked have step: "complete_locked env codec store ?rec state disk = (r, disk')" by simp
  have head: "revision_ok (record_head ?rec)" using locked by simp
  from step codec head show ?thesis
  proof (cases rule: complete_locked_cases)
    case (failed e)
    then have "stored_state codec store disk' = Some state"
      using stored_state_agree [OF failed(2)] touched_not_state [OF head] stored by simp
    with failed wf show ?thesis by (auto intro: op_effect.stutter)
  next
    case (replayed bs)
    with stored wf show ?thesis by (auto intro!: op_effect.stutter)
  next
    case (completed bs rng t)
    let ?state' = "rooted store (put_branch state (record_branch record) (advanced_branch bs (record_head record) t))"
    have "state_wf ?state'" using wf head by (simp add: put_branch_wf advanced_branch_wf)
    moreover have "op_effect (Complete record) (Completion (Completed rng
        (record_path store (record_branch record) (record_head record)))) state ?state'"
      using completed advance_steps [of state "record" bs rng t]
      by (intro op_effect.reviewed) (simp_all add: phase_at_get phase_of_def)
    ultimately show ?thesis using completed by auto
  qed
qed

lemma update_delivery_agree:
  assumes "update_delivery env codec store branch head channel ds disk = (r, disk')"
    "codec_ok codec" "revision_ok head"
  shows "agree_off {record_path store branch head, temp_path (record_path store branch head)} disk disk'"
proof -
  have "record_path store branch head \<noteq> temp_path (record_path store branch head)"
    using assms(3) revision_ok_no_slash revision_ok_no_dot by simp
  from update_delivery_cases [OF assms(1,2) refl this] show ?thesis
    by (auto simp: agree_off_def)
qed

definition refines_op :: "'b codec \<Rightarrow> store \<Rightarrow> store_op \<Rightarrow> reply \<Rightarrow> repository_state \<Rightarrow> 'b disk \<Rightarrow> bool" where
  "refines_op codec store op reply state disk' \<longleftrightarrow>
     (\<exists>state'. stored_state codec store disk' = Some state' \<and> state_wf state' \<and> op_effect op reply state state')"

lemma seed_refines:
  assumes "codec_ok codec" "stored_state codec store disk = Some state" "state_wf state"
    and run: "run_op env codec store (SeedCursor branch revision) disk = (reply, disk')"
  shows "refines_op codec store (SeedCursor branch revision) reply state disk'"
proof (cases "revision_ok revision")
  case True
  with run have "reply_of (\<lambda>_. Done) (transact env codec store
      (decide_seed branch revision (now_iso env)) disk) = (reply, disk')"
    by (simp add: seed_cursor_def validate_revision_cases)
  then show ?thesis unfolding refines_op_def
    by (rule transact_op_effect [OF _ assms(1-3) decide_seed_wf [OF True]])
      (auto intro!: op_effect.seeded dest: decide_seed_steps)
next
  case False
  with run refused_effect [OF assms(2,3)] show ?thesis
    by (auto simp: refines_op_def seed_cursor_def validate_revision_cases throw_def)
qed

lemma admit_refines:
  assumes "codec_ok codec" "stored_state codec store disk = Some state" "state_wf state"
    and run: "run_op env codec store (Admit branch head) disk = (reply, disk')"
  shows "refines_op codec store (Admit branch head) reply state disk'"
proof (cases "revision_ok head")
  case True
  with run have "reply_of Admission (transact env codec store
      (decide_admit branch head (now_iso env)) disk) = (reply, disk')"
    by (simp add: admit_def validate_revision_cases)
  then show ?thesis unfolding refines_op_def
  proof (rule transact_op_effect [OF _ assms(1-3) decide_admit_wf [OF True]])
    fix state' x
    assume dec: "decide_admit branch head (now_iso env) state = Ok (Update state' x)"
    then obtain rng where x: "x = Admitted rng"
      by (auto simp: decide_admit_def Let_def split: option.splits if_splits)
    from decide_admit_steps [OF dec] show "op_effect (Admit branch head) (Admission x) state (rooted store state')"
      unfolding x by (intro op_effect.admitted) simp
  qed simp
next
  case False
  with run refused_effect [OF assms(2,3)] show ?thesis
    by (auto simp: refines_op_def admit_def validate_revision_cases throw_def)
qed

lemma update_delivery_refines:
  assumes codec: "codec_ok codec" and stored: "stored_state codec store disk = Some state"
    and wf: "state_wf state" and head: "revision_ok head"
    and run: "run_op env codec store (UpdateDelivery branch head channel ds) disk = (reply, disk')"
  shows "refines_op codec store (UpdateDelivery branch head channel ds) reply state disk'"
proof -
  from run obtain r where r: "update_delivery env codec store branch head channel ds disk = (r, disk')"
    and reply: "reply = (case r of Ok x \<Rightarrow> Done | Err e \<Rightarrow> Refused e)"
    by (auto simp: reply_of_eq)
  note paths = record_path_not_state [OF revision_ok_no_slash [OF head], of store branch]
  have "stored_state codec store disk' = Some state"
    using stored_state_agree [OF update_delivery_agree [OF r codec head], of store codec] stored
      paths(1) [symmetric] paths(3) [symmetric] by simp
  with wf reply show ?thesis
    by (auto simp: refines_op_def intro!: op_effect.stutter split: result.splits)
qed

lemma run_op_effect:
  assumes codec: "codec_ok codec" and stored: "stored_state codec store disk = Some state"
    and wf: "state_wf state" and op: "op_wf op" and run: "run_op env codec store op disk = (reply, disk')"
  shows "refines_op codec store op reply state disk'"
proof (cases op)
  case (SeedCursor branch revision)
  with seed_refines [OF codec stored wf] run show ?thesis by blast
next
  case (RecordObservationFailure branch kind message)
  with run show ?thesis unfolding refines_op_def
    by (intro transact_op_effect [OF _ codec stored wf decide_observation_failure_wf])
      (auto simp: record_observation_failure_def intro!: op_effect.stutter dest: decide_observation_stutters)
next
  case (ClearObservationFailure branch)
  with run show ?thesis unfolding refines_op_def
    by (intro transact_op_effect [OF _ codec stored wf decide_clear_observation_wf])
      (auto simp: clear_observation_failure_def intro!: op_effect.stutter dest: decide_clear_stutters)
next
  case (Admit branch head)
  with admit_refines [OF codec stored wf] run show ?thesis by blast
next
  case (RetryAttempt branch head)
  with run show ?thesis unfolding refines_op_def
    by (intro transact_op_effect [OF _ codec stored wf decide_retry_wf])
      (auto simp: retry_attempt_def intro!: op_effect.stutter dest: decide_retry_stutters)
next
  case (FailRange branch head reason)
  with run wf show ?thesis unfolding refines_op_def
    by (intro transact_op_effect [OF _ codec stored wf decide_fail_wf])
      (auto simp: fail_range_def intro!: op_effect.failed dest: decide_fail_steps)
next
  case (Complete review)
  with run obtain r where "complete env codec store review disk = (r, disk')"
    "reply = (case r of Ok x \<Rightarrow> Completion x | Err e \<Rightarrow> Refused e)" by (auto simp: reply_of_eq)
  with complete_effect [OF _ codec stored wf] Complete show ?thesis unfolding refines_op_def by blast
next
  case (UpdateDelivery branch head channel ds)
  with update_delivery_refines [OF codec stored wf] op run show ?thesis by simp
qed

end
