(* ===== verification/Store_Properties.thy ===== *)
theory Store_Properties
  imports State_Spec
begin

text \<open>
  Properties of whole runs of the store: any sequence of operations, each under its own environment
  (faults, torn writes, contention, clock), starting from a repository without state.
\<close>

subsection \<open>Traces\<close>

inductive runs :: "'b codec \<Rightarrow> store \<Rightarrow> 'b disk \<Rightarrow> (store_op \<times> reply) list \<Rightarrow> 'b disk \<Rightarrow> bool"
  for codec store disk where
  start: "runs codec store disk [] disk"
| step: "runs codec store disk trace d \<Longrightarrow> op_wf op \<Longrightarrow>
     run_op (env :: 'b env) codec store op d = (reply, d') \<Longrightarrow>
     runs codec store disk (trace @ [(op, reply)]) d'"

definition fresh_disk :: "store \<Rightarrow> 'b disk \<Rightarrow> bool" where
  "fresh_disk store disk \<longleftrightarrow> bt_get disk (state_path store) = None
     \<and> (\<forall>rest. bt_get disk (store_repo_dir store @ ''records'' # rest) = None)"

text \<open>The ranges the trace reports as completed on a branch, in order.\<close>

fun completed_by :: "string \<Rightarrow> store_op \<times> reply \<Rightarrow> review_range list" where
  "completed_by branch (Complete record, Completion (Completed rng p)) =
     (if record_branch record = branch then [rng] else [])"
| "completed_by branch _ = []"

definition completed_ranges :: "string \<Rightarrow> (store_op \<times> reply) list \<Rightarrow> review_range list" where
  "completed_ranges branch trace = concat (map (completed_by branch) trace)"

text \<open>The ranges lead from one revision to another without a gap or an overlap.\<close>

fun tiles :: "string \<Rightarrow> review_range list \<Rightarrow> string \<Rightarrow> bool" where
  "tiles base [] tip \<longleftrightarrow> base = tip"
| "tiles base (rng # rest) tip \<longleftrightarrow> range_base rng = base \<and> tiles (range_head rng) rest tip"

lemma tiles_snoc: "tiles a (rs @ [r]) c \<longleftrightarrow> tiles a rs (range_base r) \<and> range_head r = c"
  by (induction rs arbitrary: a) auto

definition reviewed_upto :: "string \<Rightarrow> (store_op \<times> reply) list \<Rightarrow> string \<Rightarrow> bool" where
  "reviewed_upto branch trace revision \<longleftrightarrow>
     (\<exists>baseline. (SeedCursor branch baseline, Done) \<in> set trace
        \<and> tiles baseline (completed_ranges branch trace) revision)"

fun phase_explained :: "string \<Rightarrow> (store_op \<times> reply) list \<Rightarrow> phase \<Rightarrow> bool" where
  "phase_explained branch trace Unseeded \<longleftrightarrow> completed_ranges branch trace = []"
| "phase_explained branch trace (Idle revision) \<longleftrightarrow> reviewed_upto branch trace revision"
| "phase_explained branch trace (Reviewing base head) \<longleftrightarrow> reviewed_upto branch trace base"

lemma completed_ranges_snoc [simp]:
  "completed_ranges branch (trace @ [x]) = completed_ranges branch trace @ completed_by branch x"
  by (simp add: completed_ranges_def)

lemma completed_by_other [simp]: "(\<And>rng p. reply \<noteq> Completion (Completed rng p)) \<Longrightarrow> completed_by branch (op, reply) = []"
  by (cases "(branch, op, reply)" rule: completed_by.cases) auto

lemma phase_explained_same:
  "completed_by branch x = [] \<Longrightarrow> phase_explained branch trace q \<Longrightarrow> phase_explained branch (trace @ [x]) q"
  by (cases q) (auto simp: reviewed_upto_def)

lemma effect_explained:
  assumes "op_effect op reply state state'" "\<And>b. phase_explained b trace (phase_at state b)"
  shows "phase_explained b (trace @ [(op, reply)]) (phase_at state' b)"
  using assms(1)
proof cases
  case stutter
  then show ?thesis using assms(2) phase_explained_same [OF completed_by_other]
    by (simp add: stutters_def)
next
  case (seeded branch revision)
  show ?thesis
  proof (cases "b = branch")
    case True
    then have "phase_at state b = Unseeded" "phase_at state' b = Idle revision"
      using seeded by (auto simp: steps_def)
    then show ?thesis using assms(2) [of b] seeded True by (auto simp: reviewed_upto_def)
  next
    case False
    then show ?thesis using assms(2) [of b] seeded by (auto simp: steps_def intro: phase_explained_same)
  qed
next
  case (admitted branch head rng)
  have "phase_explained b (trace @ [(op, reply)]) (phase_at state b)"
    using assms(2) admitted by (auto intro: phase_explained_same)
  then show ?thesis using admitted by (cases "b = branch") (auto simp: steps_def)
next
  case (failed branch head reason)
  have "phase_explained b (trace @ [(op, reply)]) (phase_at state b)"
    using assms(2) failed by (auto intro: phase_explained_same)
  then show ?thesis using failed by (cases "b = branch") (auto simp: steps_def)
next
  case (reviewed review rng p)
  show ?thesis
  proof (cases "b = record_branch review")
    case True
    then have "reviewed_upto b trace (range_base rng)" "phase_at state' b = Idle (range_head rng)"
      using reviewed assms(2) [of b] by (auto simp: steps_def)
    then show ?thesis using reviewed True by (auto simp: reviewed_upto_def tiles_snoc)
  next
    case False
    then show ?thesis using assms(2) [of b] reviewed by (auto simp: steps_def intro: phase_explained_same)
  qed
qed

lemma fresh_stored: "fresh_disk store disk \<Longrightarrow> stored_state codec store disk = Some default_repository_state"
  by (simp add: fresh_disk_def stored_state_def)

lemma runs_explained:
  assumes "runs codec store disk trace disk'" "codec_ok codec" "fresh_disk store disk"
  shows "\<exists>state. stored_state codec store disk' = Some state \<and> state_wf state
    \<and> (\<forall>b. phase_explained b trace (phase_at state b))"
  using assms(1)
proof induction
  case start
  have "phase_at default_repository_state b = Unseeded" for b
    by (simp add: phase_at_def branch_entry_def default_repository_state_def default_branch_state_def phase_of_def)
  then show ?case using fresh_stored [OF assms(3)] by (auto simp: completed_ranges_def)
next
  case (step trace d op env reply d')
  then obtain state where state: "stored_state codec store d = Some state" "state_wf state"
    "\<And>b. phase_explained b trace (phase_at state b)" by blast
  from run_op_effect [OF assms(2) state(1,2) step.hyps(2,3)] obtain state' where
    "stored_state codec store d' = Some state'" "state_wf state'" "op_effect op reply state state'"
    by (auto simp: refines_op_def)
  with effect_explained [OF this(3) state(3)] show ?case by blast
qed

lemma cursor_phase:
  assumes "state_wf state" "bt_get (branches state) branch = Some bs" "cursor bs = Some revision"
  shows "phase_at state branch = Idle revision \<or> (\<exists>head. phase_at state branch = Reviewing revision head)"
  using in_flight_wfD [OF get_branch_wf [OF assms(1,2)]] assms(3)
  by (auto simp: phase_at_get [OF assms(2)] phase_of_def split: option.splits)


subsection \<open>Records\<close>

text \<open>
  What one operation may do to a record file: leave it, write a record of that head (only where no
  file was seen), or replace its delivery map.
\<close>

definition record_fits :: "review_record \<Rightarrow> string \<Rightarrow> string \<Rightarrow> bool" where
  "record_fits record branch head \<longleftrightarrow> record_version record = RECORD_VERSION \<and> record_head record = head
     \<and> sanitize_branch (record_branch record) = sanitize_branch branch"

definition record_step ::
  "('b, 'z) env_scheme \<Rightarrow> 'b codec \<Rightarrow> store \<Rightarrow> string \<Rightarrow> string \<Rightarrow> 'b disk \<Rightarrow> 'b disk \<Rightarrow> bool" where
  "record_step env codec store branch head disk disk' \<longleftrightarrow>
     (let p = record_path store branch head
      in bt_get disk' p = bt_get disk p
       \<or> \<not> fs_exists env disk p
         \<and> (\<exists>record. stored_record codec store disk' branch head = Some record \<and> record_fits record branch head)
       \<or> (\<exists>record ds. stored_record codec store disk branch head = Some record
            \<and> stored_record codec store disk' branch head = Some (record\<lparr>delivery := ds\<rparr>)))"

lemma record_step_agree:
  assumes "agree_off {state_path store, temp_path (state_path store)} disk disk'" "revision_ok head"
  shows "record_step env codec store branch head disk disk'"
  using agree_offD [OF assms(1)] revision_ok_no_slash [OF assms(2)] by (simp add: record_step_def Let_def)

lemma transact_record_step:
  assumes "transact env codec store decide disk = (r, disk')" "codec_ok codec" "revision_ok head"
  shows "record_step env codec store branch head disk disk'"
  using assms(1,2)
proof (cases rule: transact_cases)
  case (failed e)
  then show ?thesis by (intro record_step_agree [OF _ assms(3)]) (auto simp: agree_off_def)
next
  case (kept state x)
  then show ?thesis by (simp add: record_step_def)
next
  case (updated state state' x)
  then show ?thesis by (intro record_step_agree [OF _ assms(3)])
qed

lemma persist_exists: "fs_exists env disk p \<Longrightarrow> persist_record env codec p record disk = (Ok (), disk)"
  by (simp add: persist_record_def)

lemma complete_locked_exists:
  assumes run: "complete_locked env codec store record state disk = (r, disk')" and codec: "codec_ok codec"
    and ex: "fs_exists env disk (record_path store (record_branch record) (record_head record))"
  shows "agree_off {state_path store, temp_path (state_path store)} disk disk'"
proof -
  let ?p = "record_path store (record_branch record) (record_head record)"
  consider "disk' = disk"
  | state' x where "and_then (write_state env codec store state') (\<lambda>_. return x) disk = (r, disk')"
    using run persist_exists [OF ex, of codec "record"]
    by (auto simp: complete_locked_def Let_def and_then_def [of "persist_record _ _ _ _"]
        split: option.splits if_splits)
  then show ?thesis
  proof cases
    case (2 state' x)
    obtain w d where w: "write_state env codec store state' disk = (w, d)" by fastforce
    then have "d = disk'" using 2 by (auto simp: and_then_def split: result.splits)
    with w codec show ?thesis by (auto elim!: write_state_cases simp: agree_off_def)
  qed simp
qed

lemma complete_record_step:
  assumes run: "complete env codec store record disk = (r, disk')" and codec: "codec_ok codec"
    and head: "revision_ok head"
  shows "record_step env codec store branch head disk disk'"
  using run
proof (cases rule: complete_cases)
  case (rejected e)
  then show ?thesis by (simp add: record_step_def)
next
  case (locked state)
  let ?rec = "stamp_completed (now_iso env 0) record"
  let ?p = "record_path store (record_branch record) (record_head record)"
  have rhead: "revision_ok (record_head ?rec)" using locked by simp
  note chars = revision_ok_no_slash [OF head] revision_ok_no_dot [OF head]
  note rchars = revision_ok_no_slash [OF locked(3)] revision_ok_no_dot [OF locked(3)]
  show ?thesis
  proof (cases "fs_exists env disk ?p")
    case True
    with complete_locked_exists [OF locked(5) codec] show ?thesis
      by (intro record_step_agree [OF _ head]) simp
  next
    case absent: False
    from locked(5) codec rhead have kept: "record_kept codec store ?rec disk disk'"
      "agree_off (insert (state_path store) (touched store record)) disk disk'"
      by (auto elim!: complete_locked_cases simp: record_kept_def agree_off_def)
    show ?thesis
    proof (cases "record_path store branch head = ?p")
      case True
      then have same: "sanitize_branch branch = sanitize_branch (record_branch record)" "head = record_head record"
        using record_path_inject [OF chars(1) rchars(1)] by auto
      have "bt_get disk' ?p = bt_get disk ?p \<or>
        stored_record codec store disk' branch head = Some ?rec"
        using kept(1) True by (auto simp: record_kept_def Let_def stored_record_def)
      then show ?thesis using True absent same locked(1)
        by (auto simp: record_step_def Let_def record_fits_def)
    next
      case False
      then have "record_path store branch head \<notin> insert (state_path store) (touched store record)"
        using chars rchars by (simp add: touched_def Let_def)
      with kept(2) show ?thesis by (simp add: record_step_def Let_def agree_off_def)
    qed
  qed
qed

lemma update_delivery_record_step:
  assumes run: "update_delivery env codec store b h channel ds disk = (r, disk')" and codec: "codec_ok codec"
    and h: "revision_ok h" and head: "revision_ok head"
  shows "record_step env codec store branch head disk disk'"
proof -
  let ?p = "record_path store b h"
  note chars = revision_ok_no_slash [OF head] revision_ok_no_dot [OF head]
    revision_ok_no_slash [OF h] revision_ok_no_dot [OF h]
  have temp: "record_path store branch head \<noteq> temp_path ?p" "?p \<noteq> temp_path ?p"
    using chars by simp_all
  from run codec refl temp(2) show ?thesis
  proof (cases rule: update_delivery_cases)
    case (failed e)
    then show ?thesis using temp by (simp add: record_step_def agree_off_def)
  next
    case (updated review)
    show ?thesis
    proof (cases "record_path store branch head = ?p")
      case True
      then have "stored_record codec store d branch head = stored_record codec store d b h" for d
        by (simp add: stored_record_def)
      with updated show ?thesis by (auto simp: record_step_def Let_def)
    next
      case False
      with updated(5) temp show ?thesis by (simp add: record_step_def agree_off_def)
    qed
  qed
qed

lemma record_step_refl [simp]: "record_step env codec store branch head disk disk"
  by (simp add: record_step_def)

lemma run_op_record_step:
  assumes codec: "codec_ok codec" and op: "op_wf op" and head: "revision_ok head"
    and run: "run_op env codec store op disk = (reply, disk')"
  shows "record_step env codec store branch head disk disk'"
  using run op
  by (cases op)
    (auto intro: transact_record_step [OF _ codec head] complete_record_step [OF _ codec head]
      update_delivery_record_step [OF _ codec _ head] simp: reply_of_eq seed_cursor_def admit_def record_observation_failure_def
      clear_observation_failure_def retry_attempt_def fail_range_def validate_revision_cases
      split: if_splits)

definition record_present :: "'b codec \<Rightarrow> store \<Rightarrow> 'b disk \<Rightarrow> string \<Rightarrow> string \<Rightarrow> bool" where
  "record_present codec store disk branch head \<longleftrightarrow>
     (\<exists>record. stored_record codec store disk branch head = Some record \<and> record_fits record branch head)"

definition records_sound :: "'b codec \<Rightarrow> store \<Rightarrow> 'b disk \<Rightarrow> bool" where
  "records_sound codec store disk \<longleftrightarrow>
     (\<forall>branch head. revision_ok head \<longrightarrow> bt_get disk (record_path store branch head) \<noteq> None
        \<longrightarrow> record_present codec store disk branch head)"

lemma record_step_present:
  assumes "record_step env codec store branch head disk disk'" "record_present codec store disk branch head"
  shows "record_present codec store disk' branch head"
  using assms
  by (auto simp: record_step_def record_present_def record_fits_def Let_def stored_record_def split: option.splits)

lemma record_step_sound:
  assumes step: "\<And>branch head. revision_ok head \<Longrightarrow> record_step env codec store branch head disk disk'"
    and sound: "records_sound codec store disk"
  shows "records_sound codec store disk'"
  unfolding records_sound_def
proof (intro allI impI)
  fix branch head
  assume head: "revision_ok head" and there: "bt_get disk' (record_path store branch head) \<noteq> None"
  from step [OF head, of branch] show "record_present codec store disk' branch head"
  proof (cases "bt_get disk (record_path store branch head) = None")
    case True
    with step [OF head, of branch] there show ?thesis
      by (auto simp: record_step_def Let_def record_present_def stored_record_def)
  next
    case False
    with sound head have "record_present codec store disk branch head" by (simp add: records_sound_def)
    with record_step_present [OF step [OF head]] show ?thesis .
  qed
qed

lemma fresh_no_record: "fresh_disk store disk \<Longrightarrow> CHR ''/'' \<notin> set head \<Longrightarrow> bt_get disk (record_path store branch head) = None"
  by (simp add: fresh_disk_def record_path_eq records_branch_dir_eq)

lemma completed_file:
  assumes "run_op env codec store op disk = (reply, disk')" "codec_ok codec"
    "rng \<in> set (completed_by branch (op, reply))"
  shows "revision_ok (range_head rng) \<and> bt_get disk' (record_path store branch (range_head rng)) \<noteq> None"
proof -
  obtain review p where op: "op = Complete review" "reply = Completion (Completed rng p)" "record_branch review = branch"
    using assms(3) by (cases "(branch, op, reply)" rule: completed_by.cases) (auto split: if_splits)
  with assms(1) have run: "complete env codec store review disk = (Ok (Completed rng p), disk')"
    by (cases "complete env codec store review disk"; cases "fst (complete env codec store review disk)") auto
  then show ?thesis
  proof (cases rule: complete_cases)
    case (locked state)
    have head: "revision_ok (record_head (stamp_completed (now_iso env 0) review))" using locked by simp
    from locked(5) assms(2) head show ?thesis
      by (cases rule: complete_locked_cases) (use op locked in \<open>auto simp: matches_range_def\<close>)
  qed simp
qed

lemma runs_records:
  assumes "runs codec store disk trace disk'" "codec_ok codec" "fresh_disk store disk"
  shows "records_sound codec store disk' \<and>
    (\<forall>branch. \<forall>rng \<in> set (completed_ranges branch trace). revision_ok (range_head rng)
       \<and> record_present codec store disk' branch (range_head rng))"
  using assms(1)
proof induction
  case start
  show ?case using fresh_no_record [OF assms(3)] revision_ok_no_slash
    by (auto simp: records_sound_def completed_ranges_def)
next
  case (step trace d op env reply d')
  note rstep = run_op_record_step [OF assms(2) step.hyps(2) _ step.hyps(3)]
  have sound: "records_sound codec store d'" using step.IH record_step_sound [OF rstep] by blast
  show ?case
  proof (intro conjI allI ballI)
    fix branch rng
    assume "rng \<in> set (completed_ranges branch (trace @ [(op, reply)]))"
    then consider "rng \<in> set (completed_ranges branch trace)" | "rng \<in> set (completed_by branch (op, reply))"
      by auto
    then have "revision_ok (range_head rng) \<and> record_present codec store d' branch (range_head rng)"
    proof cases
      case 1
      with step.IH record_step_present [OF rstep] show ?thesis by blast
    next
      case 2
      with completed_file [OF step.hyps(3) assms(2)] sound show ?thesis by (auto simp: records_sound_def)
    qed
    then show "revision_ok (range_head rng)" "record_present codec store d' branch (range_head rng)" by blast+
  qed (rule sound)
qed

end
