(* ===== verification/Store_Healthy.thy ===== *)
theory Store_Healthy
  imports Store_Properties
begin

text \<open>
  What the operations of the store return when the environment does not fail: no I/O fault, a free
  lock, a serializer that accepts every value. These lemmas give the outcomes, where the
  elimination rules of \<open>Repo_Lemmas\<close> bound them under faults.
\<close>

definition quiet :: "('b, 'z) env_scheme \<Rightarrow> bool" where
  "quiet env \<longleftrightarrow> (\<forall>op. io_fault env op = None) \<and> lock_attempt env 0 = Ok ()"

definition codec_total :: "'b codec \<Rightarrow> bool" where
  "codec_total codec \<longleftrightarrow> (\<forall>state. is_ok (state_to_json codec state)) \<and> (\<forall>record. is_ok (record_to_json codec record))"

lemma acquire_lock_quiet: "quiet env \<Longrightarrow> acquire_lock env store = Ok ()"
  using lock_loop.simps(2) [of env 9 0 None]
  by (simp add: acquire_lock_def quiet_def fs_create_dir_all_def numeral_eq_Suc)

lemma read_state_quiet:
  assumes "quiet env" "stored_state codec store disk = Some state" "state_version state = STATE_VERSION"
  shows "read_state env codec store disk = Ok state"
  using assms
  by (cases "bt_get disk (state_path store)"; cases "state_from_json codec (the (bt_get disk (state_path store)))")
    (auto simp: read_state_def stored_state_def fs_read_def quiet_def)

lemma atomic_write_quiet: "quiet env \<Longrightarrow> fst (atomic_write env p b disk) = Ok ()"
  by (simp add: atomic_write_def and_then_def map_error_def fs_write_def fs_rename_def quiet_def bt_simps)

lemma write_state_quiet:
  assumes "quiet env" "codec_total codec"
  obtains disk' where "write_state env codec store state disk = (Ok (), disk')"
proof -
  obtain body where "state_to_json codec (state\<lparr>state_git_root := Some (path_string (store_git_root store))\<rparr>) = Ok body"
    using assms(2) by (auto simp: codec_total_def is_ok_iff)
  then have "fst (write_state env codec store state disk) = Ok ()"
    using atomic_write_quiet [OF assms(1)] by (simp add: write_state_def)
  then show thesis using that by (cases "write_state env codec store state disk") auto
qed

lemma transact_quiet:
  assumes env: "quiet env" "codec_total codec" and stored: "stored_state codec store disk = Some state"
    and wf: "state_wf state"
  shows "decide state = Err e \<Longrightarrow> transact env codec store decide disk = (Err e, disk)"
    and "decide state = Ok (Keep x) \<Longrightarrow> transact env codec store decide disk = (Ok x, disk)"
    and "decide state = Ok (Update state' x) \<Longrightarrow> \<exists>disk'. transact env codec store decide disk = (Ok x, disk')"
proof -
  have read: "read_state env codec store disk = Ok state"
    using read_state_quiet [OF env(1) stored] wf by (simp add: state_wf_def)
  note start = acquire_lock_quiet [OF env(1)] read
  show "decide state = Err e \<Longrightarrow> transact env codec store decide disk = (Err e, disk)"
    "decide state = Ok (Keep x) \<Longrightarrow> transact env codec store decide disk = (Ok x, disk)"
    using start by (simp_all add: transact_def and_then_read)
  assume "decide state = Ok (Update state' x)"
  moreover obtain disk' where "write_state env codec store state' disk = (Ok (), disk')"
    using env by (rule write_state_quiet)
  ultimately have "transact env codec store decide disk = (Ok x, disk')"
    using start by (simp add: transact_def and_then_read and_then_def [of "write_state _ _ _ _"])
  then show "\<exists>disk'. transact env codec store decide disk = (Ok x, disk')" ..
qed

text \<open>The update arm with its effect.\<close>

lemma transact_quiet_update:
  assumes "quiet env" "codec_total codec" "codec_ok codec" "stored_state codec store disk = Some state"
    "state_wf state" "decide state = Ok (Update state' x)"
  obtains disk' where "transact env codec store decide disk = (Ok x, disk')"
    "stored_state codec store disk' = Some (rooted store state')"
    "agree_off {state_path store, temp_path (state_path store)} disk disk'"
proof -
  obtain disk' where run: "transact env codec store decide disk = (Ok x, disk')"
    using transact_quiet(3) [of env codec store disk state decide state' x] assms by blast
  from run assms(3) show thesis
    by (cases rule: transact_cases) (use run assms that in auto)
qed

lemma persist_quiet:
  assumes "quiet env" "codec_total codec"
  obtains disk' where "persist_record env codec p record disk = (Ok (), disk')"
proof (cases "fs_exists env disk p")
  case True
  then show thesis using that persist_exists by blast
next
  case False
  obtain body where "record_to_json codec record = Ok body"
    using assms(2) by (auto simp: codec_total_def is_ok_iff)
  with False assms(1) have "fst (persist_record env codec p record disk) = Ok ()"
    using atomic_write_quiet [OF assms(1)] by (simp add: persist_record_def quiet_def fs_create_dir_all_def)
  then show thesis using that by (cases "persist_record env codec p record disk") auto
qed

text \<open>A record the store accepts for completion.\<close>

definition completable :: "review_record \<Rightarrow> bool" where
  "completable record \<longleftrightarrow> record_version record = RECORD_VERSION \<and> revision_ok (record_base record)
     \<and> revision_ok (record_head record) \<and> trim (record_branch record) \<noteq> []"

lemma complete_quiet_locked:
  assumes "quiet env" "completable record" "stored_state codec store disk = Some state" "state_wf state"
  shows "complete env codec store record disk =
    complete_locked env codec store (stamp_completed (now_iso env 0) record) state disk"
  using assms acquire_lock_quiet [OF assms(1)] read_state_quiet [OF assms(1,3)]
  by (simp add: complete_def completable_def validate_revision_cases state_wf_def and_then_read)

lemma complete_quiet:
  assumes env: "quiet env" "codec_total codec" "codec_ok codec" and rec: "completable record"
    and stored: "stored_state codec store disk = Some state" "state_wf state"
    and slot: "bt_get (branches state) (record_branch record) = Some bs" "in_flight bs = Some rng"
      "matches_range record rng"
  defines "p \<equiv> record_path store (record_branch record) (record_head record)"
  obtains disk' t where "complete env codec store record disk = (Ok (Completed rng p), disk')"
    "stored_state codec store disk' = Some (rooted store (put_branch state (record_branch record)
       (advanced_branch bs (record_head record) t)))"
    "bt_get disk' p \<noteq> None" "bt_get disk p \<noteq> None \<Longrightarrow> bt_get disk' p = bt_get disk p"
proof -
  let ?rec = "stamp_completed (now_iso env 0) record"
  let ?state' = "put_branch state (record_branch record) (advanced_branch bs (record_head record) (now_iso env 1))"
  obtain d where d: "persist_record env codec p ?rec disk = (Ok (), d)" using env(1,2) by (rule persist_quiet)
  obtain d' where d': "write_state env codec store ?state' d = (Ok (), d')" using env(1,2) by (rule write_state_quiet)
  have run: "complete env codec store record disk = (Ok (Completed rng p), d')"
    using complete_quiet_locked [OF env(1) rec stored] slot d d'
    by (simp add: complete_locked_def Let_def p_def and_then_def return_def)
  have "revision_ok (record_head ?rec)" using rec by (simp add: completable_def)
  note chars = revision_ok_no_slash [OF this] revision_ok_no_dot [OF this]
  have stays: "bt_get d' p = bt_get d p"
    using d' env(3) chars by (auto elim!: write_state_cases simp: p_def agree_off_def)
  have d_ne: "bt_get d p \<noteq> None"
    using persist_record_kept(3) [OF d env(3), of store] chars by (simp add: p_def)
  have "stored_state codec store d' = Some (rooted store ?state')"
    using d' env(3) by (auto elim: write_state_cases)
  moreover have "bt_get d p = bt_get disk p" if "bt_get disk p \<noteq> None"
    using d that env(1) by (simp add: persist_record_def fs_exists_def quiet_def)
  ultimately show thesis using that run stays d_ne by auto
qed

lemma complete_quiet_replay:
  assumes env: "quiet env" and rec: "completable record"
    and stored: "stored_state codec store disk = Some state" "state_wf state"
    and slot: "bt_get (branches state) (record_branch record) = Some bs" "in_flight bs = None"
      "cursor bs = Some (record_head record)"
    and there: "bt_get disk (record_path store (record_branch record) (record_head record)) \<noteq> None"
  shows "complete env codec store record disk = (Ok (AlreadyComplete (record_head record)
    (record_path store (record_branch record) (record_head record))), disk)"
  using complete_quiet_locked [OF env rec stored] slot there env
  by (simp add: complete_locked_def Let_def fs_exists_def quiet_def)

end
