(* ===== verification/Store_Theorems.thy ===== *)
theory Store_Theorems
  imports Store_Healthy
begin

text \<open>
  The properties of the Repository state store, each with a concrete run that meets its hypotheses.
  The runs use a serializer that keeps the values as they are.
\<close>

subsection \<open>A concrete repository\<close>

datatype stored_file = StateFile repository_state | RecordFile review_record

definition plain_codec :: "stored_file codec" where
  "plain_codec =
     \<lparr>state_to_json = (\<lambda>state. Ok (StateFile state)),
      state_from_json = (\<lambda>bytes. case bytes of StateFile state \<Rightarrow> Ok state | RecordFile _ \<Rightarrow> Err ''missing field''),
      record_to_json = (\<lambda>record. Ok (RecordFile record)),
      record_from_json = (\<lambda>bytes. case bytes of RecordFile record \<Rightarrow> Ok record | StateFile _ \<Rightarrow> Err ''missing field'')\<rparr>"

definition sample_store :: store where
  "sample_store = \<lparr>store_repo_dir = [''/'', ''agent'', ''big-brother'', ''repos'', ''srv-work''], store_git_root = [''/'', ''srv'', ''work'']\<rparr>"

definition rev_a :: string where "rev_a = replicate 40 (CHR ''a'')"

definition rev_b :: string where "rev_b = replicate 40 (CHR ''b'')"

definition rev_c :: string where "rev_c = replicate 40 (CHR ''c'')"

definition record_ab :: review_record where
  "record_ab = \<lparr>record_version = 1, record_branch = ''main'', record_base = rev_a, record_head = rev_b,
     record_attempts = 1, completed_at = [], record_layers = [], conclusion = Some ''ok'', delivery = []\<rparr>"

lemma sample_store_opened:
  "repo_slug [''/'', ''srv'', ''work''] = ''srv-work''"
  "sample_store = open_store [''/'', ''agent''] [''/'', ''srv'', ''work'']"
proof -
  have "repo_slug [''/'', ''srv'', ''work''] = trim_matches (CHR ''-'') ''-srv-work''"
    by (rule repo_slug_ascii [where s = "''/srv/work''"])
      (simp_all add: path_string_def path_is_absolute_def ascii_class_defs to_ascii_lowercase_char_def is_utf8_continuation_def)
  then show slug: "repo_slug [''/'', ''srv'', ''work''] = ''srv-work''" by (simp add: trim_matches_def)
  show "sample_store = open_store [''/'', ''agent''] [''/'', ''srv'', ''work'']"
    using repo_dir_eq [of "[''/'', ''srv'', ''work'']" "[''/'', ''agent'']"] by (simp add: sample_store_def open_store_def slug)
qed

lemma plain_codec_ok: "codec_ok plain_codec"
  by (simp add: codec_ok_def plain_codec_def)

lemma plain_codec_total: "codec_total plain_codec"
  by (simp add: codec_total_def plain_codec_def)

lemma quiet_env_quiet: "quiet quiet_env"
  by (simp add: quiet_def quiet_env_def)

lemma revisions_ok: "revision_ok rev_a" "revision_ok rev_b" "revision_ok rev_c"
  by (simp_all add: revision_ok_def rev_a_def rev_b_def rev_c_def is_ascii_hexdigit_def list_all_iff)

lemma revisions_distinct: "rev_a \<noteq> rev_b" "rev_b \<noteq> rev_c" "rev_a \<noteq> rev_c"
  by (simp_all add: rev_a_def rev_b_def rev_c_def numeral_eq_Suc)

lemma record_ab_completable: "completable record_ab"
proof -
  have "trim ''main'' \<noteq> []" by (simp add: trim_def is_whitespace_def is_utf8_continuation_def)
  then show ?thesis using revisions_ok by (simp add: completable_def record_ab_def RECORD_VERSION_def)
qed

subsection \<open>Outcomes of single operations\<close>

lemma seed_quiet:
  assumes env: "quiet env" "codec_total codec" "codec_ok codec" and rev: "revision_ok revision"
    and stored: "stored_state codec store disk = Some state" "state_wf state"
    and free: "phase_at state branch = Unseeded"
  obtains disk' t where "seed_cursor env codec store branch revision disk = (Ok (), disk')"
    "stored_state codec store disk' = Some (rooted store (put_branch state branch
       ((branch_entry state branch)\<lparr>cursor := Some revision, updated_at := t\<rparr>)))"
proof -
  have dec: "decide_seed branch revision (now_iso env) state = Ok (Update (put_branch state branch
      ((branch_entry state branch)\<lparr>cursor := Some revision, updated_at := now_iso env 0\<rparr>)) ())"
    using free by (auto simp: decide_seed_def Let_def phase_at_def phase_of_def split: option.splits)
  show thesis
    by (rule transact_quiet_update [of env codec store disk state "decide_seed branch revision (now_iso env)"])
      (use env stored dec that rev in \<open>auto simp: seed_cursor_def validate_revision_cases\<close>)
qed

lemma admit_quiet:
  assumes env: "quiet env" "codec_total codec" "codec_ok codec" and head: "revision_ok head"
    and stored: "stored_state codec store disk = Some state" "state_wf state"
    and slot: "bt_get (branches state) branch = Some bs" "cursor bs = Some base" "in_flight bs = None" "base \<noteq> head"
  obtains disk' rng t where "admit env codec store branch head disk = (Ok (Admitted rng), disk')"
    "range_base rng = base" "range_head rng = head" "range_attempts rng = 1"
    "stored_state codec store disk' = Some (rooted store (put_branch state branch
       (bs\<lparr>in_flight := Some rng, updated_at := t\<rparr>)))"
proof -
  let ?rng = "\<lparr>range_base = base, range_head = head, admitted_at = now_iso env 0,
    range_attempts = 1, attempt_started_at = now_iso env 1\<rparr>"
  have dec: "decide_admit branch head (now_iso env) state = Ok (Update (put_branch state branch
      (bs\<lparr>in_flight := Some ?rng, updated_at := now_iso env 2\<rparr>)) (Admitted ?rng))"
    using slot by (simp add: decide_admit_def Let_def)
  show thesis
    by (rule transact_quiet_update [of env codec store disk state "decide_admit branch head (now_iso env)"])
      (use env stored dec that [of ?rng] head in \<open>auto simp: admit_def validate_revision_cases\<close>)
qed

lemma fail_quiet:
  assumes env: "quiet env" "codec_total codec" "codec_ok codec"
    and stored: "stored_state codec store disk = Some state" "state_wf state"
    and slot: "bt_get (branches state) branch = Some bs" "in_flight bs = Some rng"
  obtains disk' t f where "fail_range env codec store branch (range_head rng) reason disk = (Ok (), disk')"
    "failure_base f = range_base rng" "failure_head f = range_head rng"
    "failure_attempts f = range_attempts rng" "failure_reason f = reason"
    "stored_state codec store disk' = Some (rooted store (put_branch state branch
       (bs\<lparr>in_flight := None, last_failure := Some f, updated_at := t\<rparr>)))"
proof -
  let ?f = "\<lparr>failure_base = range_base rng, failure_head = range_head rng,
    failure_attempts = range_attempts rng, failure_reason = reason, failed_at = now_iso env 0\<rparr>"
  have dec: "decide_fail branch (range_head rng) reason (now_iso env) state = Ok (Update (put_branch state branch
      (bs\<lparr>in_flight := None, last_failure := Some ?f, updated_at := now_iso env 1\<rparr>)) ())"
    using slot by (simp add: decide_fail_def)
  show thesis
    by (rule transact_quiet_update [of env codec store disk state "decide_fail branch (range_head rng) reason (now_iso env)"])
      (use env stored dec that [of _ ?f] in \<open>auto simp: fail_range_def\<close>)
qed

subsection \<open>A sample run: seed, admit, complete\<close>

lemma fresh_empty: "fresh_disk store []"
  by (simp add: fresh_disk_def)

lemma runs_one: "runs codec store disk trace d \<Longrightarrow> op_wf op \<Longrightarrow> run_op (env :: 'b env) codec store op d = (reply, d')
    \<Longrightarrow> runs codec store disk (trace @ [(op, reply)]) (d' :: 'b disk)"
  by (rule runs.step)

definition in_review_sample :: "(store_op \<times> reply) list \<Rightarrow> stored_file disk \<Rightarrow> repository_state
    \<Rightarrow> branch_state \<Rightarrow> review_range \<Rightarrow> bool" where
  "in_review_sample trace disk state bs rng \<longleftrightarrow>
     trace = [(SeedCursor ''main'' rev_a, Done), (Admit ''main'' rev_b, Admission (Admitted rng))]
   \<and> runs plain_codec sample_store [] trace disk
   \<and> stored_state plain_codec sample_store disk = Some state \<and> state_wf state
   \<and> bt_get (branches state) ''main'' = Some bs \<and> in_flight bs = Some rng \<and> cursor bs = Some rev_a
   \<and> range_base rng = rev_a \<and> range_head rng = rev_b"

lemma runs_wf:
  assumes "runs codec store disk trace disk'" "codec_ok codec" "fresh_disk store disk"
    "stored_state codec store disk' = Some state"
  shows "state_wf state"
  using runs_explained [OF assms(1-3)] assms(4) by auto

lemma sample_in_review: "\<exists>trace disk state bs rng. in_review_sample trace disk state bs rng"
proof -
  have fresh: "stored_state plain_codec sample_store [] = Some default_repository_state"
    "phase_at default_repository_state ''main'' = Unseeded"
    by (simp_all add: stored_state_def phase_at_def branch_entry_def default_repository_state_def
        default_branch_state_def phase_of_def)
  obtain d1 t1 where seed: "seed_cursor (quiet_env :: stored_file env) plain_codec sample_store ''main'' rev_a [] = (Ok (), d1)"
    "stored_state plain_codec sample_store d1 = Some (rooted sample_store (put_branch default_repository_state ''main''
       ((branch_entry default_repository_state ''main'')\<lparr>cursor := Some rev_a, updated_at := t1\<rparr>)))"
    by (rule seed_quiet [OF quiet_env_quiet plain_codec_total plain_codec_ok revisions_ok(1) fresh(1) default_state_wf fresh(2)])
  let ?s1 = "rooted sample_store (put_branch default_repository_state ''main''
       ((branch_entry default_repository_state ''main'')\<lparr>cursor := Some rev_a, updated_at := t1\<rparr>))"
  have "runs plain_codec sample_store [] ([] @ [(SeedCursor ''main'' rev_a, Done)]) d1"
    by (rule runs_one [OF runs.start, of _ quiet_env]) (use seed(1) in simp_all)
  then have run1: "runs plain_codec sample_store [] [(SeedCursor ''main'' rev_a, Done)] d1" by simp
  have wf1: "state_wf ?s1" using runs_wf [OF run1 plain_codec_ok fresh_empty seed(2)] .
  have slot1: "bt_get (branches ?s1) ''main'' = Some ((branch_entry default_repository_state ''main'')\<lparr>cursor := Some rev_a, updated_at := t1\<rparr>)"
    by (simp add: put_branch_def bt_simps)
  obtain d2 rng t2 where adm: "admit (quiet_env :: stored_file env) plain_codec sample_store ''main'' rev_b d1 = (Ok (Admitted rng), d2)"
    "range_base rng = rev_a" "range_head rng = rev_b"
    "stored_state plain_codec sample_store d2 = Some (rooted sample_store (put_branch ?s1 ''main''
       ((branch_entry default_repository_state ''main'')\<lparr>cursor := Some rev_a, updated_at := t1,
          in_flight := Some rng, updated_at := t2\<rparr>)))"
    by (rule admit_quiet [OF quiet_env_quiet plain_codec_total plain_codec_ok revisions_ok(2) seed(2) wf1 slot1])
      (use revisions_distinct in \<open>auto simp: branch_entry_def default_repository_state_def default_branch_state_def\<close>)
  have run2: "runs plain_codec sample_store [] ([(SeedCursor ''main'' rev_a, Done)] @ [(Admit ''main'' rev_b, Admission (Admitted rng))]) d2"
    by (rule runs_one [OF run1, of _ quiet_env]) (use adm(1) in simp_all)
  have "in_review_sample [(SeedCursor ''main'' rev_a, Done), (Admit ''main'' rev_b, Admission (Admitted rng))] d2
    (rooted sample_store (put_branch ?s1 ''main'' ((branch_entry default_repository_state ''main'')\<lparr>cursor := Some rev_a,
       updated_at := t1, in_flight := Some rng, updated_at := t2\<rparr>)))
    ((branch_entry default_repository_state ''main'')\<lparr>cursor := Some rev_a, updated_at := t1, in_flight := Some rng, updated_at := t2\<rparr>) rng"
    using run2 adm runs_wf [OF run2 plain_codec_ok fresh_empty adm(4)]
    by (simp add: in_review_sample_def put_branch_def bt_simps)
  then show ?thesis by blast
qed

lemma sample_completed:
  "\<exists>trace disk rng p state bs. runs plain_codec sample_store [] trace disk
     \<and> completed_ranges ''main'' trace = [rng] \<and> range_base rng = rev_a \<and> range_head rng = rev_b
     \<and> stored_state plain_codec sample_store disk = Some state
     \<and> bt_get (branches state) ''main'' = Some bs \<and> cursor bs = Some rev_b
     \<and> (Complete record_ab, Completion (Completed rng p)) \<in> set trace"
proof -
  obtain trace disk state bs rng where "in_review_sample trace disk state bs rng" using sample_in_review by blast
  then have trace: "trace = [(SeedCursor ''main'' rev_a, Done), (Admit ''main'' rev_b, Admission (Admitted rng))]"
    and run: "runs plain_codec sample_store [] trace disk"
    and stored: "stored_state plain_codec sample_store disk = Some state" "state_wf state"
    and slot: "bt_get (branches state) ''main'' = Some bs" "in_flight bs = Some rng"
    and rng: "range_base rng = rev_a" "range_head rng = rev_b"
    by (auto simp: in_review_sample_def)
  have rec: "record_branch record_ab = ''main''" "record_head record_ab = rev_b" "matches_range record_ab rng"
    using rng by (simp_all add: record_ab_def matches_range_def)
  let ?p = "record_path sample_store (record_branch record_ab) (record_head record_ab)"
  obtain disk' t where fin: "complete (quiet_env :: stored_file env) plain_codec sample_store record_ab disk = (Ok (Completed rng ?p), disk')"
    "stored_state plain_codec sample_store disk' = Some (rooted sample_store (put_branch state (record_branch record_ab)
       (advanced_branch bs (record_head record_ab) t)))"
    by (rule complete_quiet [OF quiet_env_quiet plain_codec_total plain_codec_ok record_ab_completable stored, of bs rng])
      (use slot rec in auto)
  have run': "runs plain_codec sample_store [] (trace @ [(Complete record_ab, Completion (Completed rng ?p))]) disk'"
    by (rule runs_one [OF run, of _ quiet_env]) (use fin(1) in simp_all)
  have "completed_ranges ''main'' (trace @ [(Complete record_ab, Completion (Completed rng ?p))]) = [rng]"
    using rec by (simp add: trace completed_ranges_def)
  moreover have "bt_get (branches (rooted sample_store (put_branch state (record_branch record_ab)
       (advanced_branch bs (record_head record_ab) t)))) ''main'' = Some (advanced_branch bs rev_b t)"
    by (simp add: rec put_branch_def bt_simps)
  moreover have "cursor (advanced_branch bs rev_b t) = Some rev_b" by (simp add: advanced_branch_def)
  ultimately show ?thesis using run' fin(2) rng by (metis in_set_conv_decomp)
qed

subsection \<open>Refusals, replays and contention\<close>

lemma transact_refused:
  assumes "transact env codec store decide disk = (Err e, disk')" "codec_ok codec"
  shows "stored_state codec store disk' = stored_state codec store disk"
  using assms by (cases rule: transact_cases) (auto intro: stored_state_agree)

lemma complete_refused:
  assumes run: "complete env codec store record disk = (Err e, disk')" and codec: "codec_ok codec"
  shows "stored_state codec store disk' = stored_state codec store disk"
  using run
proof (cases rule: complete_cases)
  case (locked state)
  then have head: "revision_ok (record_head (stamp_completed (now_iso env 0) record))" by simp
  from locked(5) codec head show ?thesis
    by (cases rule: complete_locked_cases)
      (use locked(3) touched_not_state in \<open>auto intro!: stored_state_agree\<close>)
qed simp

lemma update_delivery_state:
  assumes run: "update_delivery env codec store branch head channel ds disk = (r, disk')"
    and codec: "codec_ok codec" and head: "revision_ok head"
  shows "stored_state codec store disk' = stored_state codec store disk"
  using stored_state_agree [OF update_delivery_agree [OF run codec head], of store codec]
    record_path_not_state [OF revision_ok_no_slash [OF head], of store branch] by (metis insertE singletonD)

lemma reply_of_Refused: "(\<And>x. f x \<noteq> Refused e) \<Longrightarrow> reply_of f q = (Refused e, disk') \<longleftrightarrow> q = (Err e, disk')"
  by (cases q; cases "fst q") auto

lemma run_op_refused:
  assumes codec: "codec_ok codec" and op: "op_wf op" and run: "run_op env codec store op disk = (Refused e, disk')"
  shows "stored_state codec store disk' = stored_state codec store disk"
  using run op
  by (cases op)
    (auto intro: transact_refused [OF _ codec] complete_refused [OF _ codec] update_delivery_state [OF _ codec]
      simp: reply_of_Refused seed_cursor_def admit_def record_observation_failure_def
        clear_observation_failure_def retry_attempt_def fail_range_def validate_revision_cases
      split: if_splits)

lemma lock_loop_busy:
  "(\<And>k. attempt \<le> k \<Longrightarrow> k < attempt + n \<Longrightarrow> lock_attempt env k \<noteq> Ok ()) \<Longrightarrow>
   \<exists>msg. lock_loop env n attempt last_err = Err (LockError msg)"
proof (induction n arbitrary: attempt last_err)
  case 0
  show ?case by auto
next
  case (Suc n)
  have "lock_attempt env attempt \<noteq> Ok ()" using Suc.prems by simp
  then obtain kind msg where e: "lock_attempt env attempt = Err (IoError kind msg)"
    by (cases "lock_attempt env attempt") (auto intro: io_error.exhaust)
  have "\<exists>m. lock_loop env n (Suc attempt) le = Err (LockError m)" for le
    using Suc.prems by (intro Suc.IH) auto
  with e show ?case by simp
qed

lemma acquire_lock_busy:
  assumes "\<And>k. k < 10 \<Longrightarrow> lock_attempt env k \<noteq> Ok ()"
  shows "\<exists>e. acquire_lock env store = Err e"
  using lock_loop_busy [of 0 10 env None] assms
  by (cases "fs_create_dir_all env (store_repo_dir store)") (auto simp: acquire_lock_def)

lemma no_lock_no_write:
  assumes "acquire_lock env store = Err e"
  shows "\<exists>e'. run_op env codec store op disk = (Refused e', disk)"
  using assms
  by (cases op)
    (auto simp: seed_cursor_def admit_def record_observation_failure_def clear_observation_failure_def
      retry_attempt_def fail_range_def complete_def update_delivery_def transact_def
      validate_revision_cases throw_def Let_def)

subsection \<open>Admission by phase\<close>

lemma decide_admit_unseeded:
  "phase_at state branch = Unseeded \<Longrightarrow> decide_admit branch head now state = Err (NotSeeded branch)"
  by (auto simp: decide_admit_def phase_at_def branch_entry_def phase_of_def split: option.splits)

lemma idle_branch:
  assumes "phase_at state branch = Idle base"
  obtains bs where "bt_get (branches state) branch = Some bs" "cursor bs = Some base" "in_flight bs = None"
  using assms by (auto simp: phase_at_def branch_entry_def phase_of_def default_branch_state_def split: option.splits)

lemma decide_admit_reviewing:
  assumes wf: "state_wf state" and phase: "phase_at state branch = Reviewing base current"
  shows "\<exists>rng. in_flight (branch_entry state branch) = Some rng \<and> decide_admit branch head now state = Ok (Keep
      (if head = base then AlreadyReviewed head else if head = current then InReview rng else Busy rng))"
proof -
  obtain bs rng where bs: "bt_get (branches state) branch = Some bs" "in_flight bs = Some rng"
    "range_base rng = base" "range_head rng = current"
    using phase by (auto simp: phase_at_def branch_entry_def phase_of_def default_branch_state_def split: option.splits)
  have "cursor bs = Some base" using in_flight_wfD [OF get_branch_wf [OF wf bs(1)] bs(2)] bs by simp
  with bs show ?thesis by (auto simp: decide_admit_def branch_entry_def)
qed

subsection \<open>Properties\<close>

text \<open>
  C1. Whatever operations ran, under whatever faults, the cursor of a branch is where the completed
  ranges lead from the seeded baseline: they follow each other without a gap, an overlap or a
  repetition out of order, so no commit between the baseline and the cursor was skipped.
\<close>

theorem completed_ranges_tile:
  assumes "codec_ok codec" "fresh_disk store disk" "runs codec store disk trace disk'"
    and "stored_state codec store disk' = Some state"
    and "bt_get (branches state) branch = Some bs" "cursor bs = Some revision"
  shows "\<exists>baseline. (SeedCursor branch baseline, Done) \<in> set trace
    \<and> tiles baseline (completed_ranges branch trace) revision"
proof -
  have "state_wf state" "phase_explained branch trace (phase_at state branch)"
    using runs_explained [OF assms(3,1,2)] assms(4) by auto
  with cursor_phase [OF this(1) assms(5,6)] show ?thesis by (auto simp: reviewed_upto_def)
qed

theorem completed_ranges_tile_witness:
  "\<exists>trace disk rng. runs plain_codec sample_store [] trace disk \<and> completed_ranges ''main'' trace = [rng]
     \<and> (\<exists>baseline. (SeedCursor ''main'' baseline, Done) \<in> set trace \<and> tiles baseline [rng] rev_b)"
proof -
  from sample_completed obtain trace disk rng state bs where
    w: "runs plain_codec sample_store [] trace disk" "completed_ranges ''main'' trace = [rng]"
      "stored_state plain_codec sample_store disk = Some state"
      "bt_get (branches state) ''main'' = Some bs" "cursor bs = Some rev_b" by blast
  from completed_ranges_tile [OF plain_codec_ok fresh_empty w(1,3,4,5)] w show ?thesis by auto
qed

text \<open>
  C10. The cursor never runs ahead of the records: at every later moment, whatever else ran and
  failed, the record file of each range reported completed is on disk, decodes, and is the record
  of that head.
\<close>

theorem completed_range_has_record:
  assumes "codec_ok codec" "fresh_disk store disk" "runs codec store disk trace disk'"
    and "rng \<in> set (completed_ranges branch trace)"
  shows "\<exists>record. stored_record codec store disk' branch (range_head rng) = Some record
    \<and> record_version record = RECORD_VERSION \<and> record_head record = range_head rng
    \<and> sanitize_branch (record_branch record) = sanitize_branch branch"
  using runs_records [OF assms(3,1,2)] assms(4) by (auto simp: record_present_def record_fits_def)

theorem completed_range_has_record_witness:
  "\<exists>trace disk rng record. runs plain_codec sample_store [] trace disk \<and> rng \<in> set (completed_ranges ''main'' trace)
     \<and> range_head rng = rev_b \<and> stored_record plain_codec sample_store disk ''main'' rev_b = Some record
     \<and> record_head record = rev_b"
proof -
  from sample_completed obtain trace disk rng where
    w: "runs plain_codec sample_store [] trace disk" "completed_ranges ''main'' trace = [rng]" "range_head rng = rev_b"
    by blast
  from completed_range_has_record [OF plain_codec_ok fresh_empty w(1), of rng "''main''"] w show ?thesis
    by (metis list.set_intros(1))
qed

text \<open>
  C3. Refinement: under every environment, one operation changes the stored state by at most one step
  of the review machine on the branch it names, keeps the state well formed, and its reply tells
  which step it was.
\<close>

theorem store_refines_review_machine:
  assumes "codec_ok codec" "op_wf op" "stored_state codec store disk = Some state" "state_wf state"
    and "run_op env codec store op disk = (reply, disk')"
  shows "\<exists>state'. stored_state codec store disk' = Some state' \<and> state_wf state' \<and> op_effect op reply state state'"
  using run_op_effect [OF assms(1,3,4,2,5)] by (simp add: refines_op_def)

theorem store_refines_review_machine_witness:
  "\<exists>disk reply disk' state state'. run_op quiet_env plain_codec sample_store (FailRange ''main'' rev_b ''timed_out'') disk = (reply, disk')
     \<and> stored_state plain_codec sample_store disk = Some state \<and> phase_at state ''main'' = Reviewing rev_a rev_b
     \<and> op_effect (FailRange ''main'' rev_b ''timed_out'') reply state state'"
proof -
  obtain trace disk state bs rng where s: "in_review_sample trace disk state bs rng" using sample_in_review by blast
  obtain reply disk' where run: "run_op (quiet_env :: stored_file env) plain_codec sample_store (FailRange ''main'' rev_b ''timed_out'') disk = (reply, disk')"
    by fastforce
  have stored: "stored_state plain_codec sample_store disk = Some state" "state_wf state"
    using s by (auto simp: in_review_sample_def)
  have "phase_at state ''main'' = Reviewing rev_a rev_b"
    using s by (auto simp: in_review_sample_def phase_at_get phase_of_def)
  with store_refines_review_machine [OF plain_codec_ok _ stored run] run stored show ?thesis
    by (metis op_wf.simps(7))
qed

text \<open>
  C13. The state file is never torn: after any operations under any faults it decodes, to a state in
  which every in-flight range starts at its branch's cursor, ends elsewhere, and all revisions are
  object ids.
\<close>

theorem stored_state_invariant:
  assumes "codec_ok codec" "fresh_disk store disk" "runs codec store disk trace disk'"
  shows "\<exists>state. stored_state codec store disk' = Some state \<and> state_wf state"
  using runs_explained [OF assms(3,1,2)] by blast

theorem stored_state_invariant_witness:
  "\<exists>trace disk state bs rng. in_review_sample trace disk state bs rng \<and> state_wf state"
proof -
  obtain trace disk state bs rng where s: "in_review_sample trace disk state bs rng" using sample_in_review by blast
  then have "runs plain_codec sample_store [] trace disk" "stored_state plain_codec sample_store disk = Some state"
    by (auto simp: in_review_sample_def)
  then have "state_wf state" using stored_state_invariant [OF plain_codec_ok fresh_empty] by fastforce
  with s show ?thesis by blast
qed


text \<open>Without the lock no operation writes: ten failed attempts refuse it with the disk untouched.\<close>

theorem contended_lock_writes_nothing:
  assumes "\<And>k. k < 10 \<Longrightarrow> lock_attempt env k \<noteq> Ok ()"
  shows "\<exists>e. run_op env codec store op disk = (Refused e, disk)"
  using acquire_lock_busy [OF assms] no_lock_no_write by blast

definition contended_env :: "stored_file env" where
  "contended_env = quiet_env\<lparr>lock_attempt := (\<lambda>_. Err (IoError WouldBlock ''locked''))\<rparr>"


theorem contended_lock_writes_nothing_witness:
  "\<exists>e. run_op contended_env plain_codec sample_store (SeedCursor ''main'' rev_a) [] = (Refused e, [])"
  by (rule contended_lock_writes_nothing) (simp add: contended_env_def)

text \<open>
  C5. Crash and replay of \<open>complete\<close> (ADR 0021): if completing the in-flight range fails at any
  point, the record possibly already written, then replaying it completes the range and moves the cursor
  to its head, and replaying it once more changes nothing and answers \<open>AlreadyComplete\<close>.
\<close>

theorem complete_replays_after_crash:
  assumes codec: "codec_ok codec" "codec_total codec" and rec: "completable record"
    and stored: "stored_state codec store disk = Some state" "state_wf state"
    and slot: "bt_get (branches state) (record_branch record) = Some bs" "in_flight bs = Some rng"
      "matches_range record rng"
    and crash: "complete env codec store record disk = (Err e, disk1)"
    and env2: "quiet env2"
  shows "\<exists>disk2 state2 bs2. complete env2 codec store record disk1
      = (Ok (Completed rng (record_path store (record_branch record) (record_head record))), disk2)
    \<and> stored_state codec store disk2 = Some state2
    \<and> bt_get (branches state2) (record_branch record) = Some bs2
    \<and> cursor bs2 = Some (record_head record) \<and> in_flight bs2 = None
    \<and> complete env2 codec store record disk2
      = (Ok (AlreadyComplete (record_head record) (record_path store (record_branch record) (record_head record))), disk2)"
proof -
  let ?p = "record_path store (record_branch record) (record_head record)"
  have stored1: "stored_state codec store disk1 = Some state" using complete_refused [OF crash codec(1)] stored by simp
  from env2 codec(2,1) rec stored1 stored(2) slot obtain disk2 t where
    c: "complete env2 codec store record disk1 = (Ok (Completed rng ?p), disk2)" and
    s2: "stored_state codec store disk2 = Some (rooted store (put_branch state (record_branch record)
       (advanced_branch bs (record_head record) t)))" and
    p2: "bt_get disk2 ?p \<noteq> None" by (rule complete_quiet)
  let ?s2 = "rooted store (put_branch state (record_branch record) (advanced_branch bs (record_head record) t))"
  have wf2: "state_wf ?s2"
    using stored(2) rec by (simp add: put_branch_wf advanced_branch_wf completable_def)
  have b2: "bt_get (branches ?s2) (record_branch record) = Some (advanced_branch bs (record_head record) t)"
    by (simp add: put_branch_def bt_simps)
  have f2: "in_flight (advanced_branch bs (record_head record) t) = None"
    "cursor (advanced_branch bs (record_head record) t) = Some (record_head record)"
    by (simp_all add: advanced_branch_def)
  show ?thesis using c s2 b2 f2 complete_quiet_replay [OF env2 rec s2 wf2 b2 f2 p2] by blast
qed

text \<open>An environment in which the state rename fails: the record is written, the state is not.\<close>

definition torn_env :: "stored_file env" where
  "torn_env = quiet_env\<lparr>io_fault := (\<lambda>op. if op = RenameFile (state_path sample_store) then Some ''disk full'' else None)\<rparr>"

lemma torn_complete_fails:
  assumes "in_review_sample trace disk state bs rng"
  shows "\<exists>e disk'. complete torn_env plain_codec sample_store record_ab disk = (Err e, disk')"
proof -
  have lock: "acquire_lock torn_env sample_store = Ok ()"
    by (simp add: acquire_lock_def torn_env_def quiet_env_def fs_create_dir_all_def numeral_eq_Suc)
  have "read_state (quiet_env :: stored_file env) plain_codec sample_store disk = Ok state"
    using assms by (intro read_state_quiet quiet_env_quiet) (auto simp: in_review_sample_def state_wf_def)
  then have read: "read_state torn_env plain_codec sample_store disk = Ok state"
    by (simp add: read_state_def fs_read_def torn_env_def quiet_env_def)
  have nowrite: "write_state torn_env plain_codec sample_store st d \<noteq> (Ok u, d')" for st d u d'
    by (simp add: write_state_def plain_codec_def atomic_write_def and_then_def map_error_def fs_rename_def
        fs_write_def torn_env_def quiet_env_def Let_def lift_result_def)
  have slot: "bt_get (branches state) (record_branch record_ab) = Some bs" "in_flight bs = Some rng"
    "matches_range record_ab rng" using assms by (auto simp: in_review_sample_def record_ab_def matches_range_def)
  obtain st x where "complete torn_env plain_codec sample_store record_ab disk =
    and_then (persist_record torn_env plain_codec (record_path sample_store (record_branch record_ab) (record_head record_ab))
      (stamp_completed (now_iso torn_env 0) record_ab)) (\<lambda>_.
    and_then (write_state torn_env plain_codec sample_store st) (\<lambda>_. return x)) disk"
    using lock read slot record_ab_completable
    by (simp add: complete_def complete_locked_def completable_def validate_revision_cases and_then_read Let_def)
  then show ?thesis using nowrite by (auto simp: and_then_def split: prod.splits result.splits)
qed

theorem complete_replays_after_crash_witness:
  "\<exists>disk e disk1 disk2 rng p. complete torn_env plain_codec sample_store record_ab disk = (Err e, disk1)
     \<and> complete quiet_env plain_codec sample_store record_ab disk1 = (Ok (Completed rng p), disk2)
     \<and> complete quiet_env plain_codec sample_store record_ab disk2 = (Ok (AlreadyComplete rev_b p), disk2)"
proof -
  obtain trace disk state bs rng where s: "in_review_sample trace disk state bs rng" using sample_in_review by blast
  obtain e disk1 where crash: "complete torn_env plain_codec sample_store record_ab disk = (Err e, disk1)"
    using torn_complete_fails [OF s] by blast
  have h: "stored_state plain_codec sample_store disk = Some state" "state_wf state"
    "bt_get (branches state) (record_branch record_ab) = Some bs" "in_flight bs = Some rng" "matches_range record_ab rng"
    "record_head record_ab = rev_b"
    using s by (auto simp: in_review_sample_def record_ab_def matches_range_def)
  from complete_replays_after_crash [OF plain_codec_ok plain_codec_total record_ab_completable h(1-5) crash
      quiet_env_quiet [where 'a = stored_file]] crash h(6)
  show ?thesis by metis
qed

text \<open>
  Admission on every branch of the code (ADR 0018): an unseeded branch is refused; the cursor and
  the head in review admit nothing; another head waits while a range is in review; otherwise the
  range from the cursor to the head is admitted as attempt 1 and stored.
\<close>

theorem admit_by_phase:
  assumes env: "quiet env" "codec_total codec" "codec_ok codec" and head: "revision_ok head"
    and stored: "stored_state codec store disk = Some state" "state_wf state"
  shows "case phase_at state branch of
      Unseeded \<Rightarrow> admit env codec store branch head disk = (Err (NotSeeded branch), disk)
    | Reviewing base current \<Rightarrow> (\<exists>rng. in_flight (branch_entry state branch) = Some rng \<and>
        admit env codec store branch head disk =
          (Ok (if head = base then AlreadyReviewed head else if head = current then InReview rng else Busy rng), disk))
    | Idle base \<Rightarrow>
        if head = base then admit env codec store branch head disk = (Ok (AlreadyReviewed head), disk)
        else (\<exists>disk' state' rng. admit env codec store branch head disk = (Ok (Admitted rng), disk')
          \<and> range_base rng = base \<and> range_head rng = head \<and> range_attempts rng = 1
          \<and> stored_state codec store disk' = Some state' \<and> phase_at state' branch = Reviewing base head)"
proof -
  have adm: "admit env codec store branch head disk = transact env codec store (decide_admit branch head (now_iso env)) disk"
    using head by (simp add: admit_def validate_revision_cases)
  note q = transact_quiet [OF env(1,2) stored, of "decide_admit branch head (now_iso env)"]
  show ?thesis
  proof (cases "phase_at state branch")
    case Unseeded
    with adm q(1) [OF decide_admit_unseeded] show ?thesis by simp
  next
    case (Idle base)
    then obtain bs where bs: "bt_get (branches state) branch = Some bs" "cursor bs = Some base" "in_flight bs = None"
      by (rule idle_branch)
    show ?thesis
    proof (cases "head = base")
      case True
      with bs have "decide_admit branch head (now_iso env) state = Ok (Keep (AlreadyReviewed head))"
        by (simp add: decide_admit_def)
      with Idle True adm q(2) show ?thesis by simp
    next
      case False
      with admit_quiet [OF env head stored bs] obtain disk' rng t where
        "admit env codec store branch head disk = (Ok (Admitted rng), disk')"
        "range_base rng = base" "range_head rng = head" "range_attempts rng = 1"
        "stored_state codec store disk' = Some (rooted store (put_branch state branch (bs\<lparr>in_flight := Some rng, updated_at := t\<rparr>)))"
        by metis
      with Idle False show ?thesis by (auto simp: phase_of_def)
    qed
  next
    case (Reviewing base current)
    with adm q(2) decide_admit_reviewing [OF stored(2)] show ?thesis by fastforce
  qed
qed

theorem admit_by_phase_witness:
  "\<exists>disk rng disk'. admit quiet_env plain_codec sample_store ''main'' rev_c disk = (Ok (Busy rng), disk')"
proof -
  obtain trace disk state bs rng where s: "in_review_sample trace disk state bs rng" using sample_in_review by blast
  then have h: "stored_state plain_codec sample_store disk = Some state" "state_wf state"
    "phase_at state ''main'' = Reviewing rev_a rev_b"
    by (auto simp: in_review_sample_def phase_at_get phase_of_def)
  from admit_by_phase [OF quiet_env_quiet [where 'a = stored_file] plain_codec_total plain_codec_ok revisions_ok(3) h(1,2), of "''main''"] h(3)
    revisions_distinct show ?thesis by auto
qed

text \<open>
  A range that exhausted its attempts is never swallowed (ADR 0028): failing it clears the slot
  with the cursor where it was, and the next admitted head starts from the same base.
\<close>

theorem failed_range_is_recovered:
  assumes env: "quiet env" "quiet env2" "codec_total codec" "codec_ok codec"
    and stored: "stored_state codec store disk = Some state" "state_wf state"
    and slot: "bt_get (branches state) branch = Some bs" "in_flight bs = Some rng"
    and head: "revision_ok head" "head \<noteq> range_base rng"
  shows "\<exists>disk1 disk2 rng2. fail_range env codec store branch (range_head rng) reason disk = (Ok (), disk1)
    \<and> admit env2 codec store branch head disk1 = (Ok (Admitted rng2), disk2)
    \<and> range_base rng2 = range_base rng \<and> range_head rng2 = head"
proof -
  from env(1,3,4) stored slot obtain disk1 t f where
    f: "fail_range env codec store branch (range_head rng) reason disk = (Ok (), disk1)" and
    s1: "stored_state codec store disk1 = Some (rooted store (put_branch state branch
       (bs\<lparr>in_flight := None, last_failure := Some f, updated_at := t\<rparr>)))"
    by (rule fail_quiet)
  note bwf = get_branch_wf [OF stored(2) slot(1)]
  let ?bs = "bs\<lparr>in_flight := None, last_failure := Some f, updated_at := t\<rparr>"
  have "branch_wf ?bs" using branch_wf_slot(1) [OF bwf] by simp
  then have wf1: "state_wf (rooted store (put_branch state branch ?bs))" using stored(2) by (simp add: put_branch_wf)
  have b1: "bt_get (branches (rooted store (put_branch state branch ?bs))) branch = Some ?bs"
    "cursor ?bs = Some (range_base rng)" "in_flight ?bs = None" "range_base rng \<noteq> head"
    using in_flight_wfD(1) [OF bwf slot(2)] head(2) by (auto simp: put_branch_def bt_simps)
  from admit_quiet [OF env(2,3,4) head(1) s1 wf1 b1] f show ?thesis by metis
qed

theorem failed_range_is_recovered_witness:
  "\<exists>disk disk1 disk2 rng2. fail_range quiet_env plain_codec sample_store ''main'' rev_b ''timed_out'' disk = (Ok (), disk1)
     \<and> admit quiet_env plain_codec sample_store ''main'' rev_c disk1 = (Ok (Admitted rng2), disk2)
     \<and> range_base rng2 = rev_a"
proof -
  obtain trace disk state bs rng where s: "in_review_sample trace disk state bs rng" using sample_in_review by blast
  then have h: "stored_state plain_codec sample_store disk = Some state" "state_wf state"
    "bt_get (branches state) ''main'' = Some bs" "in_flight bs = Some rng"
    "range_head rng = rev_b" "range_base rng = rev_a"
    by (auto simp: in_review_sample_def)
  have "rev_c \<noteq> range_base rng" using h revisions_distinct by simp
  from failed_range_is_recovered [OF quiet_env_quiet [where 'a = stored_file] quiet_env_quiet [where 'a = stored_file]
      plain_codec_total plain_codec_ok h(1-4) revisions_ok(3) this, of "''timed_out''"] h(5,6)
  show ?thesis by metis
qed

text \<open>
  C18. A stored record never changes but for its delivery map: whatever operation runs, as long as the
  existence probe of the file does not fail, the record read back is the one stored, with at most
  another delivery map.
\<close>

theorem record_immutable_but_delivery:
  assumes "codec_ok codec" "op_wf op" "run_op env codec store op disk = (reply, disk')"
    and "revision_ok head" "io_fault env (StatFile (record_path store branch head)) = None"
    and "stored_record codec store disk branch head = Some record"
  shows "\<exists>ds. stored_record codec store disk' branch head = Some (record\<lparr>delivery := ds\<rparr>)"
proof -
  have "fs_exists env disk (record_path store branch head)"
    using assms(5,6) by (auto simp: fs_exists_def stored_record_def split: option.splits)
  then have "bt_get disk' (record_path store branch head) = bt_get disk (record_path store branch head)
    \<or> (\<exists>ds. stored_record codec store disk' branch head = Some (record\<lparr>delivery := ds\<rparr>))"
    using run_op_record_step [OF assms(1,2,4,3), of branch] assms(6) by (auto simp: record_step_def Let_def)
  then show ?thesis
  proof
    assume "bt_get disk' (record_path store branch head) = bt_get disk (record_path store branch head)"
    then have "stored_record codec store disk' branch head = Some (record\<lparr>delivery := delivery record\<rparr>)"
      using assms(6) by (simp add: stored_record_def)
    then show ?thesis by blast
  qed
qed

theorem record_immutable_but_delivery_witness:
  "\<exists>reply disk'. run_op quiet_env plain_codec sample_store
       (UpdateDelivery ''main'' rev_b ''slack'' (advance None ''now'' None))
       [(record_path sample_store ''main'' rev_b, RecordFile record_ab)] = (reply, disk')
     \<and> (\<exists>ds. stored_record plain_codec sample_store disk' ''main'' rev_b = Some (record_ab\<lparr>delivery := ds\<rparr>))"
proof -
  let ?disk = "[(record_path sample_store ''main'' rev_b, RecordFile record_ab)]"
  let ?op = "UpdateDelivery ''main'' rev_b ''slack'' (advance None ''now'' None)"
  obtain reply disk' where run: "run_op quiet_env plain_codec sample_store ?op ?disk = (reply, disk')" by fastforce
  have "\<exists>ds. stored_record plain_codec sample_store disk' ''main'' rev_b = Some (record_ab\<lparr>delivery := ds\<rparr>)"
    by (rule record_immutable_but_delivery [OF plain_codec_ok _ run revisions_ok(2)])
      (simp_all add: revisions_ok quiet_env_def stored_record_def plain_codec_def)
  with run show ?thesis by blast
qed

end
