(* ===== verification/Store_Records.thy ===== *)
theory Store_Records
  imports Store_Theorems
begin

text \<open>
  Reading the records of a branch back: \<open>records\<close> returns the decoded files of the branch's
  directory in path order, all of that branch; and the directory does not identify the branch.
\<close>

definition record_files :: "store \<Rightarrow> 'b disk \<Rightarrow> string \<Rightarrow> path list" where
  "record_files store disk branch =
     sort (filter (\<lambda>p. path_extension p = Some ''json'')
       (filter (\<lambda>p. path_parent p = Some (records_branch_dir store branch)) (bt_keys disk)))"

definition decodes_to :: "'b codec \<Rightarrow> 'b disk \<Rightarrow> string \<Rightarrow> path \<Rightarrow> review_record \<Rightarrow> bool" where
  "decodes_to codec disk branch p record \<longleftrightarrow>
     (\<exists>bytes. bt_get disk p = Some bytes \<and> record_from_json codec bytes = Ok record)
   \<and> record_version record = RECORD_VERSION \<and> record_branch record = branch"

lemma read_records_Ok:
  assumes "read_records env codec disk branch ps = Ok rs"
  shows "list_all2 (decodes_to codec disk branch) ps rs"
  using assms
proof (induction ps arbitrary: rs)
  case (Cons p ps)
  obtain bytes where bytes: "fs_read env disk p = Ok bytes"
    using Cons.prems by (cases "fs_read env disk p") auto
  obtain r where r: "record_from_json codec bytes = Ok r"
    using Cons.prems bytes by (cases "record_from_json codec bytes") auto
  obtain rest where rest: "read_records env codec disk branch ps = Ok rest"
    using Cons.prems bytes r by (cases "read_records env codec disk branch ps") (auto split: if_splits)
  have "rs = r # rest" "decodes_to codec disk branch p r"
    using Cons.prems bytes r rest by (auto simp: decodes_to_def fs_read_Ok_iff split: if_splits)
  with Cons.IH [OF rest] show ?case by simp
qed simp

lemma read_records_total:
  assumes "\<And>p. p \<in> set ps \<Longrightarrow> \<exists>r. decodes_to codec disk branch p r" "quiet env"
  shows "\<exists>rs. read_records env codec disk branch ps = Ok rs"
  using assms(1)
proof (induction ps)
  case (Cons p ps)
  then obtain r where "decodes_to codec disk branch p r" by fastforce
  then obtain bytes where b: "bt_get disk p = Some bytes" "record_from_json codec bytes = Ok r"
    "record_version r = RECORD_VERSION" "record_branch r = branch" by (auto simp: decodes_to_def)
  have "fs_read env disk p = Ok bytes" using b assms(2) by (simp add: fs_read_Ok_iff quiet_def)
  moreover obtain rs where "read_records env codec disk branch ps = Ok rs" using Cons by fastforce
  ultimately show ?case using b by simp
qed simp

lemma records_eq:
  assumes "quiet env"
  shows "records env codec store disk branch = read_records env codec disk branch (record_files store disk branch)"
  using assms
  by (auto simp: records_def Let_def fs_read_dir_def quiet_def record_files_def simp del: filter_filter)

text \<open>
  \<open>records\<close> answers with the decoded \<open>.json\<close> files of the branch's directory, one record per
  file in path order, every one of the supported version and of that very branch; and it does answer
  whenever all those files decode so.
\<close>

theorem records_lists_branch_files:
  assumes "quiet env"
  shows "(records env codec store disk branch = Ok rs \<longrightarrow>
      list_all2 (decodes_to codec disk branch) (record_files store disk branch) rs)
    \<and> ((\<forall>p \<in> set (record_files store disk branch). \<exists>r. decodes_to codec disk branch p r) \<longrightarrow>
      (\<exists>rs. records env codec store disk branch = Ok rs))"
  using records_eq [OF assms, of codec store disk branch] read_records_Ok read_records_total [OF _ assms]
  by auto

theorem records_lists_branch_files_witness:
  "records quiet_env plain_codec sample_store [] ''main'' = Ok []
   \<and> list_all2 (decodes_to plain_codec [] ''main'') (record_files sample_store ([] :: stored_file disk) ''main'') []"
proof -
  have "records (quiet_env :: stored_file env) plain_codec sample_store [] ''main'' = Ok []"
    by (simp add: records_def fs_read_dir_def quiet_env_def bt_keys_def Let_def)
  with records_lists_branch_files [OF quiet_env_quiet, of plain_codec sample_store "[]" "''main''" "[]"]
  show ?thesis by simp
qed

subsection \<open>Colliding branch directories\<close>

lemma record_path_extension:
  assumes "CHR ''/'' \<notin> set h" "h \<noteq> []"
  shows "path_extension (record_path store b h) = Some ''json''"
proof -
  have "h @ ''.json'' \<notin> {''/'', ''.'', ''..''}" using assms(2) by (cases h) auto
  then have "path_file_name (record_path store b h) = Some (h @ ''.json'')"
    using assms(1) by (simp add: record_path_eq path_file_name_snoc)
  moreover have "rsplit_once (CHR ''.'') (h @ ''.json'') = Some (h, ''json'')"
    using rsplit_once_append [of "CHR ''.''" "''json''" h] by simp
  ultimately show ?thesis using assms(2) by (simp add: path_extension_def)
qed

lemma colliding_record_listed:
  assumes "sanitize_branch b = sanitize_branch branch" "revision_ok h" "bt_get disk (record_path store b h) \<noteq> None"
  shows "record_path store b h \<in> set (record_files store disk branch)"
proof -
  have "CHR ''/'' \<notin> set h" "h \<noteq> []" using assms(2) revision_ok_no_slash by (auto simp: revision_ok_def)
  moreover have "records_branch_dir store b = records_branch_dir store branch"
    using assms(1) by (simp add: records_branch_dir_eq)
  moreover from calculation have "path_parent (record_path store b h) = Some (records_branch_dir store branch)"
    by (cases h) (simp_all add: record_path_eq)
  moreover have "record_path store b h \<in> set (bt_keys disk)" using assms(3) by (auto simp: bt.keys_dom)
  ultimately show ?thesis using record_path_extension by (simp add: record_files_def)
qed

lemma sanitize_feature: "sanitize_branch ''feature/x'' = ''feature-x''" "sanitize_branch ''feature-x'' = ''feature-x''"
proof -
  have "list_all (\<lambda>c. \<not> is_utf8_continuation c) ''feature/x''" "list_all (\<lambda>c. \<not> is_utf8_continuation c) ''feature-x''"
    by (simp_all add: is_utf8_continuation_def)
  moreover have "collapse_ascii (\<lambda>c. c) False ''feature/x'' = ''feature-x''"
    "collapse_ascii (\<lambda>c. c) False ''feature-x'' = ''feature-x''"
    by (simp_all add: ascii_class_defs)
  ultimately show "sanitize_branch ''feature/x'' = ''feature-x''" "sanitize_branch ''feature-x'' = ''feature-x''"
    unfolding sanitize_branch_def by (simp_all only: collapse_runs_ascii) (simp_all add: trim_matches_def)
qed

text \<open>
  The records directory does not identify the branch: once a branch has a record, reading the
  records of any other branch with the same sanitized name fails, because the first branch's record
  is taken for corruption.
\<close>

theorem colliding_branch_records_fail:
  assumes "quiet env" "sanitize_branch other = sanitize_branch branch" "other \<noteq> branch" "revision_ok head"
    and "stored_record codec store disk other head = Some record" "record_branch record = other"
  shows "\<exists>e. records env codec store disk branch = Err e"
proof (cases "records env codec store disk branch")
  case (Ok rs)
  then have all: "list_all2 (decodes_to codec disk branch) (record_files store disk branch) rs"
    using records_eq [OF assms(1)] read_records_Ok by metis
  have "record_path store other head \<in> set (record_files store disk branch)"
    using assms by (intro colliding_record_listed) (auto simp: stored_record_def split: option.splits)
  then obtain r where "decodes_to codec disk branch (record_path store other head) r"
    using all by (auto simp: list_all2_conv_all_nth in_set_conv_nth)
  then show ?thesis using assms(3,5,6) by (auto simp: decodes_to_def stored_record_def)
qed simp

theorem colliding_branch_records_fail_witness:
  "\<exists>e. records quiet_env plain_codec sample_store
     [(record_path sample_store ''feature/x'' rev_b, RecordFile (record_ab\<lparr>record_branch := ''feature/x''\<rparr>))] ''feature-x'' = Err e"
  by (rule colliding_branch_records_fail [OF quiet_env_quiet, of "''feature/x''" _ rev_b _ _ _
        "record_ab\<lparr>record_branch := ''feature/x''\<rparr>"])
    (simp_all add: sanitize_feature revisions_ok stored_record_def plain_codec_def)

end
