(* ===== verification/Json.thy ===== *)
theory Json
  imports Rust_Strings
begin

text \<open>
  JSON values as the sources match on them (\<open>Value::Null\<close>, \<open>Bool\<close>, \<open>Number\<close>, \<open>String\<close>,
  \<open>Array\<close>, \<open>Object\<close>) and the accessors they call: \<open>get\<close>, indexing, \<open>as_str\<close>, \<open>as_array\<close>,
  \<open>as_i64\<close> and \<open>pointer\<close>. Parsing and printing JSON text is \<open>serde_json\<close>'s and stays a parameter
  of the definitions that call it.
\<close>

datatype json =
    Null
  | Bool bool
  | Integer int
  | Float string
  | String string
  | Array "json list"
  | Object "(string \<times> json) list"

fun json_get :: "json \<Rightarrow> string \<Rightarrow> json option" where
  "json_get (Object m) k = map_of m k"
| "json_get _ k = None"

fun as_str :: "json \<Rightarrow> string option" where
  "as_str (String s) = Some s"
| "as_str _ = None"

fun as_array :: "json \<Rightarrow> json list option" where
  "as_array (Array xs) = Some xs"
| "as_array _ = None"

fun as_i64 :: "json \<Rightarrow> int option" where
  "as_i64 (Integer n) = (if - (2 ^ 63) \<le> n \<and> n < 2 ^ 63 then Some n else None)"
| "as_i64 _ = None"

text \<open>\<open>value[key]\<close> is \<open>Null\<close> where the key is missing.\<close>

definition json_index :: "json \<Rightarrow> string \<Rightarrow> json" where
  "json_index v k = (case json_get v k of None \<Rightarrow> Null | Some x \<Rightarrow> x)"

text \<open>\<open>value.get(key).and_then(Value::as_str)\<close>, the commonest access.\<close>

definition get_str :: "json \<Rightarrow> string \<Rightarrow> string option" where
  "get_str v k = (case json_get v k of None \<Rightarrow> None | Some x \<Rightarrow> as_str x)"

definition get_array :: "json \<Rightarrow> string \<Rightarrow> json list option" where
  "get_array v k = (case json_get v k of None \<Rightarrow> None | Some x \<Rightarrow> as_array x)"

text \<open>\<open>value.pointer("/a/b")\<close> through object keys.\<close>

fun json_pointer :: "json \<Rightarrow> string list \<Rightarrow> json option" where
  "json_pointer v [] = Some v"
| "json_pointer v (k # ks) = (case json_get v k of None \<Rightarrow> None | Some x \<Rightarrow> json_pointer x ks)"

text \<open>
  The rows of a messages document: \<open>{"messages": [...]}\<close> or the bare array.
\<close>

definition message_rows :: "json \<Rightarrow> json list option" where
  "message_rows payload = (case get_array payload ''messages'' of
     Some rows \<Rightarrow> Some rows
   | None \<Rightarrow> as_array payload)"

lemma as_str_iff: "as_str v = Some s \<longleftrightarrow> v = String s"
  by (cases v) auto

lemma as_array_iff: "as_array v = Some xs \<longleftrightarrow> v = Array xs"
  by (cases v) auto

end
