(* ===== verification/Harvest.thy ===== *)
theory Harvest
  imports Json Repo_Lemmas "HOL-Library.Product_Lexorder"
begin

text \<open>
  Rebuilding a review from a conductor transcript: \<open>crates/pa-daemon/src/big_brother/harvest.rs\<close>.
  The loop over the rows is a fold with the code's local variables as its state. Parsing a JSON text
  (\<open>serde_json::from_str\<close>, for provider rows whose call arguments are a string) is the parameter
  \<open>parse_json\<close>.
\<close>

definition SYNTHESIS_MARKER :: string where
  "SYNTHESIS_MARKER = ''REVIEW_SYNTHESIS''"

record harvested_layer =
  harvested_name :: string
  harvested_answer :: string

record harvested_review =
  review_base :: string
  review_head :: string
  review_layers :: "harvested_layer list"
  missing_layers :: "string list"
  no_reply_layers :: "string list"
  review_conclusion :: string

datatype harvest_error =
    NoMessages
  | NoDispatchCalls
  | MismatchedRange string string
  | MalformedCall string string
  | NoConclusion

record dispatch_call =
  call_layer :: string
  call_base :: string
  call_head :: string

definition no_reply_child :: "json \<Rightarrow> string option" where
  "no_reply_child row = (case get_str row ''content'' of
     None \<Rightarrow> None
   | Some content \<Rightarrow> (case strip_prefix ''[child-exited: no-reply child:'' content of
        None \<Rightarrow> None
      | Some child \<Rightarrow> map_option fst (split_once '']'' child)))"

definition call_argument_object :: "(string \<Rightarrow> json option) \<Rightarrow> json \<Rightarrow> json" where
  "call_argument_object parse_json call = (case json_get call ''arguments'' of
     Some (Object m) \<Rightarrow> Object m
   | Some (String txt) \<Rightarrow> (case parse_json txt of Some v \<Rightarrow> v | None \<Rightarrow> Null)
   | _ \<Rightarrow> Null)"

definition reply_separator :: string where
  "reply_separator = [CHR '']'', CHR ''\<newline>'', CHR ''\<newline>'']"

definition reply_sender :: "json \<Rightarrow> (string \<times> string) option" where
  "reply_sender row =
     (case Option.bind (json_pointer row [''details'', ''from'', ''sessionName'']) as_str of
        Some name \<Rightarrow>
          (case Option.bind (json_pointer row [''details'', ''message'']) as_str of
             None \<Rightarrow> None
           | Some body \<Rightarrow> Some (name, body))
      | None \<Rightarrow>
          (case get_str row ''content'' of
             None \<Rightarrow> None
           | Some content \<Rightarrow> (case strip_prefix ''[agent-message from '' content of
                None \<Rightarrow> None
              | Some header \<Rightarrow> split_once reply_separator header)))"

definition child_reply :: "json \<Rightarrow> (string \<times> string \<times> string) option" where
  "child_reply row = (case reply_sender row of
     None \<Rightarrow> None
   | Some (sender, body) \<Rightarrow>
       (let name = (case strip_prefix ''child:'' sender of None \<Rightarrow> sender | Some rest \<Rightarrow> rest)
        in case rsplit_once (CHR ''-'') name of
             None \<Rightarrow> None
           | Some (layer, head) \<Rightarrow>
               if layer = [] \<or> \<not> revision_ok head then None else Some (layer, head, body)))"

fun marker_cut :: "nat \<Rightarrow> nat option \<Rightarrow> string list \<Rightarrow> nat option" where
  "marker_cut offset found [] = found"
| "marker_cut offset found (line # rest) =
     marker_cut (offset + length line)
       (if trim line = SYNTHESIS_MARKER then Some (offset + length line) else found) rest"

definition unwrap_synthesis :: "string \<Rightarrow> string" where
  "unwrap_synthesis txt =
     (let body = (case marker_cut 0 None (split_inclusive (CHR ''\<newline>'') txt) of
                    None \<Rightarrow> [] | Some at \<Rightarrow> trim (drop at txt))
      in if body = [] then txt else body)"

definition content_text :: "json \<Rightarrow> string" where
  "content_text row = (case json_get row ''content'' of
     Some (String txt) \<Rightarrow> txt
   | Some (Array blocks) \<Rightarrow>
       join_str [CHR ''\<newline>''] (List.map_filter (\<lambda>block. get_str block ''text'')
         (filter (\<lambda>block. get_str block ''type'' = Some ''text'') blocks))
   | _ \<Rightarrow> [])"

subsection \<open>The scan over the rows\<close>

record harvest_scan =
  scan_calls :: "dispatch_call list"
  scan_delivered :: "(string \<times> string, string) btree"
  scan_no_reply :: "string set"
  scan_last_text :: "(nat \<times> string) option"
  scan_last_activity :: "nat option"
  scan_seen_result :: bool

definition empty_scan :: harvest_scan where
  "empty_scan = \<lparr>scan_calls = [], scan_delivered = [], scan_no_reply = {}, scan_last_text = None,
     scan_last_activity = None, scan_seen_result = False\<rparr>"

definition is_dispatch_block :: "json \<Rightarrow> bool" where
  "is_dispatch_block block \<longleftrightarrow>
     get_str block ''type'' = Some ''toolCall'' \<and> get_str block ''name'' = Some ''dispatch_review''"

fun scan_blocks ::
  "(string \<Rightarrow> json option) \<Rightarrow> json list \<Rightarrow> dispatch_call list \<Rightarrow> (dispatch_call list, harvest_error) result" where
  "scan_blocks parse_json [] calls = Ok calls"
| "scan_blocks parse_json (block # rest) calls =
     (if \<not> is_dispatch_block block then scan_blocks parse_json rest calls
      else (let id = (case get_str block ''id'' of None \<Rightarrow> [] | Some s \<Rightarrow> s);
                arguments = call_argument_object parse_json block
            in case (get_str arguments ''layer'', get_str arguments ''baseSha'', get_str arguments ''headSha'') of
                 (Some layer, Some base, Some head) \<Rightarrow>
                   scan_blocks parse_json rest
                     (filter (\<lambda>existing. call_layer existing \<noteq> layer) calls
                       @ [\<lparr>call_layer = layer, call_base = base, call_head = head\<rparr>])
               | _ \<Rightarrow> Err (MalformedCall id ''layer, baseSha, and headSha are all required'')))"

definition scan_custom :: "nat \<Rightarrow> json \<Rightarrow> harvest_scan \<Rightarrow> harvest_scan" where
  "scan_custom index row scan =
     (let scan1 = scan\<lparr>scan_last_activity := Some index\<rparr>;
          scan2 = (case no_reply_child row of
             None \<Rightarrow> scan1
           | Some child \<Rightarrow> scan1\<lparr>scan_no_reply := insert child (scan_no_reply scan1)\<rparr>)
      in case child_reply row of
           None \<Rightarrow> scan2
         | Some (layer, head, body) \<Rightarrow>
             scan2\<lparr>scan_delivered := bt_insert (layer, head) body (scan_delivered scan2)\<rparr>)"

definition scan_row ::
  "(string \<Rightarrow> json option) \<Rightarrow> nat \<Rightarrow> json \<Rightarrow> harvest_scan \<Rightarrow> (harvest_scan, harvest_error) result" where
  "scan_row parse_json index row scan =
     (if json_get row ''toolCallId'' \<noteq> None then
        Ok (scan\<lparr>scan_seen_result := True, scan_last_activity := Some index\<rparr>)
      else if get_str row ''role'' = Some ''custom'' then Ok (scan_custom index row scan)
      else try_bind (case get_array row ''content'' of
               Some blocks \<Rightarrow> scan_blocks parse_json blocks (scan_calls scan)
             | None \<Rightarrow> Ok (scan_calls scan)) (\<lambda>calls.
           let scan1 = scan\<lparr>scan_calls := calls\<rparr>; txt = content_text row
           in if txt \<noteq> [] \<and> scan_seen_result scan1
              then Ok (scan1\<lparr>scan_last_text := Some (index, txt)\<rparr>) else Ok scan1))"

fun scan_rows ::
  "(string \<Rightarrow> json option) \<Rightarrow> nat \<Rightarrow> json list \<Rightarrow> harvest_scan \<Rightarrow> (harvest_scan, harvest_error) result" where
  "scan_rows parse_json index [] scan = Ok scan"
| "scan_rows parse_json index (row # rows) scan =
     try_bind (scan_row parse_json index row scan) (scan_rows parse_json (Suc index) rows)"

subsection \<open>Assembling the review\<close>

definition scan_conclusion :: "harvest_scan \<Rightarrow> string option" where
  "scan_conclusion scan = (case (scan_last_text scan, scan_last_activity scan) of
     (Some (index, txt), Some activity) \<Rightarrow> if activity < index then Some (unwrap_synthesis txt) else None
   | (Some (_, txt), None) \<Rightarrow> Some (unwrap_synthesis txt)
   | _ \<Rightarrow> None)"

definition range_text :: "string \<Rightarrow> string \<Rightarrow> string" where
  "range_text base head = base @ ''..'' @ head"

definition check_range :: "dispatch_call list \<Rightarrow> (string \<times> string, harvest_error) result" where
  "check_range calls = (case calls of
     [] \<Rightarrow> Err NoDispatchCalls
   | call # rest \<Rightarrow>
       (case find (\<lambda>c. call_base c \<noteq> call_base call \<or> call_head c \<noteq> call_head call) rest of
          None \<Rightarrow> Ok (call_base call, call_head call)
        | Some c \<Rightarrow> Err (MismatchedRange (range_text (call_base call) (call_head call))
                                 (range_text (call_base c) (call_head c)))))"

definition layer_answer ::
  "harvest_scan \<Rightarrow> (string, string) btree \<Rightarrow> string \<Rightarrow> string \<Rightarrow> string option" where
  "layer_answer scan child_answers head layer =
     (case bt_get (scan_delivered scan) (layer, head) of
        Some body \<Rightarrow> Some body
      | None \<Rightarrow> bt_get child_answers layer)"

fun collect_layers ::
  "harvest_scan \<Rightarrow> (string, string) btree \<Rightarrow> string \<Rightarrow> dispatch_call list
   \<Rightarrow> harvested_layer list \<times> string list \<times> string list" where
  "collect_layers scan child_answers head [] = ([], [], [])"
| "collect_layers scan child_answers head (call # rest) =
     (case collect_layers scan child_answers head rest of
        (found, missing, no_reply) \<Rightarrow>
          (case layer_answer scan child_answers head (call_layer call) of
             Some answer \<Rightarrow>
               (\<lparr>harvested_name = call_layer call, harvested_answer = answer\<rparr> # found, missing, no_reply)
           | None \<Rightarrow>
               (found, call_layer call # missing,
                if call_layer call @ ''-'' @ head \<in> scan_no_reply scan
                then call_layer call # no_reply else no_reply)))"

definition harvest_review ::
  "(string \<Rightarrow> json option) \<Rightarrow> json \<Rightarrow> (string, string) btree \<Rightarrow> (harvested_review, harvest_error) result" where
  "harvest_review parse_json payload child_answers = (case message_rows payload of
     None \<Rightarrow> Err NoMessages
   | Some rows \<Rightarrow>
       try_bind (scan_rows parse_json 0 rows empty_scan) (\<lambda>scan.
       try_bind (check_range (scan_calls scan)) (\<lambda>(base, head).
       let (found, missing, no_reply) = collect_layers scan child_answers head (scan_calls scan)
       in case scan_conclusion scan of
            None \<Rightarrow> Err NoConclusion
          | Some concl \<Rightarrow>
              Ok \<lparr>review_base = base, review_head = head, review_layers = found,
                  missing_layers = missing, no_reply_layers = no_reply, review_conclusion = concl\<rparr>)))"

definition last_assistant_text :: "json \<Rightarrow> string option" where
  "last_assistant_text payload = (case message_rows payload of
     None \<Rightarrow> None
   | Some rows \<Rightarrow>
       (case find (\<lambda>row. get_str row ''role'' = Some ''assistant'') (rev rows) of
          None \<Rightarrow> None
        | Some row \<Rightarrow> (let txt = content_text row in if txt \<noteq> [] then Some txt else None)))"

subsection \<open>What the scan knows after some rows\<close>

definition activity_row :: "json \<Rightarrow> bool" where
  "activity_row row \<longleftrightarrow> json_get row ''toolCallId'' \<noteq> None \<or> get_str row ''role'' = Some ''custom''"

definition result_row :: "json \<Rightarrow> bool" where
  "result_row row \<longleftrightarrow> json_get row ''toolCallId'' \<noteq> None"

text \<open>The reply a row delivers for a layer and a head, and the last one among some rows.\<close>

definition delivered_body :: "string \<times> string \<Rightarrow> json \<Rightarrow> string option" where
  "delivered_body key row =
     (if \<not> result_row row \<and> get_str row ''role'' = Some ''custom''
      then (case child_reply row of
              Some (layer, head, body) \<Rightarrow> if (layer, head) = key then Some body else None
            | None \<Rightarrow> None)
      else None)"

fun last_reply :: "string \<times> string \<Rightarrow> json list \<Rightarrow> string option" where
  "last_reply key [] = None"
| "last_reply key (row # rows) =
     (case last_reply key rows of Some body \<Rightarrow> Some body | None \<Rightarrow> delivered_body key row)"

lemma last_reply_snoc:
  "last_reply key (rows @ [row]) =
     (case delivered_body key row of Some body \<Rightarrow> Some body | None \<Rightarrow> last_reply key rows)"
  by (induction rows) (auto split: option.splits)

text \<open>The layer names the dispatch blocks of some rows carry.\<close>

definition dispatched_layers :: "(string \<Rightarrow> json option) \<Rightarrow> json list \<Rightarrow> string set" where
  "dispatched_layers parse_json rows =
     {layer. \<exists>row blocks block. row \<in> set rows \<and> \<not> activity_row row \<and> get_array row ''content'' = Some blocks
        \<and> block \<in> set blocks \<and> is_dispatch_block block
        \<and> get_str (call_argument_object parse_json block) ''layer'' = Some layer}"

definition scan_inv :: "(string \<Rightarrow> json option) \<Rightarrow> json list \<Rightarrow> harvest_scan \<Rightarrow> bool" where
  "scan_inv parse_json rows scan \<longleftrightarrow>
     distinct (map call_layer (scan_calls scan))
   \<and> call_layer ` set (scan_calls scan) = dispatched_layers parse_json rows
   \<and> (\<forall>key. bt_get (scan_delivered scan) key = last_reply key rows)"

definition text_inv :: "json list \<Rightarrow> harvest_scan \<Rightarrow> bool" where
  "text_inv rows scan \<longleftrightarrow>
     (scan_seen_result scan \<longleftrightarrow> list_ex result_row rows)
   \<and> (case scan_last_activity scan of
        None \<Rightarrow> \<not> list_ex activity_row rows
      | Some a \<Rightarrow> a < length rows \<and> activity_row (rows ! a) \<and> \<not> list_ex activity_row (drop (Suc a) rows))
   \<and> (case scan_last_text scan of
        None \<Rightarrow> True
      | Some (i, txt) \<Rightarrow> i < length rows \<and> \<not> activity_row (rows ! i) \<and> txt = content_text (rows ! i) \<and> txt \<noteq> []
          \<and> list_ex result_row (take i rows)
          \<and> list_all (\<lambda>row. activity_row row \<or> content_text row = []) (drop (Suc i) rows))"

lemma try_bind_Ok_iff: "try_bind r f = Ok y \<longleftrightarrow> (\<exists>x. r = Ok x \<and> f x = Ok y)"
  by (cases r) auto

lemma scan_rows_snoc:
  "scan_rows parse_json index (rows @ [row]) scan = Ok scan' \<longleftrightarrow>
     (\<exists>mid. scan_rows parse_json index rows scan = Ok mid
        \<and> scan_row parse_json (index + length rows) row mid = Ok scan')"
  by (induction rows arbitrary: index scan) (auto simp: try_bind_Ok_iff)

definition block_layers :: "(string \<Rightarrow> json option) \<Rightarrow> json list \<Rightarrow> string set" where
  "block_layers parse_json blocks =
     {layer. \<exists>block \<in> set blocks. is_dispatch_block block
        \<and> get_str (call_argument_object parse_json block) ''layer'' = Some layer}"

lemma scan_blocks_layers:
  assumes "scan_blocks parse_json blocks calls = Ok calls'" "distinct (map call_layer calls)"
  shows "distinct (map call_layer calls')
    \<and> call_layer ` set calls' = call_layer ` set calls \<union> block_layers parse_json blocks"
  using assms
proof (induction blocks arbitrary: calls)
  case Nil
  then show ?case by (simp add: block_layers_def)
next
  case (Cons block rest)
  show ?case
  proof (cases "is_dispatch_block block")
    case False
    with Cons show ?thesis by (simp add: block_layers_def)
  next
    case True
    then obtain layer base head where args: "get_str (call_argument_object parse_json block) ''layer'' = Some layer"
      and rest: "scan_blocks parse_json rest (filter (\<lambda>existing. call_layer existing \<noteq> layer) calls
        @ [\<lparr>call_layer = layer, call_base = base, call_head = head\<rparr>]) = Ok calls'"
      using Cons.prems(1) by (auto simp: Let_def split: option.splits)
    have "distinct (map call_layer (filter (\<lambda>existing. call_layer existing \<noteq> layer) calls
        @ [\<lparr>call_layer = layer, call_base = base, call_head = head\<rparr>]))"
      using Cons.prems(2) by (auto simp: distinct_map_filter)
    from Cons.IH [OF rest this] args True show ?thesis
      by (auto simp: block_layers_def)
  qed
qed

lemma dispatched_layers_snoc:
  "dispatched_layers parse_json (rows @ [row]) = dispatched_layers parse_json rows
     \<union> (if activity_row row then {} else case get_array row ''content'' of
          None \<Rightarrow> {} | Some blocks \<Rightarrow> block_layers parse_json blocks)"
  by (auto simp: dispatched_layers_def block_layers_def split: option.splits)

lemma dispatched_layers_Nil [simp]: "dispatched_layers parse_json [] = {}"
  by (simp add: dispatched_layers_def)

text \<open>The three kinds of rows.\<close>

lemma scan_row_cases:
  assumes "scan_row parse_json index row scan = Ok scan'"
  obtains (tool_result) "result_row row" "scan' = scan\<lparr>scan_seen_result := True, scan_last_activity := Some index\<rparr>"
  | (custom) "\<not> result_row row" "get_str row ''role'' = Some ''custom''" "scan' = scan_custom index row scan"
  | (text_row) calls where "\<not> activity_row row"
      "(case get_array row ''content'' of Some blocks \<Rightarrow> scan_blocks parse_json blocks (scan_calls scan)
        | None \<Rightarrow> Ok (scan_calls scan)) = Ok calls"
      "scan' = scan\<lparr>scan_calls := calls, scan_last_text :=
         if content_text row \<noteq> [] \<and> scan_seen_result scan then Some (index, content_text row)
         else scan_last_text scan\<rparr>"
  using assms that
  by (auto simp: scan_row_def result_row_def activity_row_def try_bind_Ok_iff Let_def split: if_splits)

lemma scan_custom_fields [simp]:
  "scan_calls (scan_custom index row scan) = scan_calls scan"
  "scan_last_activity (scan_custom index row scan) = Some index"
  "scan_last_text (scan_custom index row scan) = scan_last_text scan"
  "scan_seen_result (scan_custom index row scan) = scan_seen_result scan"
  by (simp_all add: scan_custom_def Let_def split: option.split)

lemma scan_custom_delivered:
  "bt_get (scan_delivered (scan_custom index row scan)) key =
     (case child_reply row of
        Some (layer, head, body) \<Rightarrow> if (layer, head) = key then Some body else bt_get (scan_delivered scan) key
      | None \<Rightarrow> bt_get (scan_delivered scan) key)"
  by (simp add: scan_custom_def Let_def bt_simps split: option.split)

lemma scan_row_inv:
  assumes "scan_row parse_json index row scan = Ok scan'" "scan_inv parse_json rows scan"
  shows "scan_inv parse_json (rows @ [row]) scan'"
  using assms(1)
proof (cases rule: scan_row_cases)
  case tool_result
  then show ?thesis using assms(2)
    by (simp add: scan_inv_def dispatched_layers_snoc last_reply_snoc delivered_body_def activity_row_def result_row_def)
next
  case custom
  then show ?thesis using assms(2)
    by (auto simp: scan_inv_def dispatched_layers_snoc last_reply_snoc delivered_body_def activity_row_def
        scan_custom_delivered split: option.splits)
next
  case (text_row calls)
  have inv: "distinct (map call_layer (scan_calls scan))"
    "call_layer ` set (scan_calls scan) = dispatched_layers parse_json rows"
    "\<And>key. bt_get (scan_delivered scan) key = last_reply key rows"
    using assms(2) unfolding scan_inv_def by blast+
  have "delivered_body key row = None" for key
    using text_row(1) by (simp add: delivered_body_def activity_row_def)
  moreover have "distinct (map call_layer calls)
    \<and> call_layer ` set calls = dispatched_layers parse_json (rows @ [row])"
  proof (cases "get_array row ''content''")
    case None
    with text_row inv show ?thesis by (simp add: dispatched_layers_snoc)
  next
    case (Some blocks)
    with text_row scan_blocks_layers [of parse_json blocks "scan_calls scan" calls] inv show ?thesis
      by (simp add: dispatched_layers_snoc)
  qed
  ultimately show ?thesis using text_row(3) inv(3) by (simp add: scan_inv_def last_reply_snoc)
qed

lemma list_ex_take: "list_ex P (take i xs) \<Longrightarrow> list_ex P xs"
  by (metis append_take_drop_id list_ex_append)

lemma scan_row_text_inv:
  assumes "scan_row parse_json (length rows) row scan = Ok scan'" "text_inv rows scan"
  shows "text_inv (rows @ [row]) scan'"
  using assms(1)
proof (cases rule: scan_row_cases)
  case tool_result
  then have "activity_row row" by (simp add: activity_row_def result_row_def)
  with tool_result show ?thesis using assms(2)
    by (auto simp: text_inv_def nth_append split: option.splits)
next
  case custom
  then have "activity_row row" by (simp add: activity_row_def)
  with custom show ?thesis using assms(2)
    by (auto simp: text_inv_def nth_append split: option.splits)
next
  case (text_row calls)
  then have "\<not> result_row row" by (simp add: activity_row_def result_row_def)
  with text_row show ?thesis using assms(2)
    by (auto simp: text_inv_def nth_append split: option.splits dest: list_ex_take)
qed

lemma scan_rows_inv:
  assumes "scan_rows parse_json 0 rows empty_scan = Ok scan"
  shows "scan_inv parse_json rows scan \<and> text_inv rows scan"
  using assms
proof (induction rows arbitrary: scan rule: rev_induct)
  case Nil
  then show ?case by (auto simp: scan_inv_def text_inv_def empty_scan_def)
next
  case (snoc row rows)
  then show ?case using scan_row_inv scan_row_text_inv by (fastforce simp: scan_rows_snoc)
qed

subsection \<open>The assembled review\<close>

lemma collect_layers_eq:
  "collect_layers scan child_answers head calls =
     (List.map_filter (\<lambda>call. map_option (\<lambda>answer. \<lparr>harvested_name = call_layer call, harvested_answer = answer\<rparr>)
        (layer_answer scan child_answers head (call_layer call))) calls,
      filter (\<lambda>layer. layer_answer scan child_answers head layer = None) (map call_layer calls),
      filter (\<lambda>layer. layer_answer scan child_answers head layer = None \<and> layer @ ''-'' @ head \<in> scan_no_reply scan)
        (map call_layer calls))"
  by (induction calls) (auto simp: map_filter_simps split: option.splits)

lemma check_range_Ok:
  assumes "check_range calls = Ok (base, head)"
  shows "calls \<noteq> [] \<and> (\<forall>call \<in> set calls. call_base call = base \<and> call_head call = head)"
  using assms by (auto simp: check_range_def find_None_iff split: list.splits option.splits)

lemma harvest_review_Ok:
  assumes "harvest_review parse_json payload child_answers = Ok review"
  obtains rows scan where "message_rows payload = Some rows"
    "scan_rows parse_json 0 rows empty_scan = Ok scan" "scan_inv parse_json rows scan" "text_inv rows scan"
    "check_range (scan_calls scan) = Ok (review_base review, review_head review)"
    "collect_layers scan child_answers (review_head review) (scan_calls scan)
       = (review_layers review, missing_layers review, no_reply_layers review)"
    "scan_conclusion scan = Some (review_conclusion review)"
proof -
  obtain rows scan base head where "message_rows payload = Some rows"
    "scan_rows parse_json 0 rows empty_scan = Ok scan" "check_range (scan_calls scan) = Ok (base, head)"
    and rest: "(let (found, missing, no_reply) = collect_layers scan child_answers head (scan_calls scan)
       in case scan_conclusion scan of
            None \<Rightarrow> Err NoConclusion
          | Some concl \<Rightarrow>
              Ok \<lparr>review_base = base, review_head = head, review_layers = found,
                  missing_layers = missing, no_reply_layers = no_reply, review_conclusion = concl\<rparr>) = Ok review"
    using assms by (auto simp: harvest_review_def try_bind_Ok_iff split: option.splits)
  with scan_rows_inv [of parse_json rows scan] show thesis
    by (intro that [of rows scan]) (auto simp: Let_def split: option.splits prod.splits)
qed

lemma in_set_map_filter: "x \<in> set (List.map_filter f xs) \<longleftrightarrow> (\<exists>a \<in> set xs. f a = Some x)"
  by (induction xs) (auto simp: map_filter_simps split: option.splits)

lemma map_filter_names:
  "map harvested_name (List.map_filter (\<lambda>call. map_option (\<lambda>answer. \<lparr>harvested_name = call_layer call,
       harvested_answer = answer\<rparr>) (f (call_layer call))) calls)
   = filter (\<lambda>layer. f layer \<noteq> None) (map call_layer calls)"
  by (induction calls) (auto simp: map_filter_simps split: option.splits)

text \<open>
  C8. The harvested layers: the layers with an answer and the missing ones are distinct, disjoint and
  together exactly the layers the transcript dispatched, so no layer is counted twice or lost; the
  layers reported as exited without a reply are among the missing.
\<close>

theorem harvest_partitions_dispatched_layers:
  assumes "harvest_review parse_json payload child_answers = Ok review"
  shows "\<exists>rows. message_rows payload = Some rows
    \<and> distinct (map harvested_name (review_layers review) @ missing_layers review)
    \<and> set (map harvested_name (review_layers review)) \<union> set (missing_layers review) = dispatched_layers parse_json rows
    \<and> dispatched_layers parse_json rows \<noteq> {}
    \<and> set (no_reply_layers review) \<subseteq> set (missing_layers review)"
  using assms
proof (rule harvest_review_Ok)
  fix rows scan
  let ?answer = "layer_answer scan child_answers (review_head review)"
  assume h: "message_rows payload = Some rows" "scan_inv parse_json rows scan"
    "check_range (scan_calls scan) = Ok (review_base review, review_head review)"
    "collect_layers scan child_answers (review_head review) (scan_calls scan)
       = (review_layers review, missing_layers review, no_reply_layers review)"
  have dist: "distinct (map call_layer (scan_calls scan))"
    and all: "call_layer ` set (scan_calls scan) = dispatched_layers parse_json rows"
    using h(2) by (simp_all add: scan_inv_def)
  have names: "map harvested_name (review_layers review) = filter (\<lambda>l. ?answer l \<noteq> None) (map call_layer (scan_calls scan))"
    using h(4) map_filter_names [of ?answer "scan_calls scan"] unfolding collect_layers_eq prod.inject by metis
  have missing: "missing_layers review = filter (\<lambda>l. ?answer l = None) (map call_layer (scan_calls scan))"
    using h(4) unfolding collect_layers_eq prod.inject by metis
  have "no_reply_layers review = filter (\<lambda>l. ?answer l = None \<and> l @ ''-'' @ review_head review \<in> scan_no_reply scan)
      (map call_layer (scan_calls scan))"
    using h(4) unfolding collect_layers_eq prod.inject by metis
  then have silent: "set (no_reply_layers review) \<subseteq> set (missing_layers review)" unfolding missing by auto
  have "distinct (map harvested_name (review_layers review) @ missing_layers review)"
    unfolding names missing using dist by auto
  moreover have "set (map harvested_name (review_layers review)) \<union> set (missing_layers review) = dispatched_layers parse_json rows"
    unfolding names missing all [symmetric] by auto
  moreover have "dispatched_layers parse_json rows \<noteq> {}" using check_range_Ok [OF h(3)] all by auto
  ultimately show ?thesis using h(1) silent by blast
qed

text \<open>
  C19. Whose answer a harvested layer carries (ADR 0030): the body of the last reply delivered under
  exactly the name \<open><layer>-<head>\<close> of the reviewed head; only a layer without such a reply falls back
  to its collected transcript answer. A reply for another head never satisfies the range.
\<close>

theorem harvested_answers_are_exact:
  assumes "harvest_review parse_json payload child_answers = Ok review"
    and "layer \<in> set (review_layers review)"
  shows "\<exists>rows. message_rows payload = Some rows
    \<and> Some (harvested_answer layer) =
        (case last_reply (harvested_name layer, review_head review) rows of
           Some body \<Rightarrow> Some body
         | None \<Rightarrow> bt_get child_answers (harvested_name layer))"
  using assms(1)
proof (rule harvest_review_Ok)
  fix rows scan
  assume h: "message_rows payload = Some rows" "scan_inv parse_json rows scan"
    "collect_layers scan child_answers (review_head review) (scan_calls scan)
       = (review_layers review, missing_layers review, no_reply_layers review)"
  have "review_layers review = List.map_filter (\<lambda>call. map_option (\<lambda>answer. \<lparr>harvested_name = call_layer call,
       harvested_answer = answer\<rparr>) (layer_answer scan child_answers (review_head review) (call_layer call))) (scan_calls scan)"
    using h(3) unfolding collect_layers_eq prod.inject by metis
  then obtain call :: dispatch_call and answer where "layer_answer scan child_answers (review_head review) (call_layer call) = Some answer"
    "layer = \<lparr>harvested_name = call_layer call, harvested_answer = answer\<rparr>"
    using assms(2) by (auto simp: in_set_map_filter)
  moreover have "bt_get (scan_delivered scan) key = last_reply key rows" for key
    using h(2) unfolding scan_inv_def by blast
  ultimately show ?thesis using h(1) by (auto simp: layer_answer_def split: option.splits)
qed

text \<open>
  The conclusion is the conductor's last word: it is taken from a non-empty conductor row that
  follows a tool result and every activity row, and after which no conductor row has text.
\<close>

theorem conclusion_is_last_text:
  assumes "harvest_review parse_json payload child_answers = Ok review"
  shows "\<exists>rows i. message_rows payload = Some rows \<and> i < length rows
    \<and> review_conclusion review = unwrap_synthesis (content_text (rows ! i)) \<and> content_text (rows ! i) \<noteq> []
    \<and> \<not> activity_row (rows ! i) \<and> list_ex result_row (take i rows)
    \<and> list_all (\<lambda>row. \<not> activity_row row \<and> content_text row = []) (drop (Suc i) rows)"
  using assms
proof (rule harvest_review_Ok)
  fix rows scan
  assume h: "message_rows payload = Some rows" "text_inv rows scan" "scan_conclusion scan = Some (review_conclusion review)"
  obtain i txt' where last: "scan_last_text scan = Some (i, txt')" "review_conclusion review = unwrap_synthesis txt'"
    and after: "\<And>a. scan_last_activity scan = Some a \<Longrightarrow> a < i"
    using h(3) by (auto simp: scan_conclusion_def split: option.splits if_splits)
  have i: "i < length rows" "\<not> activity_row (rows ! i)" "txt' = content_text (rows ! i)" "txt' \<noteq> []"
    "list_ex result_row (take i rows)"
    and quiet_after: "list_all (\<lambda>row. activity_row row \<or> content_text row = []) (drop (Suc i) rows)"
    using h(2) last(1) by (auto simp: text_inv_def)
  have "\<not> list_ex activity_row (drop (Suc i) rows)"
  proof (cases "scan_last_activity scan")
    case None
    then show ?thesis using h(2) by (auto simp: text_inv_def list_ex_iff dest: in_set_dropD)
  next
    case (Some a)
    then have "a < i" "\<not> list_ex activity_row (drop (Suc a) rows)" using after h(2) by (auto simp: text_inv_def)
    then show ?thesis by (metis in_mono list_ex_iff set_drop_subset_set_drop Suc_leI le_SucI)
  qed
  with quiet_after have "list_all (\<lambda>row. \<not> activity_row row \<and> content_text row = []) (drop (Suc i) rows)"
    by (auto simp: list_all_iff list_ex_iff)
  with h(1) last(2) i show ?thesis by blast
qed

subsection \<open>Reviewer names\<close>

lemma split_once_separator:
  assumes "CHR '']'' \<notin> set name"
  shows "split_once reply_separator (name @ reply_separator @ body) = Some (name, body)"
  using assms by (induction name) (auto simp: reply_separator_def)

lemma revision_no_dash: "revision_ok head \<Longrightarrow> CHR ''-'' \<notin> set head"
  by (auto simp: revision_ok_def list_all_iff is_ascii_hexdigit_def is_ascii_digit_def)

text \<open>The two shapes of a delivered reply: structured details, and the rendered header alone.\<close>

definition structured_reply :: "string \<Rightarrow> string \<Rightarrow> json" where
  "structured_reply name body = Object [(''role'', String ''custom''),
     (''details'', Object [(''from'', Object [(''sessionName'', String name)]), (''message'', String body)])]"

definition rendered_reply :: "string \<Rightarrow> string \<Rightarrow> json" where
  "rendered_reply name body = Object [(''role'', String ''custom''),
     (''content'', String (''[agent-message from child:'' @ name @ reply_separator @ body))]"

lemma child_reply_names:
  assumes "layer \<noteq> []" "revision_ok head" "CHR '']'' \<notin> set layer" "\<not> starts_with ''child:'' layer"
  shows "child_reply (structured_reply (layer @ ''-'' @ head) body) = Some (layer, head, body)
    \<and> child_reply (rendered_reply (layer @ ''-'' @ head) body) = Some (layer, head, body)"
proof -
  let ?name = "layer @ ''-'' @ head"
  have bracket: "CHR '']'' \<notin> set ?name"
    using assms(2,3) by (auto simp: revision_ok_def list_all_iff is_ascii_hexdigit_def is_ascii_digit_def)
  have split: "rsplit_once (CHR ''-'') ?name = Some (layer, head)"
    using rsplit_once_append [of "CHR ''-''" head layer] revision_no_dash [OF assms(2)] by simp
  have "strip_prefix ''child:'' ?name = None"
    using assms(4) by (auto simp: strip_prefix_None_iff starts_with_iff append_eq_append_conv2 append_eq_Cons_conv)
  moreover have "reply_sender (structured_reply ?name body) = Some (?name, body)"
    by (simp add: reply_sender_def structured_reply_def)
  moreover have "split_once reply_separator ((''child:'' @ ?name) @ reply_separator @ body) = Some (''child:'' @ ?name, body)"
    using bracket by (intro split_once_separator) simp
  then have "reply_sender (rendered_reply ?name body) = Some (''child:'' @ ?name, body)"
    by (simp add: reply_sender_def rendered_reply_def get_str_def del: split_once.simps)
  moreover have "strip_prefix ''child:'' (''child:'' @ ?name) = Some ?name" by (rule strip_prefix_append)
  ultimately show ?thesis using split assms(1,2) by (simp add: child_reply_def Let_def del: append.simps)
qed

text \<open>
  Reviewer names read back: a reply sent under \<open><layer>-<head>\<close> is credited to that layer and that
  head in both shapes, also when the layer name has dashes of its own, because the head is what
  follows the last dash.
\<close>

theorem reviewer_name_roundtrip:
  assumes "layer \<noteq> []" "revision_ok head" "CHR '']'' \<notin> set layer" "\<not> starts_with ''child:'' layer"
  shows "child_reply (structured_reply (layer @ ''-'' @ head) body) = Some (layer, head, body)
    \<and> child_reply (rendered_reply (layer @ ''-'' @ head) body) = Some (layer, head, body)"
  using child_reply_names [OF assms] .

subsection \<open>The synthesis marker\<close>

lemma marker_cut_append:
  "marker_cut offset found (xs @ ys) = marker_cut (offset + length (concat xs)) (marker_cut offset found xs) ys"
  by (induction xs arbitrary: offset found) (simp_all add: add.assoc)

lemma marker_cut_none: "\<forall>l \<in> set xs. trim l \<noteq> SYNTHESIS_MARKER \<Longrightarrow> marker_cut offset found xs = found"
  by (induction xs arbitrary: offset found) auto

text \<open>
  The synthesis is what follows the last marker line, trimmed; narration before it never enters the
  record. A text without a marker line, or with nothing after it, is kept whole.
\<close>

theorem synthesis_after_last_marker:
  assumes "split_inclusive (CHR ''\<newline>'') txt = before @ marker # after"
    and "trim marker = SYNTHESIS_MARKER" "\<forall>l \<in> set after. trim l \<noteq> SYNTHESIS_MARKER"
  shows "unwrap_synthesis txt = (if trim (concat after) = [] then txt else trim (concat after))"
proof -
  have whole: "txt = concat before @ marker @ concat after"
    using concat_split_inclusive [of "CHR ''\<newline>''" "txt"] assms(1) by simp
  have "marker_cut 0 None (split_inclusive (CHR ''\<newline>'') txt) = Some (length (concat before @ marker))"
    using assms by (simp add: marker_cut_append marker_cut_none)
  moreover have "drop (length (concat before @ marker)) txt = concat after" by (simp add: whole)
  ultimately show ?thesis by (simp add: unwrap_synthesis_def del: length_append)
qed

subsection \<open>A sample transcript\<close>

definition hex_a :: string where "hex_a = replicate 40 (CHR ''a'')"

definition hex_b :: string where "hex_b = replicate 40 (CHR ''b'')"

definition sample_call :: json where
  "sample_call = Object [(''type'', String ''toolCall''), (''name'', String ''dispatch_review''), (''id'', String ''c1''),
     (''arguments'', Object [(''layer'', String ''project-fit''), (''baseSha'', String hex_a), (''headSha'', String hex_b)])]"

definition sample_transcript :: json where
  "sample_transcript = Object [(''messages'', Array [
     Object [(''role'', String ''assistant''), (''content'', Array [sample_call])],
     Object [(''toolCallId'', String ''c1'')],
     structured_reply (''project-fit'' @ ''-'' @ hex_b) ''no findings'',
     Object [(''role'', String ''assistant''), (''content'', String ''All layers pass.'')]])]"

definition sample_rows :: "json list" where
  "sample_rows = (case message_rows sample_transcript of None \<Rightarrow> [] | Some rows \<Rightarrow> rows)"

lemma sample_unwrap: "unwrap_synthesis ''All layers pass.'' = ''All layers pass.''"
proof -
  have "split_inclusive (CHR ''\<newline>'') ''All layers pass.'' = [''All layers pass.'']" by simp
  moreover have "trim ''All layers pass.'' \<noteq> SYNTHESIS_MARKER"
    by (simp add: trim_def SYNTHESIS_MARKER_def is_whitespace_def is_utf8_continuation_def)
  ultimately show ?thesis by (simp add: unwrap_synthesis_def)
qed

lemma hex_b_ok: "revision_ok hex_b"
  by (simp add: hex_b_def revision_ok_def is_ascii_hexdigit_def list_all_iff)

lemma sample_reply:
  "child_reply (structured_reply (''project-fit'' @ ''-'' @ hex_b) ''no findings'') = Some (''project-fit'', hex_b, ''no findings'')"
  using child_reply_names [of "''project-fit''" hex_b "''no findings''"] hex_b_ok by (simp add: starts_with_def)

lemma sample_rows_eq: "message_rows sample_transcript = Some [
     Object [(''role'', String ''assistant''), (''content'', Array [sample_call])],
     Object [(''toolCallId'', String ''c1'')],
     structured_reply (''project-fit'' @ ''-'' @ hex_b) ''no findings'',
     Object [(''role'', String ''assistant''), (''content'', String ''All layers pass.'')]]"
  by (simp add: message_rows_def sample_transcript_def get_array_def)

definition sample_review :: harvested_review where
  "sample_review = \<lparr>review_base = hex_a, review_head = hex_b,
     review_layers = [\<lparr>harvested_name = ''project-fit'', harvested_answer = ''no findings''\<rparr>],
     missing_layers = [], no_reply_layers = [], review_conclusion = ''All layers pass.''\<rparr>"

lemma sample_scan:
  "scan_row parse_json 0 (Object [(''role'', String ''assistant''), (''content'', Array [sample_call])]) empty_scan
     = Ok (empty_scan\<lparr>scan_calls := [\<lparr>call_layer = ''project-fit'', call_base = hex_a, call_head = hex_b\<rparr>]\<rparr>)"
  "scan_row parse_json n (Object [(''toolCallId'', String ''c1'')]) scan
     = Ok (scan\<lparr>scan_seen_result := True, scan_last_activity := Some n\<rparr>)"
  "scan_row parse_json n (structured_reply (''project-fit'' @ ''-'' @ hex_b) ''no findings'') scan
     = Ok (scan\<lparr>scan_last_activity := Some n,
         scan_delivered := bt_insert (''project-fit'', hex_b) ''no findings'' (scan_delivered scan)\<rparr>)"
  "scan_row parse_json n (Object [(''role'', String ''assistant''), (''content'', String ''All layers pass.'')]) scan
     = Ok (if scan_seen_result scan then scan\<lparr>scan_last_text := Some (n, ''All layers pass.'')\<rparr> else scan)"
  subgoal
    by (simp add: scan_row_def get_str_def get_array_def sample_call_def is_dispatch_block_def
        call_argument_object_def empty_scan_def content_text_def map_filter_simps)
  subgoal by (simp add: scan_row_def)
  subgoal
    unfolding scan_row_def scan_custom_def sample_reply
    by (simp add: structured_reply_def get_str_def no_reply_child_def Let_def)
  subgoal by (simp add: scan_row_def get_str_def get_array_def content_text_def)
  done

lemma sample_harvest: "harvest_review parse_json sample_transcript [] = Ok sample_review"
proof -
  have scan: "scan_rows parse_json 0 [
     Object [(''role'', String ''assistant''), (''content'', Array [sample_call])],
     Object [(''toolCallId'', String ''c1'')],
     structured_reply (''project-fit'' @ ''-'' @ hex_b) ''no findings'',
     Object [(''role'', String ''assistant''), (''content'', String ''All layers pass.'')]] empty_scan
   = Ok (empty_scan\<lparr>scan_calls := [\<lparr>call_layer = ''project-fit'', call_base = hex_a, call_head = hex_b\<rparr>],
       scan_seen_result := True, scan_last_activity := Some 2,
       scan_delivered := [((''project-fit'', hex_b), ''no findings'')], scan_last_text := Some (3, ''All layers pass.'')\<rparr>)"
    by (simp only: scan_rows.simps sample_scan try_bind.simps) (simp add: empty_scan_def numeral_eq_Suc)
  show ?thesis
    unfolding harvest_review_def sample_rows_eq option.case scan try_bind.simps
    by (simp add: check_range_def scan_conclusion_def layer_answer_def sample_unwrap sample_review_def)
qed

subsection \<open>Witnesses\<close>

lemma sample_rows_some: "message_rows sample_transcript = Some rows \<Longrightarrow> rows = sample_rows"
  by (simp add: sample_rows_def)

theorem harvest_partitions_dispatched_layers_witness:
  "harvest_review (\<lambda>_. None) sample_transcript [] = Ok sample_review
   \<and> set (map harvested_name (review_layers sample_review)) \<union> set (missing_layers sample_review)
     = dispatched_layers (\<lambda>_. None) sample_rows"
  using harvest_partitions_dispatched_layers [OF sample_harvest [of "\<lambda>_. None"]] sample_harvest [of "\<lambda>_. None"]
    sample_rows_some by blast

theorem harvested_answers_are_exact_witness:
  "harvest_review (\<lambda>_. None) sample_transcript [] = Ok sample_review
   \<and> Some ''no findings'' = (case last_reply (''project-fit'', hex_b) sample_rows of
        Some body \<Rightarrow> Some body | None \<Rightarrow> bt_get [] ''project-fit'')"
proof -
  let ?layer = "\<lparr>harvested_name = ''project-fit'', harvested_answer = ''no findings''\<rparr>"
  have layer: "?layer \<in> set (review_layers sample_review)" and head: "review_head sample_review = hex_b"
    by (simp_all add: sample_review_def)
  obtain rows where rows: "message_rows sample_transcript = Some rows"
    "Some (harvested_answer ?layer) = (case last_reply (harvested_name ?layer, review_head sample_review) rows of
       Some body \<Rightarrow> Some body | None \<Rightarrow> bt_get [] (harvested_name ?layer))"
    using harvested_answers_are_exact [OF sample_harvest [of "\<lambda>_. None"] layer] by blast
  from rows(2) show ?thesis
    unfolding sample_rows_some [OF rows(1)] head
    using sample_harvest [of "\<lambda>_. None"] by (simp only: harvested_layer.select_convs)
qed

theorem conclusion_is_last_text_witness:
  "harvest_review (\<lambda>_. None) sample_transcript [] = Ok sample_review
   \<and> (\<exists>i < length sample_rows. review_conclusion sample_review = unwrap_synthesis (content_text (sample_rows ! i)))"
  using conclusion_is_last_text [OF sample_harvest [of "\<lambda>_. None"]] sample_harvest [of "\<lambda>_. None"]
    sample_rows_some by blast

theorem reviewer_name_roundtrip_witness:
  "child_reply (rendered_reply (''project-fit'' @ ''-'' @ hex_b) ''ok'') = Some (''project-fit'', hex_b, ''ok'')"
proof -
  have "\<not> starts_with ''child:'' ''project-fit''" by (simp add: starts_with_def)
  from reviewer_name_roundtrip [OF _ hex_b_ok _ this, of "''ok''"] show ?thesis by simp
qed

theorem synthesis_after_last_marker_witness:
  "unwrap_synthesis (''notes'' @ [CHR ''\<newline>''] @ ''REVIEW_SYNTHESIS'' @ [CHR ''\<newline>''] @ ''ship'') = ''ship''"
proof -
  let ?txt = "''notes'' @ [CHR ''\<newline>''] @ ''REVIEW_SYNTHESIS'' @ [CHR ''\<newline>''] @ ''ship''"
  have lines: "split_inclusive (CHR ''\<newline>'') ?txt =
    [''notes'' @ [CHR ''\<newline>'']] @ (''REVIEW_SYNTHESIS'' @ [CHR ''\<newline>'']) # [''ship'']" by simp
  have marker: "trim (''REVIEW_SYNTHESIS'' @ [CHR ''\<newline>'']) = SYNTHESIS_MARKER" and ship: "trim ''ship'' = ''ship''"
    by (simp_all add: trim_def SYNTHESIS_MARKER_def is_whitespace_def is_utf8_continuation_def)
  have "\<forall>l \<in> set [''ship'']. trim l \<noteq> SYNTHESIS_MARKER" by (simp add: ship SYNTHESIS_MARKER_def)
  from synthesis_after_last_marker [OF lines marker this] ship show ?thesis by simp
qed

end
