(* ===== verification/World.thy ===== *)
theory World
  imports Json Repo_State
begin

text \<open>
  What the observer, delivery and enrollment touch outside the store: the git program, the HTTP
  endpoints, the daemon's socket, the process environment. None of it is part of the repository, so
  \<open>host\<close> holds it as functions of what was asked before (the logs of the \<open>world\<close>). The world is what
  the process changes: the files, the logs, its connection and its set of issued wakes. Every store
  operation runs under the next environment of \<open>envs\<close>.
\<close>

datatype git_outcome =
    SpawnFailed string
  | GitTimedOut
  | CollectFailed string
  | GitFailed string
  | InvalidUtf8 string
  | GitOutput string

datatype http_request = HttpPost string "(string \<times> string) list" json

datatype http_outcome = HttpUnsent string | HttpResponse nat string string

datatype wire_event = WireLine string | WireTimeout | WireClosed string

record 'b host =
  envs :: "nat \<Rightarrow> 'b env"
  host_codec :: "'b codec"
  profile_from_json :: "'b \<Rightarrow> (review_profile, string) result"
  profile_to_json :: "review_profile \<Rightarrow> ('b, string) result"
  text_file :: "string \<Rightarrow> 'b"
  git_run :: "(path \<times> string list) list \<Rightarrow> path \<Rightarrow> string list \<Rightarrow> git_outcome"
  http_build :: "string option"
  http_reply :: "http_request list \<Rightarrow> http_request \<Rightarrow> http_outcome"
  wire_connect :: "path \<Rightarrow> wire_event list"
  connect_error :: "path \<Rightarrow> string option"
  socket_file :: "path \<Rightarrow> bool"
  wire_send :: "json list \<Rightarrow> json \<Rightarrow> string option"
  wire_events :: "json list \<Rightarrow> json \<Rightarrow> wire_event list"
  parse_json :: "string \<Rightarrow> json option"
  print_json :: "json \<Rightarrow> string"
  env_var :: "string \<Rightarrow> string option"
  has_git :: "path \<Rightarrow> bool"
  dir_entries :: "'b disk \<Rightarrow> path \<Rightarrow> ((path, string) result list, string) result"
  pkg_version :: string

record 'b world =
  world_disk :: "'b disk"
  world_tick :: nat
  git_log :: "(path \<times> string list) list"
  http_log :: "http_request list"
  wire_log :: "json list"
  client :: "u64 option"
  woken :: "(string \<times> string) set"

datatype failure = Failure string | StateFailure string state_error | ProfileFailure string profile_error

type_synonym ('b, 'a) prog = "('b world, 'a, failure) action"

text \<open>The environment the next file-system call runs under; a store operation or another change to the disk.\<close>

definition env_now :: "'b host \<Rightarrow> 'b world \<Rightarrow> 'b env" where
  "env_now host w = envs host (world_tick w)"

definition store_call ::
  "'b host \<Rightarrow> ('b env \<Rightarrow> ('b disk, 'a, 'e) action) \<Rightarrow> ('b world, 'a, 'e) action" where
  "store_call host op w =
     (case op (env_now host w) (world_disk w) of
        (r, disk) \<Rightarrow> (r, w\<lparr>world_disk := disk, world_tick := Suc (world_tick w)\<rparr>))"

text \<open>A read that changes no file.\<close>

definition store_read ::
  "'b host \<Rightarrow> ('b env \<Rightarrow> 'b disk \<Rightarrow> ('a, 'e) result) \<Rightarrow> ('b world, 'a, 'e) action" where
  "store_read host f w =
     (f (env_now host w) (world_disk w), w\<lparr>world_tick := Suc (world_tick w)\<rparr>)"

text \<open>A reading of the clock outside a store operation.\<close>

definition read_clock :: "'b host \<Rightarrow> ('b world, nat, 'e) action" where
  "read_clock host w = (Ok (clock_ms (env_now host w) 0), w\<lparr>world_tick := Suc (world_tick w)\<rparr>)"

definition modify :: "('b world \<Rightarrow> 'b world) \<Rightarrow> ('b world, unit, 'e) action" where
  "modify f w = (Ok (), f w)"

definition get_world :: "('b world \<Rightarrow> 'a) \<Rightarrow> ('b world, 'a, 'e) action" where
  "get_world f w = (Ok (f w), w)"

text \<open>A failure that is handled where it arises: the action's result becomes a value.\<close>

definition attempt :: "('b world, 'a, 'e) action \<Rightarrow> ('b world, ('a, 'e) result, 'f) action" where
  "attempt m w = (case m w of (r, w') \<Rightarrow> (Ok r, w'))"

text \<open>A loop over a list that stops at the first error.\<close>

fun for_each :: "'x list \<Rightarrow> ('x \<Rightarrow> ('s, unit, 'e) action) \<Rightarrow> ('s, unit, 'e) action" where
  "for_each [] body = return ()"
| "for_each (x # xs) body = and_then (body x) (\<lambda>_. for_each xs body)"

lemma store_call_fields [simp]:
  "git_log (snd (store_call host op w)) = git_log w"
  "http_log (snd (store_call host op w)) = http_log w"
  "wire_log (snd (store_call host op w)) = wire_log w"
  "woken (snd (store_call host op w)) = woken w"
  by (simp_all add: store_call_def case_prod_unfold)

lemma store_read_disk [simp]: "world_disk (snd (store_read host f w)) = world_disk w"
  "http_log (snd (store_read host f w)) = http_log w" "woken (snd (store_read host f w)) = woken w"
  "wire_log (snd (store_read host f w)) = wire_log w"
  by (simp_all add: store_read_def)

lemma read_clock_disk [simp]: "world_disk (snd (read_clock host w)) = world_disk w"
  "http_log (snd (read_clock host w)) = http_log w" "woken (snd (read_clock host w)) = woken w"
  "wire_log (snd (read_clock host w)) = wire_log w"
  by (simp_all add: read_clock_def)

lemma store_read_eq: "store_read host f w = (r, w') \<Longrightarrow> r = f (env_now host w) (world_disk w) \<and> world_disk w' = world_disk w"
  by (auto simp: store_read_def)

lemma and_then_read_clock [simp]:
  "and_then (read_clock host) f w = f (clock_ms (env_now host w) 0) (w\<lparr>world_tick := Suc (world_tick w)\<rparr>)"
  by (simp add: and_then_def read_clock_def)

lemma keeps_for_each: "(\<And>x. x \<in> set xs \<Longrightarrow> keeps P (body x)) \<Longrightarrow> keeps P (for_each xs body)"
  by (induction xs) (auto intro: keeps_and_then)

lemma keeps_attempt [simp]: "keeps P (attempt m) = keeps P m"
  by (simp add: keeps_def attempt_def case_prod_unfold)

lemma keeps_get_world [simp]: "keeps P (get_world f)"
  by (simp add: keeps_def get_world_def)

subsection \<open>Effects within a preorder\<close>

text \<open>
  An action stays within a relation when every run, whatever it returns, relates the state before to
  the state after. A relation that is reflexive and transitive is kept by every way the programs are
  composed; the locale proves that once for all the relations used below (the disk changes by store
  operations only, a log only grows).
\<close>

definition within :: "('s \<Rightarrow> 's \<Rightarrow> bool) \<Rightarrow> ('s, 'a, 'e) action \<Rightarrow> bool" where
  "within R m \<longleftrightarrow> (\<forall>s. R s (snd (m s)))"

lemma withinD: "within R m \<Longrightarrow> m s = (r, s') \<Longrightarrow> R s s'"
  unfolding within_def by (metis snd_conv)

lemma withinI: "(\<And>s r s'. m s = (r, s') \<Longrightarrow> R s s') \<Longrightarrow> within R m"
  unfolding within_def by (metis surj_pair snd_conv)

locale effect_preorder =
  fixes R :: "'s \<Rightarrow> 's \<Rightarrow> bool"
  assumes refl_effect: "R s s"
    and trans_effect: "R s t \<Longrightarrow> R t u \<Longrightarrow> R s u"
begin

lemma within_return [intro, simp]: "within R (return x)"
  by (simp add: within_def return_def refl_effect)

lemma within_throw [intro, simp]: "within R (throw e)"
  by (simp add: within_def throw_def refl_effect)

lemma within_lift_result [intro, simp]: "within R (lift_result r)"
  by (simp add: within_def lift_result_def refl_effect)

lemma within_and_then [intro]:
  assumes "within R m" "\<And>x. within R (f x)"
  shows "within R (and_then m f)"
proof (rule withinI)
  fix s r s'
  assume "and_then m f s = (r, s')"
  then show "R s s'"
    by (cases rule: and_then_cases) (use assms withinD trans_effect in metis)+
qed

lemma within_and_then_at:
  assumes "within R m" "\<And>s x s'. m s = (Ok x, s') \<Longrightarrow> R s' (snd (f x s'))"
  shows "within R (and_then m f)"
proof (rule withinI)
  fix s r s'
  assume "and_then m f s = (r, s')"
  then show "R s s'"
    by (cases rule: and_then_cases) (use assms withinD trans_effect in \<open>metis snd_conv\<close>)+
qed

lemma within_map_error [simp]: "within R (map_error f m) = within R m"
  by (simp add: within_def map_error_def case_prod_unfold)

lemma within_for_each [intro]: "(\<And>x. x \<in> set xs \<Longrightarrow> within R (body x)) \<Longrightarrow> within R (for_each xs body)"
  by (induction xs) auto

lemma within_read: "(\<And>s. R s (snd (m s))) \<Longrightarrow> within R m"
  by (simp add: within_def)

end

lemma within_attempt [simp]: "within R (attempt m) = within R m"
  by (simp add: within_def attempt_def case_prod_unfold)

subsection \<open>A host and a world for examples\<close>

definition bare_host :: "'b codec \<Rightarrow> (string \<Rightarrow> 'b) \<Rightarrow> 'b host" where
  "bare_host codec txt =
     \<lparr>envs = (\<lambda>_. quiet_env), host_codec = codec,
      profile_from_json = (\<lambda>_. Err ''missing field''), profile_to_json = (\<lambda>_. Err ''unsupported''),
      text_file = txt, git_run = (\<lambda>_ _ _. GitFailed ''not a git repository''), http_build = None,
      http_reply = (\<lambda>_ _. HttpUnsent ''no route''), wire_connect = (\<lambda>_. []), connect_error = (\<lambda>_. None), socket_file = (\<lambda>_. False),
      wire_send = (\<lambda>_ _. None), wire_events = (\<lambda>_ _. []), parse_json = (\<lambda>_. None),
      print_json = (\<lambda>_. ''{}''), env_var = (\<lambda>_. None), has_git = (\<lambda>_. True),
      dir_entries = (\<lambda>_ _. Err ''not found''), pkg_version = ''0.0.0''\<rparr>"

definition start_world :: "'b disk \<Rightarrow> 'b world" where
  "start_world disk = \<lparr>world_disk = disk, world_tick = 0, git_log = [], http_log = [], wire_log = [],
     client = None, woken = {}\<rparr>"

text \<open>The serializer of a disk without contents, for examples that touch no file.\<close>

definition unit_codec :: "unit codec" where
  "unit_codec = \<lparr>state_to_json = (\<lambda>_. Ok ()), state_from_json = (\<lambda>_. Err ''missing field''),
     record_to_json = (\<lambda>_. Ok ()), record_from_json = (\<lambda>_. Err ''missing field'')\<rparr>"

definition unit_host :: "unit host" where
  "unit_host = bare_host unit_codec (\<lambda>_. ())"

end
