(* ===== verification/Git.thy ===== *)
theory Git
  imports World
begin

text \<open>
  Reading and advancing the watched work tree: \<open>crates/pa-daemon/src/big_brother/git.rs\<close>. The git
  program answers through \<open>git_run\<close>; every invocation is appended to \<open>git_log\<close>, so that a property can
  say which commands ran and in which order.
\<close>

datatype worktree_sync_error =
    WrongBranch string string
  | Dirty
  | FetchFailed string
  | NonFastForward string

fun sync_kind :: "worktree_sync_error \<Rightarrow> string" where
  "sync_kind (WrongBranch actual expected) = ''wrong_branch''"
| "sync_kind Dirty = ''dirty_worktree''"
| "sync_kind (FetchFailed m) = ''fetch_failed''"
| "sync_kind (NonFastForward m) = ''non_fast_forward''"

fun sync_message :: "worktree_sync_error \<Rightarrow> string" where
  "sync_message (WrongBranch actual expected) =
     ''review worktree is on '' @ actual @ '', expected branch '' @ expected"
| "sync_message Dirty = ''review worktree has uncommitted or untracked changes''"
| "sync_message (FetchFailed m) = ''fetch failed: '' @ m"
| "sync_message (NonFastForward m) = ''fast-forward failed: '' @ m"

text \<open>One command: its outcome, the trimmed standard output on success.\<close>

definition git_result :: "path \<Rightarrow> string list \<Rightarrow> git_outcome \<Rightarrow> (string, string) result" where
  "git_result git_root args outcome =
     (let what = ''git '' @ join_str '' '' args @ '' in '' @ path_string git_root
      in case outcome of
           SpawnFailed m \<Rightarrow> Err (''running '' @ what)
         | GitTimedOut \<Rightarrow> Err (what @ '' timed out after 90 seconds'')
         | CollectFailed m \<Rightarrow> Err ''collecting git output''
         | GitFailed stderr \<Rightarrow> Err (what @ '': '' @ trim stderr)
         | InvalidUtf8 m \<Rightarrow> Err m
         | GitOutput stdout \<Rightarrow> Ok (trim stdout))"

definition git :: "'b host \<Rightarrow> path \<Rightarrow> string list \<Rightarrow> ('b world, string, string) action" where
  "git host git_root args w =
     (git_result git_root args (git_run host (git_log w) git_root args),
      w\<lparr>git_log := git_log w @ [(git_root, args)]\<rparr>)"

definition branch_head :: "'b host \<Rightarrow> path \<Rightarrow> string \<Rightarrow> ('b world, string, string) action" where
  "branch_head host git_root branch = git host git_root [''rev-parse'', branch]"

definition show_ref_args :: "string \<Rightarrow> string list" where
  "show_ref_args branch = [''show-ref'', ''--verify'', ''--quiet'', ''refs/heads/'' @ branch]"

fun first_local_branch :: "'b host \<Rightarrow> path \<Rightarrow> string list \<Rightarrow> ('b world, string option, string) action" where
  "first_local_branch host git_root [] = return None"
| "first_local_branch host git_root (branch # rest) =
     and_then (attempt (git host git_root (show_ref_args branch))) (\<lambda>shown.
     if is_ok shown then return (Some branch) else first_local_branch host git_root rest)"

definition default_branch :: "'b host \<Rightarrow> path \<Rightarrow> ('b world, string option, string) action" where
  "default_branch host git_root =
     and_then (attempt (git host git_root
         [''symbolic-ref'', ''--quiet'', ''--short'', ''refs/remotes/origin/HEAD''])) (\<lambda>answer.
     let remote_default = Option.bind (result_ok answer) (strip_prefix ''origin/'')
     in first_local_branch host git_root
          ((case remote_default of None \<Rightarrow> [] | Some b \<Rightarrow> [b]) @ [''main'', ''master'']))"

definition current_branch :: "'b host \<Rightarrow> path \<Rightarrow> ('b world, string option, string) action" where
  "current_branch host git_root =
     and_then (git host git_root [''rev-parse'', ''--abbrev-ref'', ''HEAD'']) (\<lambda>branch.
     return (if branch \<noteq> ''HEAD'' then Some branch else None))"

text \<open>\<open>str::get(n..)\<close>: the tail from byte \<open>n\<close>, if \<open>n\<close> is a character boundary within the string.\<close>

definition str_get_from :: "nat \<Rightarrow> string \<Rightarrow> string option" where
  "str_get_from n s =
     (if n \<le> length s \<and> (n < length s \<longrightarrow> \<not> is_utf8_continuation (s ! n)) then Some (drop n s) else None)"

definition is_user_change :: "string \<Rightarrow> bool" where
  "is_user_change line =
     (let p = trim (case str_get_from 3 line of None \<Rightarrow> line | Some rest \<Rightarrow> rest)
      in p \<noteq> ''.big-brother'' \<and> \<not> starts_with ''.big-brother/'' p)"

definition has_user_changes :: "string \<Rightarrow> bool" where
  "has_user_changes status = list_ex is_user_change (str_lines status)"

definition fetch_args :: "string \<Rightarrow> string list" where
  "fetch_args branch = [''fetch'', ''origin'', branch]"

definition merge_args :: "string \<Rightarrow> string list" where
  "merge_args branch = [''merge'', ''--ff-only'', ''refs/remotes/origin/'' @ branch]"

definition fetch_and_fast_forward ::
  "'b host \<Rightarrow> path \<Rightarrow> string \<Rightarrow> ('b world, unit, worktree_sync_error) action" where
  "fetch_and_fast_forward host git_root branch =
     and_then (map_error FetchFailed (current_branch host git_root)) (\<lambda>current.
     if current \<noteq> Some branch then
       throw (WrongBranch (case current of None \<Rightarrow> ''detached HEAD'' | Some c \<Rightarrow> c) branch)
     else
     and_then (map_error FetchFailed (git host git_root
         [''status'', ''--porcelain'', ''--untracked-files=all''])) (\<lambda>status.
     if has_user_changes status then throw Dirty
     else
     and_then (map_error FetchFailed (git host git_root [''remote''])) (\<lambda>remotes.
     if \<not> list_ex (\<lambda>remote. trim remote = ''origin'') (str_lines remotes) then return ()
     else
     and_then (attempt (git host git_root
         [''config'', ''--get'', ''branch.'' @ branch @ ''.remote''])) (\<lambda>upstream.
     if \<not> is_ok upstream then return ()
     else
     and_then (map_error FetchFailed (git host git_root (fetch_args branch))) (\<lambda>_.
     and_then (map_error NonFastForward (git host git_root (merge_args branch))) (\<lambda>_.
     return ()))))))"

definition github_path :: "string \<Rightarrow> string option" where
  "github_path url =
     (case strip_prefix ''git@github.com:'' url of
        Some p \<Rightarrow> Some p
      | None \<Rightarrow> (case strip_prefix ''ssh://git@github.com/'' url of
           Some p \<Rightarrow> Some p
         | None \<Rightarrow> (case split_once ''://'' url of
              None \<Rightarrow> None
            | Some (_, rest) \<Rightarrow>
                (let host_path = (case split_once ''@'' rest of None \<Rightarrow> rest | Some (_, after) \<Rightarrow> after)
                 in case split_once ''/'' host_path of
                      None \<Rightarrow> None
                    | Some (host, p) \<Rightarrow>
                        if eq_ignore_ascii_case host ''github.com'' then Some p else None))))"

definition parse_github_slug :: "string \<Rightarrow> string option" where
  "parse_github_slug url = (case github_path url of
     None \<Rightarrow> None
   | Some p \<Rightarrow> (case split_once ''/'' (trim_end_matches ''.git'' p) of
        None \<Rightarrow> None
      | Some (owner, repo) \<Rightarrow>
          if owner \<noteq> [] \<and> CHR ''/'' \<notin> set owner \<and> repo \<noteq> [] \<and> CHR ''/'' \<notin> set repo
          then Some (owner @ ''/'' @ repo) else None))"

definition origin_github_slug :: "'b host \<Rightarrow> path \<Rightarrow> ('b world, string option, string) action" where
  "origin_github_slug host git_root =
     and_then (git host git_root [''remote'']) (\<lambda>remotes.
     if \<not> list_ex (\<lambda>name. trim name = ''origin'') (str_lines remotes) then return None
     else and_then (git host git_root [''remote'', ''get-url'', ''origin'']) (\<lambda>url.
          return (parse_github_slug url)))"

subsection \<open>The synchronization script\<close>

text \<open>The commands \<open>fetch_and_fast_forward\<close> runs when nothing stops it, in order.\<close>

definition sync_script :: "string \<Rightarrow> string list list" where
  "sync_script branch =
     [[''rev-parse'', ''--abbrev-ref'', ''HEAD''],
      [''status'', ''--porcelain'', ''--untracked-files=all''],
      [''remote''],
      [''config'', ''--get'', ''branch.'' @ branch @ ''.remote''],
      fetch_args branch,
      merge_args branch]"

text \<open>What the k-th command of the script answers, given what ran before.\<close>

definition script_answer :: "'b host \<Rightarrow> path \<Rightarrow> string \<Rightarrow> 'b world \<Rightarrow> nat \<Rightarrow> (string, string) result" where
  "script_answer host git_root branch w k =
     git_result git_root (sync_script branch ! k)
       (git_run host (git_log w @ map (Pair git_root) (take k (sync_script branch))) git_root (sync_script branch ! k))"

lemma git_append: "git_log (snd (git host git_root args w)) = git_log w @ [(git_root, args)]"
  by (simp add: git_def)

lemma attempt_eq: "attempt m w = (Ok (fst (m w)), snd (m w))"
  by (simp add: attempt_def case_prod_unfold)

lemma map_error_eq: "map_error f m w = (map_err f (fst (m w)), snd (m w))"
  by (simp add: map_error_def case_prod_unfold)

lemma and_then_eq: "and_then m f w = (case fst (m w) of Ok x \<Rightarrow> f x (snd (m w)) | Err e \<Rightarrow> (Err e, snd (m w)))"
  by (simp add: and_then_def case_prod_unfold split: result.split)

text \<open>
  The script as one case distinction over the answers: how far it gets, what it returns, and the
  commands it has run by then.
\<close>

lemma fetch_and_fast_forward_eq:
  "fetch_and_fast_forward host git_root branch w =
     (let ran = (\<lambda>k. w\<lparr>git_log := git_log w @ map (Pair git_root) (take k (sync_script branch))\<rparr>);
          answer = script_answer host git_root branch w
      in case answer 0 of
           Err m \<Rightarrow> (Err (FetchFailed m), ran 1)
         | Ok current \<Rightarrow>
             if current = ''HEAD'' then (Err (WrongBranch ''detached HEAD'' branch), ran 1)
             else if current \<noteq> branch then (Err (WrongBranch current branch), ran 1)
             else (case answer 1 of
               Err m \<Rightarrow> (Err (FetchFailed m), ran 2)
             | Ok status \<Rightarrow>
                 if has_user_changes status then (Err Dirty, ran 2)
                 else (case answer 2 of
                   Err m \<Rightarrow> (Err (FetchFailed m), ran 3)
                 | Ok remotes \<Rightarrow>
                     if \<not> list_ex (\<lambda>remote. trim remote = ''origin'') (str_lines remotes) then (Ok (), ran 3)
                     else (case answer 3 of
                       Err m \<Rightarrow> (Ok (), ran 4)
                     | Ok upstream \<Rightarrow> (case answer 4 of
                         Err m \<Rightarrow> (Err (FetchFailed m), ran 5)
                       | Ok fetched \<Rightarrow> (case answer 5 of
                           Err m \<Rightarrow> (Err (NonFastForward m), ran 6)
                         | Ok merged \<Rightarrow> (Ok (), ran 6)))))))"
  by (simp add: fetch_and_fast_forward_def current_branch_def and_then_eq map_error_eq attempt_eq git_def
      script_answer_def sync_script_def return_def throw_def Let_def numeral_eq_Suc split: result.split)

text \<open>How many commands of the script ran, and what that tells about the answers.\<close>

definition ready_tree :: "(nat \<Rightarrow> (string, string) result) \<Rightarrow> string \<Rightarrow> bool" where
  "ready_tree answer branch \<longleftrightarrow> answer 0 = Ok branch
     \<and> (\<exists>status. answer 1 = Ok status \<and> \<not> has_user_changes status)
     \<and> (\<exists>remotes. answer 2 = Ok remotes \<and> list_ex (\<lambda>remote. trim remote = ''origin'') (str_lines remotes))
     \<and> is_ok (answer 3)"

definition script_ran :: "path \<Rightarrow> string \<Rightarrow> 'b world \<Rightarrow> 'b world \<Rightarrow> nat \<Rightarrow> bool" where
  "script_ran git_root branch w w' k \<longleftrightarrow>
     w' = w\<lparr>git_log := git_log w @ map (Pair git_root) (take k (sync_script branch))\<rparr>"

lemma sync_cases:
  assumes "fetch_and_fast_forward host git_root branch w = (r, w')"
  obtains (stopped) k where "k \<le> 4" "script_ran git_root branch w w' k"
  | (unfetched) m where "r = Err (FetchFailed m)" "script_ran git_root branch w w' 5"
      "ready_tree (script_answer host git_root branch w) branch"
  | (unmerged) m where "r = Err (NonFastForward m)" "script_ran git_root branch w w' 6"
      "ready_tree (script_answer host git_root branch w) branch" "is_ok (script_answer host git_root branch w 4)"
  | (synced) "r = Ok ()" "script_ran git_root branch w w' 6"
      "ready_tree (script_answer host git_root branch w) branch" "is_ok (script_answer host git_root branch w 4)"
      "is_ok (script_answer host git_root branch w 5)"
proof -
  define answer where "answer = script_answer host git_root branch w"
  define ran where "ran k = w\<lparr>git_log := git_log w @ map (Pair git_root) (take k (sync_script branch))\<rparr>" for k
  note run = assms [unfolded fetch_and_fast_forward_eq answer_def [symmetric] Let_def, folded ran_def]
  have stop: "k \<le> 4 \<Longrightarrow> w' = ran k \<Longrightarrow> thesis" for k
    using stopped by (simp add: script_ran_def ran_def)
  show thesis
  proof (cases "ready_tree answer branch")
    case False
    have "w' = ran 1 \<or> w' = ran 2 \<or> w' = ran 3 \<or> w' = ran 4"
      using run False unfolding ready_tree_def
      by (cases "answer 0"; cases "answer 1"; cases "answer 2"; cases "answer 3") (auto split: if_splits)
    then show thesis using stop [of 1] stop [of 2] stop [of 3] stop [of 4] by auto
  next
    case True
    then obtain status remotes upstream where
      a: "answer 0 = Ok branch" "answer 1 = Ok status" "\<not> has_user_changes status" "answer 2 = Ok remotes"
        "list_ex (\<lambda>remote. trim remote = ''origin'') (str_lines remotes)" "answer 3 = Ok upstream"
      by (auto simp: ready_tree_def is_ok_iff)
    show thesis
    proof (cases "branch = ''HEAD''")
      case True
      with run a have "w' = ran 1" by simp
      then show thesis by (rule stop [rotated]) simp
    next
      case False
      with run a \<open>ready_tree answer branch\<close> unfetched unmerged synced show thesis
        by (cases "answer 4"; cases "answer 5") (auto simp: script_ran_def ran_def answer_def [symmetric])
    qed
  qed
qed



subsection \<open>Reading the status\<close>

lemma status_lines:
  "trim '' M x.big-brother/notes'' = ''M x.big-brother/notes''" "trim '' M .big-brother/notes'' = ''M .big-brother/notes''"
  "trim ''x.big-brother/notes'' = ''x.big-brother/notes''" "trim ''.big-brother/notes'' = ''.big-brother/notes''"
  "trim ''big-brother/notes'' = ''big-brother/notes''"
  by (subst trim_ascii, simp add: is_utf8_continuation_def, simp add: is_whitespace_def)+

text \<open>
  The status is read with its leading blank cut off, so the first line of a work-tree modification
  (which starts with a blank) loses one byte of its path: a user's change to \<open>x.big-brother/notes\<close>
  passes for the service's own asset, and a change of the service's own asset passes for a user's.
\<close>

theorem trimmed_status_misreads_first_line:
  "has_user_changes '' M x.big-brother/notes'' \<and> \<not> has_user_changes (trim '' M x.big-brother/notes'')
   \<and> \<not> has_user_changes '' M .big-brother/notes'' \<and> has_user_changes (trim '' M .big-brother/notes'')"
  by (simp add: has_user_changes_def status_lines str_lines_single is_user_change_def str_get_from_def
      is_utf8_continuation_def starts_with_def)

subsection \<open>The GitHub slug\<close>

lemma slug_of_path:
  assumes "github_path url = Some (owner @ ''/'' @ repo @ suffix)" "suffix = [] \<or> suffix = ''.git''"
    "owner \<noteq> []" "repo \<noteq> []" "CHR ''/'' \<notin> set owner" "CHR ''/'' \<notin> set repo"
    "strip_suffix ''.git'' (owner @ ''/'' @ repo) = None"
  shows "parse_github_slug url = Some (owner @ ''/'' @ repo)"
proof -
  have "trim_end_matches ''.git'' (owner @ ''/'' @ repo @ suffix) = owner @ ''/'' @ repo"
    using assms(2) trim_end_matches_none [OF assms(7)] trim_end_matches_once [OF assms(7)] by auto
  with slash_split [OF assms(5), of repo] assms show ?thesis by (simp add: parse_github_slug_def)
qed

lemma split_once_scheme:
  assumes "CHR '':'' \<notin> set scheme"
  shows "split_once ''://'' (scheme @ ''://'' @ rest) = Some (scheme, rest)"
  using assms by (induction scheme) auto

lemma github_path_url:
  assumes "strip_prefix ''git@github.com:'' url = None" "strip_prefix ''ssh://git@github.com/'' url = None"
    "split_once ''://'' url = Some (scheme, rest)"
    "(case split_once ''@'' rest of None \<Rightarrow> rest | Some (_, after) \<Rightarrow> after) = host_path"
    "split_once ''/'' host_path = Some (host, p)" "eq_ignore_ascii_case host ''github.com''"
  shows "github_path url = Some p"
  using assms by (simp add: github_path_def Let_def)

lemma https_path:
  assumes "CHR ''@'' \<notin> set path_text" "credentials = [] \<or> (\<exists>user. credentials = user @ ''@'' \<and> CHR ''@'' \<notin> set user)"
  shows "github_path (''https://'' @ credentials @ ''github.com/'' @ path_text) = Some path_text"
proof -
  let ?rest = "credentials @ ''github.com/'' @ path_text"
  show ?thesis
  proof (rule github_path_url)
    show "split_once ''://'' (''https://'' @ ?rest) = Some (''https'', ?rest)"
      using split_once_scheme [of "''https''" ?rest] by simp
    show "(case split_once ''@'' ?rest of None \<Rightarrow> ?rest | Some (_, after) \<Rightarrow> after) = ''github.com'' @ ''/'' @ path_text"
      using assms(2)
    proof
      assume "credentials = []"
      then show ?thesis using assms(1) split_once_char_None [of "CHR ''@''" ?rest] by simp
    next
      assume "\<exists>user. credentials = user @ ''@'' \<and> CHR ''@'' \<notin> set user"
      then obtain user where "credentials = user @ ''@''" "CHR ''@'' \<notin> set user" by blast
      then show ?thesis using split_once_char [of "CHR ''@''" user "''github.com/'' @ path_text"] by simp
    qed
    show "split_once ''/'' (''github.com'' @ ''/'' @ path_text) = Some (''github.com'', path_text)"
      by (rule slash_split) simp
  qed (simp_all add: eq_ignore_ascii_case_def)
qed

text \<open>
  Reading a GitHub remote: the scp, ssh and HTTPS spellings of a repository, with or without
  credentials and with or without the \<open>.git\<close> suffix, all give \<open>owner/repo\<close>.
\<close>

theorem github_slug_roundtrip:
  assumes "owner \<noteq> []" "repo \<noteq> []" "CHR ''/'' \<notin> set owner" "CHR ''/'' \<notin> set repo"
    and "CHR ''@'' \<notin> set owner" "CHR ''@'' \<notin> set repo" "CHR ''@'' \<notin> set user"
    and "strip_suffix ''.git'' (owner @ ''/'' @ repo) = None" "suffix = [] \<or> suffix = ''.git''"
    and "prefix_text \<in> {''git@github.com:'', ''ssh://git@github.com/'', ''https://github.com/'', ''https://'' @ user @ ''@github.com/''}"
  shows "parse_github_slug (prefix_text @ owner @ ''/'' @ repo @ suffix) = Some (owner @ ''/'' @ repo)"
proof (rule slug_of_path)
  have at: "CHR ''@'' \<notin> set (owner @ ''/'' @ repo @ suffix)" using assms(5,6,9) by auto
  have scp: "github_path (''git@github.com:'' @ p) = Some p" for p by (simp add: github_path_def)
  have ssh: "github_path (''ssh://git@github.com/'' @ p) = Some p" for p by (simp add: github_path_def)
  show "github_path (prefix_text @ owner @ ''/'' @ repo @ suffix) = Some (owner @ ''/'' @ repo @ suffix)"
    using assms(7,10) scp ssh https_path [OF at, of "[]"] https_path [OF at, of "user @ ''@''"] by auto
qed (use assms in auto)

theorem github_slug_roundtrip_witness:
  "parse_github_slug (''https://token@github.com/'' @ ''o'' @ ''/'' @ ''r'' @ ''.git'') = Some (''o/r'')"
  using github_slug_roundtrip [of "''o''" "''r''" "''token''" "''.git''" "''https://'' @ ''token'' @ ''@github.com/''"]
  by (simp add: strip_suffix_def)

end
