(* ===== verification/Daemon_Client.thy ===== *)
theory Daemon_Client
  imports World
begin

text \<open>
  The daemon-protocol client of \<open>crates/pa-daemon/src/big_brother/client.rs\<close>. The connection is the
  field \<open>client\<close> of the world, holding the number of the last request (a fresh client starts at 0);
  what the socket delivers is a list of events, the end of which is the request's timeout.
\<close>

fun read_line :: "'b host \<Rightarrow> wire_event list \<Rightarrow> (json \<times> wire_event list, failure) result" where
  "read_line host [] = Err (Failure ''timed out reading a daemon line'')"
| "read_line host (WireTimeout # events) = Err (Failure ''timed out reading a daemon line'')"
| "read_line host (WireClosed m # events) = Err (Failure ''the daemon closed the connection'')"
| "read_line host (WireLine line # events) = (case parse_json host (trim line) of
     None \<Rightarrow> Err (Failure ''parsing a daemon line'')
   | Some v \<Rightarrow> Ok (v, events))"

definition em_dash :: string where
  "em_dash = [CHR 0xE2, CHR 0x80, CHR 0x94]"

definition connection_error_context :: "'b host \<Rightarrow> path \<Rightarrow> string \<Rightarrow> string" where
  "connection_error_context host socket_path error =
     ''connecting to daemon socket '' @ path_string socket_path
     @ (if contains_str ''refused'' (to_ascii_lowercase error) \<and> socket_file host socket_path
        then '' '' @ em_dash @ '' the socket file exists but nothing is listening; it may be left over from a ''
          @ ''dead supervisor (the next supervisor start cleans it up); is the supervisor running?''
        else [])"

definition connect :: "'b host \<Rightarrow> path \<Rightarrow> ('b, unit) prog" where
  "connect host socket_path w = (case connect_error host socket_path of
     Some error \<Rightarrow> (Err (Failure (connection_error_context host socket_path error)), w)
   | None \<Rightarrow> (case read_line host (wire_connect host socket_path) of
        Err e \<Rightarrow> (Err e, w)
      | Ok _ \<Rightarrow> (Ok (), w\<lparr>client := Some 0\<rparr>)))"

definition request_id :: "u64 \<Rightarrow> string" where
  "request_id n = ''big-brother-'' @ show_nat (unat n)"

definition envelope :: "string \<Rightarrow> json \<Rightarrow> json" where
  "envelope ident command = Object
     [(''type'', String ''command''), (''id'', String ident),
      (''protocol'', Object [(''name'', String ''prime-agent.daemon''), (''version'', Integer 7)]),
      (''command'', command)]"

text \<open>The loop that reads lines until the one with the request's id; other lines are skipped.\<close>

fun await_reply :: "'b host \<Rightarrow> string \<Rightarrow> wire_event list \<Rightarrow> (json, failure) result" where
  "await_reply host ident [] = Err (Failure ''timed out waiting for the daemon'')"
| "await_reply host ident (event # events) = (case read_line host (event # events) of
     Err e \<Rightarrow> Err e
   | Ok (response, _) \<Rightarrow>
       if get_str response ''id'' = Some ident then
         if json_get response ''success'' \<noteq> Some (Bool True)
         then Err (Failure (''daemon command failed: '' @ print_json host response))
         else Ok response
       else await_reply host ident events)"

definition request :: "'b host \<Rightarrow> json \<Rightarrow> ('b, json) prog" where
  "request host command w =
     (let n = (case client w of None \<Rightarrow> 0 | Some n \<Rightarrow> n) + 1;
          msg = envelope (request_id n) command;
          w' = w\<lparr>client := Some n, wire_log := wire_log w @ [msg]\<rparr>
      in case wire_send host (wire_log w) msg of
           Some error \<Rightarrow> (Err (Failure error), w')
         | None \<Rightarrow> (await_reply host (request_id n) (wire_events host (wire_log w) msg), w'))"

definition roster :: "json \<Rightarrow> json list" where
  "roster response = (case as_array (json_index (json_index response ''data'') ''sessions'') of
     None \<Rightarrow> [] | Some rows \<Rightarrow> rows)"

definition list_sessions :: "'b host \<Rightarrow> ('b, json list) prog" where
  "list_sessions host =
     and_then (request host (Object [(''type'', String ''list'')])) (\<lambda>response. return (roster response))"

definition list_sessions_including_saved :: "'b host \<Rightarrow> ('b, json list) prog" where
  "list_sessions_including_saved host =
     and_then (request host (Object [(''type'', String ''list''), (''all'', Bool True)])) (\<lambda>response.
     return (roster response))"

definition get_messages :: "'b host \<Rightarrow> string \<Rightarrow> ('b, json) prog" where
  "get_messages host active_session_id =
     and_then (request host (Object
         [(''type'', String ''get_messages''), (''activeSessionId'', String active_session_id)])) (\<lambda>response.
     return (json_index response ''data''))"

definition session_id :: "'b host \<Rightarrow> json \<Rightarrow> (string, failure) result" where
  "session_id host row =
     (case Option.bind (case json_get row ''id'' of Some v \<Rightarrow> Some v | None \<Rightarrow> json_get row ''activeSessionId'') as_str of
        Some ident \<Rightarrow> Ok ident
      | None \<Rightarrow> Err (Failure (''roster row carries no session id: '' @ print_json host row)))"

definition ensure_client :: "'b host \<Rightarrow> path \<Rightarrow> ('b, unit) prog" where
  "ensure_client host socket_path w =
     (if client w = None then connect host socket_path w else (Ok (), w))"

subsection \<open>What a request does\<close>

lemma await_reply_Ok:
  "await_reply host ident events = Ok response \<Longrightarrow>
   get_str response ''id'' = Some ident \<and> json_get response ''success'' = Some (Bool True)"
  by (induction events) (auto split: result.splits if_splits)

lemma request_disk [simp]: "world_disk (snd (request host command w)) = world_disk w"
  "git_log (snd (request host command w)) = git_log w" "http_log (snd (request host command w)) = http_log w"
  "woken (snd (request host command w)) = woken w"
  by (simp_all add: request_def Let_def split: option.split)

lemma connect_disk [simp]: "world_disk (snd (connect host socket w)) = world_disk w"
  "woken (snd (connect host socket w)) = woken w" "wire_log (snd (connect host socket w)) = wire_log w"
  by (simp_all add: connect_def split: option.split result.split)

lemma show_nat_inj: "show_nat m = show_nat n \<Longrightarrow> m = n"
  by (metis digits_value_show_nat)

lemma request_id_inj: "request_id m = request_id n \<Longrightarrow> m = n"
  by (auto simp: request_id_def word_unat_eq_iff dest!: show_nat_inj)

lemma trim_request_id: "trim (request_id n) = request_id n"
  using show_nat_digits [of "unat n"] digit_solid
  by (intro trim_solid) (auto simp: request_id_def list_all_iff is_utf8_continuation_def is_whitespace_def)

text \<open>
  A reply is never taken for another request's: what \<open>request\<close> returns carries the id of the very
  command line it sent, reports success, and exactly that one command line was written; ids of
  different request numbers differ.
\<close>

theorem request_matches_reply:
  assumes "request host command w = (Ok response, w')"
  shows "\<exists>n. client w' = Some n \<and> n = (case client w of None \<Rightarrow> 0 | Some k \<Rightarrow> k) + 1
    \<and> get_str response ''id'' = Some (request_id n) \<and> json_get response ''success'' = Some (Bool True)
    \<and> wire_log w' = wire_log w @ [envelope (request_id n) command]
    \<and> (\<forall>m. request_id m = request_id n \<longrightarrow> m = n)"
  using assms request_id_inj by (auto simp: request_def Let_def split: option.splits dest!: await_reply_Ok)

definition echo_host :: "unit host" where
  "echo_host = unit_host\<lparr>wire_events := (\<lambda>_ _. [WireLine ''stale'', WireLine ''mine'']),
     parse_json := (\<lambda>line. if line = ''stale''
       then Some (Object [(''id'', String ''big-brother-0'')])
       else Some (Object [(''id'', String ''big-brother-1''), (''success'', Bool True)]))\<rparr>"

lemma echo_trim: "trim ''stale'' = ''stale''" "trim ''mine'' = ''mine''"
  by (subst trim_ascii, simp add: is_utf8_continuation_def, simp add: is_whitespace_def)+

lemma request_id_one: "request_id 1 = ''big-brother-1''"
  by (simp add: request_id_def digit_char_def show_nat.simps char_of_def bit_Suc_0_iff)

theorem request_matches_reply_witness:
  "\<exists>response w'. request echo_host Null (start_world []) = (Ok response, w')
     \<and> get_str response ''id'' = Some (request_id 1)"
proof -
  have "wire_send echo_host ws m = None" "wire_events echo_host ws m = [WireLine ''stale'', WireLine ''mine'']"
    "client (start_world ([] :: unit disk)) = None" for ws m
    by (simp_all add: echo_host_def unit_host_def bare_host_def start_world_def)
  moreover have "await_reply echo_host ''big-brother-1'' [WireLine ''stale'', WireLine ''mine'']
    = Ok (Object [(''id'', String ''big-brother-1''), (''success'', Bool True)])"
    by (simp add: echo_host_def echo_trim get_str_def)
  ultimately obtain response w' where run: "request echo_host Null (start_world []) = (Ok response, w')"
    by (simp add: request_def Let_def request_id_one del: await_reply.simps)
  from request_matches_reply [OF run] run show ?thesis by (auto simp: start_world_def)
qed

end
