(* ===== verification/Store_Effects.thy ===== *)
theory Store_Effects
  imports World Store_Records
begin

text \<open>
  What a program may do to the files of a repository: only runs of the store's operations. The
  relation \<open>advances\<close> says that a disk some run reached is taken to a disk a longer run reaches; it is
  a preorder, so the composition laws of \<open>effect_preorder\<close> apply to it, and every invariant of runs
  carries over to programs within it. A disk reached from a fresh one holds only record files of
  object ids, so what the records of a branch name is a legal argument of \<open>update_delivery\<close>.
\<close>

definition advances :: "'b codec \<Rightarrow> store \<Rightarrow> 'b world \<Rightarrow> 'b world \<Rightarrow> bool" where
  "advances codec store w w' \<longleftrightarrow>
     (\<forall>disk trace. fresh_disk store disk \<longrightarrow> runs codec store disk trace (world_disk w) \<longrightarrow>
        (\<exists>more. runs codec store disk (trace @ more) (world_disk w')))"

definition reached :: "'b codec \<Rightarrow> store \<Rightarrow> 'b disk \<Rightarrow> bool" where
  "reached codec store d \<longleftrightarrow> (\<exists>disk trace. fresh_disk store disk \<and> runs codec store disk trace d)"

interpretation store_run: effect_preorder "advances codec store"
proof
  show "advances codec store w w" for w :: "'a world"
    unfolding advances_def by (metis append_Nil2)
  show "advances codec store u w" if "advances codec store u v" "advances codec store v w" for u v w :: "'a world"
    using that unfolding advances_def by (metis append_assoc)
qed

lemma advances_same_disk:
  "world_disk w' = world_disk w \<Longrightarrow> advances codec store w w'"
  using store_run.refl_effect [of codec store w] by (simp add: advances_def)

lemma within_same_disk:
  "(\<And>w. world_disk (snd (m w)) = world_disk w) \<Longrightarrow> within (advances codec store) m"
  by (simp add: within_def advances_same_disk)

lemma advances_unreached: "(reached codec store (world_disk w) \<Longrightarrow> advances codec store w w') \<Longrightarrow> advances codec store w w'"
  unfolding advances_def reached_def by blast

lemma store_read_within [simp]: "within (advances codec store) (store_read host f)"
  by (rule within_same_disk) simp

lemma read_clock_within [simp]: "within (advances codec store) (read_clock host)"
  by (rule within_same_disk) simp

lemma store_call_within:
  assumes "op_wf op" "\<And>env disk. \<exists>f. run_op env (host_codec host) store op disk = reply_of f (action env disk)"
  shows "within (advances (host_codec host) store) (store_call host action)"
proof (rule withinI)
  fix w r w'
  assume run: "store_call host action w = (r, w')"
  let ?env = "env_now host w"
  obtain f where f: "run_op ?env (host_codec host) store op (world_disk w) = reply_of f (action ?env (world_disk w))"
    using assms(2) by blast
  have "snd (reply_of f q) = snd q" for q
    by (cases q; cases "fst q") auto
  then have "snd (run_op ?env (host_codec host) store op (world_disk w)) = world_disk w'"
    using f run by (auto simp: store_call_def split: prod.splits)
  then obtain reply where "run_op ?env (host_codec host) store op (world_disk w) = (reply, world_disk w')"
    by (metis prod.collapse)
  then show "advances (host_codec host) store w w'"
    unfolding advances_def using runs.step [OF _ assms(1)] by blast
qed

lemma store_ops_within [simp]:
  "within (advances (host_codec host) store) (store_call host (\<lambda>env. record_observation_failure env (host_codec host) store b k m))"
  "within (advances (host_codec host) store) (store_call host (\<lambda>env. clear_observation_failure env (host_codec host) store b))"
  "within (advances (host_codec host) store) (store_call host (\<lambda>env. admit env (host_codec host) store b h))"
  "within (advances (host_codec host) store) (store_call host (\<lambda>env. retry_attempt env (host_codec host) store b h))"
  "within (advances (host_codec host) store) (store_call host (\<lambda>env. fail_range env (host_codec host) store b h m))"
  "within (advances (host_codec host) store) (store_call host (\<lambda>env. complete env (host_codec host) store review))"
  "within (advances (host_codec host) store) (store_call host (\<lambda>env. seed_cursor env (host_codec host) store b h))"
  by (rule store_call_within [of "RecordObservationFailure b k m"], simp, metis run_op.simps(2))
    (rule store_call_within [of "ClearObservationFailure b"], simp, metis run_op.simps(3),
     rule store_call_within [of "Admit b h"], simp, metis run_op.simps(4),
     rule store_call_within [of "RetryAttempt b h"], simp, metis run_op.simps(5),
     rule store_call_within [of "FailRange b h m"], simp, metis run_op.simps(6),
     rule store_call_within [of "Complete review"], simp, metis run_op.simps(7),
     rule store_call_within [of "SeedCursor b h"], simp, metis run_op.simps(1))

lemma update_delivery_within:
  assumes "revision_ok h"
  shows "within (advances (host_codec host) store)
    (store_call host (\<lambda>env. update_delivery env (host_codec host) store b h channel (ds env)))"
proof -
  have "advances (host_codec host) store w (snd (store_call host (\<lambda>env. update_delivery env (host_codec host) store b h channel (ds env)) w))" for w
  proof -
    have "within (advances (host_codec host) store)
        (store_call host (\<lambda>env. update_delivery env (host_codec host) store b h channel (ds (env_now host w))))"
      by (rule store_call_within [of "UpdateDelivery b h channel (ds (env_now host w))"]) (simp add: assms, metis run_op.simps(8))
    then show ?thesis by (simp add: within_def store_call_def)
  qed
  then show ?thesis by (simp add: within_def)
qed

subsection \<open>The record files of a reached disk\<close>

definition tidy :: "store \<Rightarrow> 'b disk \<Rightarrow> bool" where
  "tidy store disk \<longleftrightarrow> (\<forall>p branch. bt_get disk p \<noteq> None \<longrightarrow> path_parent p = Some (records_branch_dir store branch)
     \<longrightarrow> path_extension p = Some ''json'' \<longrightarrow> (\<exists>b h. revision_ok h \<and> p = record_path store b h))"

lemma run_op_touches:
  assumes run: "run_op env codec store op disk = (reply, disk')" and codec: "codec_ok codec" and op: "op_wf op"
  obtains b h where "revision_ok h" "agree_off {state_path store, temp_path (state_path store),
    record_path store b h, temp_path (record_path store b h)} disk disk'"
proof -
  have sub: "agree_off P disk disk' \<Longrightarrow> P \<subseteq> Q \<Longrightarrow> agree_off Q disk disk'" for P Q
    by (auto simp: agree_off_def)
  have state_only: "agree_off {state_path store, temp_path (state_path store)} disk disk'"
    if "transact env codec store decide disk = (r, disk')" for decide :: "repository_state \<Rightarrow> ('x decision, state_error) result" and r
    using that codec by (cases rule: transact_cases) (auto intro: sub)
  note pick = that
  have done_state: thesis if only: "agree_off {state_path store, temp_path (state_path store)} disk disk'"
    by (rule pick [of rev_a "[]"]) (use only revisions_ok in \<open>auto intro: sub\<close>)
  show thesis
  proof (cases op)
    case (Complete review)
    then obtain r where r: "complete env codec store review disk = (r, disk')" using run by (auto simp: reply_of_eq)
    then show thesis
    proof (cases rule: complete_cases)
      case (rejected e)
      then show thesis by (intro done_state) simp
    next
      case (locked state)
      have head: "revision_ok (record_head (stamp_completed (now_iso env 0) review))" using locked by simp
      from locked(5) codec head have "agree_off (insert (state_path store) (touched store review)) disk disk'"
        by (cases rule: complete_locked_cases) (auto intro: sub)
      then show thesis
        by (intro that [of "record_head review" "record_branch review"]) (use locked in \<open>auto simp: touched_def Let_def intro: sub\<close>)
    qed
  next
    case (UpdateDelivery b h channel ds)
    then obtain r where r: "update_delivery env codec store b h channel ds disk = (r, disk')" "revision_ok h"
      using run op by (auto simp: reply_of_eq)
    have "record_path store b h \<noteq> temp_path (record_path store b h)"
      using revision_ok_no_slash [OF r(2)] revision_ok_no_dot [OF r(2)] by simp
    with r(1) codec refl have "agree_off {record_path store b h, temp_path (record_path store b h)} disk disk'"
      by (cases rule: update_delivery_cases) (auto intro: sub)
    with r(2) show thesis by (intro that [of h b]) (auto intro: sub)
  qed (use run state_only in \<open>auto simp: reply_of_eq seed_cursor_def admit_def record_observation_failure_def
      clear_observation_failure_def retry_attempt_def fail_range_def validate_revision_cases
      intro!: done_state split: if_splits\<close>)
qed

lemma temp_not_json:
  assumes "revision_ok h"
  shows "path_extension (temp_path (record_path store b h)) \<noteq> Some ''json''"
proof -
  have split: "rsplit_once (CHR ''.'') (''.'' @ h @ ''.json.tmp'') = Some (''.'' @ h @ ''.json'', ''tmp'')"
    using rsplit_once_append [of "CHR ''.''" "''tmp''" "''.'' @ h @ ''.json''"] by simp
  have "path_file_name (temp_path (record_path store b h)) = Some (''.'' @ h @ ''.json.tmp'')"
    unfolding record_temp_eq [OF revision_ok_no_slash [OF assms]] by (subst path_file_name_snoc) auto
  with split show ?thesis by (simp add: path_extension_def)
qed

lemma state_not_in_records:
  "path_parent (state_path store) \<noteq> Some (records_branch_dir store branch)"
  "path_parent (temp_path (state_path store)) \<noteq> Some (records_branch_dir store branch)"
  by (simp_all add: state_temp_eq records_branch_dir_eq) (simp add: state_path_eq)

lemma tidy_step:
  assumes "tidy store disk" "run_op env codec store op disk = (reply, disk')" "codec_ok codec" "op_wf op"
  shows "tidy store disk'"
  unfolding tidy_def
proof (intro allI impI)
  fix p branch
  assume p: "bt_get disk' p \<noteq> None" "path_parent p = Some (records_branch_dir store branch)" "path_extension p = Some ''json''"
  obtain b h where bh: "revision_ok h" "agree_off {state_path store, temp_path (state_path store),
      record_path store b h, temp_path (record_path store b h)} disk disk'"
    using run_op_touches [OF assms(2-4)] by blast
  have "p \<noteq> state_path store" "p \<noteq> temp_path (state_path store)" "p \<noteq> temp_path (record_path store b h)"
    using p temp_not_json [OF bh(1)] state_not_in_records by auto
  then have "p = record_path store b h \<or> bt_get disk' p = bt_get disk p" using bh(2) by (auto simp: agree_off_def)
  then show "\<exists>b h. revision_ok h \<and> p = record_path store b h"
    using assms(1) p bh(1) unfolding tidy_def by metis
qed

lemma runs_tidy:
  assumes "runs codec store disk trace disk'" "codec_ok codec" "fresh_disk store disk"
  shows "tidy store disk'"
  using assms(1)
proof induction
  case start
  have "bt_get disk p = None" if parent: "path_parent p = Some (records_branch_dir store branch)" for p branch
  proof -
    from parent have "p = records_branch_dir store branch @ [last p]"
      by (metis append_butlast_last_id option.distinct(1) option.sel path_parent_def)
    then obtain rest where "p = store_repo_dir store @ ''records'' # rest"
      by (metis append.assoc append_Cons append_Nil records_branch_dir_eq)
    then show ?thesis using assms(3) by (simp add: fresh_disk_def)
  qed
  then show ?case by (auto simp: tidy_def)
next
  case (step trace d op env reply d')
  then show ?case using tidy_step [OF _ step.hyps(3) assms(2) step.hyps(2)] by blast
qed

lemma records_decode:
  assumes "records env codec store disk branch = Ok rs" "r \<in> set rs"
  obtains p where "bt_get disk p \<noteq> None" "path_parent p = Some (records_branch_dir store branch)"
    "path_extension p = Some ''json''" "decodes_to codec disk branch p r"
proof -
  obtain ps where ps: "read_records env codec disk branch ps = Ok rs"
    "\<And>p. p \<in> set ps \<Longrightarrow> path_parent p = Some (records_branch_dir store branch) \<and> path_extension p = Some ''json''"
    using assms by (fastforce simp: records_def Let_def fs_read_dir_def split: option.splits if_splits)
  obtain p where "p \<in> set ps" "decodes_to codec disk branch p r"
    using read_records_Ok [OF ps(1)] assms(2) by (metis in_set_conv_nth list_all2_conv_all_nth)
  with ps(2) show thesis by (intro that [of p]) (auto simp: decodes_to_def)
qed

lemma reached_records_heads:
  assumes "reached codec store disk" "codec_ok codec" "records env codec store disk branch = Ok rs" "r \<in> set rs"
  shows "revision_ok (record_head r) \<and> record_branch r = branch
    \<and> stored_record codec store disk branch (record_head r) = Some r"
proof -
  obtain d0 trace where run: "fresh_disk store d0" "runs codec store d0 trace disk"
    using assms(1) by (auto simp: reached_def)
  obtain p where p: "bt_get disk p \<noteq> None" "path_parent p = Some (records_branch_dir store branch)"
      "path_extension p = Some ''json''" "decodes_to codec disk branch p r"
    using records_decode [OF assms(3,4)] by blast
  obtain b h where bh: "revision_ok h" "p = record_path store b h"
    using runs_tidy [OF run(2) assms(2) run(1)] p by (auto simp: tidy_def)
  have "record_present codec store disk b h"
    using runs_records [OF run(2) assms(2) run(1)] p(1) bh by (auto simp: records_sound_def)
  then have h: "record_head r = h" "stored_record codec store disk b h = Some r"
    using p(4) bh(2) by (auto simp: record_present_def record_fits_def stored_record_def decodes_to_def split: option.splits)
  have "c \<noteq> ''/''" if "c = h @ ''.json''" for c using that by simp
  then have "records_branch_dir store b = records_branch_dir store branch"
    using p(2) bh record_path_eq [OF revision_ok_no_slash [OF bh(1)]] by simp
  then have "record_path store branch h = record_path store b h"
    by (simp add: record_path_eq [OF revision_ok_no_slash [OF bh(1)]])
  then show ?thesis using h p(4) bh(1) by (simp add: stored_record_def decodes_to_def)
qed

end
