(* ===== verification/Delivery.thy ===== *)
theory Delivery
  imports Git Store_Effects
begin

text \<open>
  Delivery channels: \<open>crates/pa-daemon/src/big_brother/delivery.rs\<close>. Requests go to \<open>http_reply\<close> and
  are appended to \<open>http_log\<close>; a channel's outcome is recorded on the review record through the store.
\<close>

definition STATUS_CONTEXT :: string where
  "STATUS_CONTEXT = ''big-brother/review''"

definition STATUS_DESCRIPTION_CAP :: nat where
  "STATUS_DESCRIPTION_CAP = 140"

definition RETRY_AFTER_MS :: nat where
  "RETRY_AFTER_MS = 60000"

definition COMMIT_STATUS_CHANNEL :: string where
  "COMMIT_STATUS_CHANNEL = ''commit-status''"

definition BARK_CHANNEL :: string where
  "BARK_CHANNEL = ''bark''"

record bark_config =
  bark_key :: string
  bark_server :: string

record github_config =
  github_token :: string
  github_api_url :: string

record delivery_channels =
  bark :: "bark_config option"
  github :: "github_config option"

definition present_value :: "string option \<Rightarrow> string option" where
  "present_value v = (case v of None \<Rightarrow> None | Some s \<Rightarrow> if trim s = [] then None else Some s)"

definition resolve_channels :: "(string \<Rightarrow> string option) \<Rightarrow> delivery_channels" where
  "resolve_channels lookup =
     (let value_of = (\<lambda>name. present_value (lookup name));
          or_else = (\<lambda>v fallback. case v of None \<Rightarrow> fallback | Some s \<Rightarrow> s)
      in \<lparr>bark = map_option (\<lambda>key. \<lparr>bark_key = key,
              bark_server = or_else (value_of ''BARK_SERVER'') ''https://api.day.app''\<rparr>) (value_of ''BARK_KEY''),
          github = map_option (\<lambda>token. \<lparr>github_token = token,
              github_api_url = or_else (value_of ''BIG_BROTHER_GITHUB_API_URL'') ''https://api.github.com''\<rparr>)
            (value_of ''BIG_BROTHER_GITHUB_TOKEN'')\<rparr>)"

definition channels_from_env :: "'b host \<Rightarrow> delivery_channels" where
  "channels_from_env host = resolve_channels (\<lambda>name. present_value (env_var host name))"

definition channels_empty :: "delivery_channels \<Rightarrow> bool" where
  "channels_empty channels \<longleftrightarrow> bark channels = None \<and> github channels = None"

subsection \<open>Payloads\<close>

text \<open>A string capped to \<open>cap\<close> characters, the last one an ellipsis when it was longer.\<close>

definition capped :: "string \<Rightarrow> nat \<Rightarrow> string" where
  "capped txt cap = (if cap < chars_count txt then chars_take (cap - 1) txt @ ellipsis else txt)"

definition short_revision8 :: "string \<Rightarrow> string" where
  "short_revision8 revision = chars_take 8 revision"

definition conclusion_line :: "review_record \<Rightarrow> string" where
  "conclusion_line record =
     (case Option.bind (conclusion record) (\<lambda>txt. find (\<lambda>line. trim line \<noteq> []) (str_lines txt)) of
        None \<Rightarrow> ''review completed''
      | Some line \<Rightarrow> line)"

definition status_payload :: "review_record \<Rightarrow> json" where
  "status_payload record = Object
     [(''state'', String ''success''), (''context'', String STATUS_CONTEXT),
      (''description'', String (capped (conclusion_line record) STATUS_DESCRIPTION_CAP))]"

definition bark_payload :: "string \<Rightarrow> review_record \<Rightarrow> json" where
  "bark_payload repo_name record = Object
     [(''title'', String (''big-brother '' @ repo_name)),
      (''body'', String (''reviewed '' @ short_revision8 (record_base record) @ ''..''
         @ short_revision8 (record_head record) @ '': '' @ conclusion_line record)),
      (''group'', String ''big-brother'')]"

definition delivery_user_agent :: "'b host \<Rightarrow> string" where
  "delivery_user_agent host = ''big-brother/'' @ pkg_version host"

subsection \<open>Sending\<close>

definition http_send :: "'b host \<Rightarrow> http_request \<Rightarrow> ('b world, http_outcome, 'e) action" where
  "http_send host req w = (Ok (http_reply host (http_log w) req), w\<lparr>http_log := http_log w @ [req]\<rparr>)"

definition is_success_status :: "nat \<Rightarrow> bool" where
  "is_success_status code \<longleftrightarrow> 200 \<le> code \<and> code < 300"

definition status_url :: "github_config \<Rightarrow> string \<Rightarrow> review_record \<Rightarrow> string" where
  "status_url config slug record =
     trim_end_matches_char (CHR ''/'') (github_api_url config) @ ''/repos/'' @ slug @ ''/statuses/''
       @ record_head record"

definition commit_status_request :: "'b host \<Rightarrow> github_config \<Rightarrow> string \<Rightarrow> review_record \<Rightarrow> http_request" where
  "commit_status_request host config slug record =
     HttpPost (status_url config slug record)
       [(''Authorization'', ''Bearer '' @ github_token config), (''User-Agent'', delivery_user_agent host),
        (''Accept'', ''application/vnd.github+json'')]
       (status_payload record)"

definition send_commit_status ::
  "'b host \<Rightarrow> github_config \<Rightarrow> string \<Rightarrow> review_record \<Rightarrow> ('b world, unit, string) action" where
  "send_commit_status host config slug record =
     and_then (http_send host (commit_status_request host config slug record)) (\<lambda>outcome. case outcome of
       HttpUnsent m \<Rightarrow> throw (''POST '' @ status_url config slug record)
     | HttpResponse code display body \<Rightarrow>
         if is_success_status code then return ()
         else throw (''commit status POST returned '' @ display @ '': '' @ capped body 300))"

definition bark_request :: "'b host \<Rightarrow> bark_config \<Rightarrow> string \<Rightarrow> review_record \<Rightarrow> http_request" where
  "bark_request host config repo_name record =
     HttpPost (trim_end_matches_char (CHR ''/'') (bark_server config) @ ''/'' @ bark_key config)
       [(''User-Agent'', delivery_user_agent host)] (bark_payload repo_name record)"

definition send_bark ::
  "'b host \<Rightarrow> bark_config \<Rightarrow> string \<Rightarrow> review_record \<Rightarrow> ('b world, unit, string) action" where
  "send_bark host config repo_name record =
     and_then (http_send host (bark_request host config repo_name record)) (\<lambda>outcome. case outcome of
       HttpUnsent m \<Rightarrow> throw ''POST the bark server''
     | HttpResponse code display body \<Rightarrow>
         if \<not> is_success_status code then throw (''bark POST returned '' @ display @ '': '' @ capped body 300)
         else (case parse_json host (trim body) of
           None \<Rightarrow> throw (''bark answered non-JSON: '' @ capped body 300)
         | Some parsed \<Rightarrow>
             if Option.bind (json_get parsed ''code'') as_i64 \<noteq> Some 200
             then throw (''bark rejected the push: '' @ capped (print_json host parsed) 300)
             else return ()))"

subsection \<open>Retries and outcomes\<close>

definition retry_due :: "delivery_state option \<Rightarrow> nat \<Rightarrow> bool" where
  "retry_due entry now_ms = (case entry of
     None \<Rightarrow> True
   | Some state \<Rightarrow>
       if delivered state then False
       else (let last_ms = (case iso_to_unix_ms (last_attempt_at state) of None \<Rightarrow> 0 | Some ms \<Rightarrow> ms)
             in RETRY_AFTER_MS \<le> now_ms - last_ms))"

definition record_outcome ::
  "'b host \<Rightarrow> store \<Rightarrow> string \<Rightarrow> review_record \<Rightarrow> string \<Rightarrow> (unit, string) result \<Rightarrow> ('b, unit) prog" where
  "record_outcome host store branch record channel outcome =
     map_error (StateFailure (''recording '' @ channel @ '' delivery on '' @ record_head record))
       (store_call host (\<lambda>env. update_delivery env (host_codec host) store branch (record_head record) channel
          (advance (bt_get (delivery record) channel) (now_iso env 0) (result_err outcome))))"

definition deliver_channel ::
  "'b host \<Rightarrow> store \<Rightarrow> string \<Rightarrow> review_record \<Rightarrow> string \<Rightarrow> nat \<Rightarrow> ('b world, unit, string) action
   \<Rightarrow> ('b, unit) prog" where
  "deliver_channel host store branch record channel now_ms send =
     (if retry_due (bt_get (delivery record) channel) now_ms
      then and_then (attempt send) (\<lambda>outcome. record_outcome host store branch record channel outcome)
      else return ())"

definition deliver_record ::
  "'b host \<Rightarrow> store \<Rightarrow> delivery_channels \<Rightarrow> string \<Rightarrow> review_record \<Rightarrow> string option \<Rightarrow> string
   \<Rightarrow> ('b, unit) prog" where
  "deliver_record host store channels branch record slug repo_name =
     and_then (read_clock host) (\<lambda>now_ms.
     and_then (case (github channels, slug) of
         (Some config, Some target) \<Rightarrow>
           deliver_channel host store branch record COMMIT_STATUS_CHANNEL now_ms
             (send_commit_status host config target record)
       | _ \<Rightarrow> return ()) (\<lambda>_.
     case bark channels of
       Some config \<Rightarrow>
         deliver_channel host store branch record BARK_CHANNEL now_ms (send_bark host config repo_name record)
     | None \<Rightarrow> return ()))"

definition repository_name :: "path \<Rightarrow> string" where
  "repository_name git_root = (case path_file_name git_root of None \<Rightarrow> ''repository'' | Some name \<Rightarrow> name)"

definition deliver_pending ::
  "'b host \<Rightarrow> store \<Rightarrow> delivery_channels \<Rightarrow> path \<Rightarrow> ('b, unit) prog" where
  "deliver_pending host store channels git_root =
     (if channels_empty channels then return ()
      else
      and_then (if github channels \<noteq> None then map_error Failure (origin_github_slug host git_root)
                else return None) (\<lambda>slug.
      and_then (case http_build host of
          Some m \<Rightarrow> throw (Failure ''building the delivery HTTP client'') | None \<Rightarrow> return ()) (\<lambda>_.
      and_then (map_error (StateFailure []) (store_read host (\<lambda>env disk. load env (host_codec host) store disk))) (\<lambda>state.
      for_each (bt_keys (branches state)) (\<lambda>branch.
        and_then (map_error (StateFailure [])
            (store_read host (\<lambda>env disk. records env (host_codec host) store disk branch))) (\<lambda>rs.
        for_each rs (\<lambda>record.
          deliver_record host store channels branch record slug (repository_name git_root))))))))"

subsection \<open>Payload bounds\<close>

lemma capped_count: "0 < cap \<Longrightarrow> chars_count (capped t cap) \<le> cap"
  by (auto simp: capped_def chars_count_take_ellipsis)

text \<open>
  The Commit Status description always fits GitHub's limit of 140 characters, and is the
  conclusion line itself or its first 139 characters followed by an ellipsis.
\<close>

theorem status_description_fits:
  "\<exists>d. json_get (status_payload review) ''description'' = Some (String d) \<and> chars_count d \<le> 140
    \<and> (d = conclusion_line review \<or>
       140 < chars_count (conclusion_line review) \<and> d = chars_take 139 (conclusion_line review) @ ellipsis)"
proof -
  have "chars_count (capped (conclusion_line review) 140) \<le> 140" by (rule capped_count) simp
  then show ?thesis by (simp add: status_payload_def STATUS_DESCRIPTION_CAP_def) (simp add: capped_def)
qed

subsection \<open>What is sent\<close>

lemma http_send_fields [simp]:
  "world_disk (snd (http_send host req w)) = world_disk w"
  "http_log (snd (http_send host req w)) = http_log w @ [req]"
  "fst (http_send host req w) = Ok (http_reply host (http_log w) req)"
  by (simp_all add: http_send_def)

lemma send_commit_status_fields [simp]:
  "world_disk (snd (send_commit_status host config slug review w)) = world_disk w"
  "http_log (snd (send_commit_status host config slug review w)) = http_log w @ [commit_status_request host config slug review]"
  by (simp_all add: send_commit_status_def and_then_def http_send_def return_def throw_def split: http_outcome.split)

lemma send_bark_fields [simp]:
  "world_disk (snd (send_bark host config name review w)) = world_disk w"
  "http_log (snd (send_bark host config name review w)) = http_log w @ [bark_request host config name review]"
  by (simp_all add: send_bark_def and_then_def http_send_def return_def throw_def split: http_outcome.split option.split)

lemma record_outcome_log [simp]:
  "http_log (snd (record_outcome host store branch review channel outcome w)) = http_log w"
  by (simp add: record_outcome_def map_error_def case_prod_unfold)

lemma deliver_channel_log:
  assumes "\<And>v. http_log (snd (send v)) = http_log v @ [req]"
  shows "http_log (snd (deliver_channel host store branch review channel now_ms send w))
    = http_log w @ (if retry_due (bt_get (delivery review) channel) now_ms then [req] else [])"
  using assms [of w] by (auto simp: deliver_channel_def attempt_def and_then_def return_def split: prod.splits)

text \<open>The requests a record's channels are due for at a time.\<close>

definition due_requests ::
  "'b host \<Rightarrow> delivery_channels \<Rightarrow> review_record \<Rightarrow> string option \<Rightarrow> string \<Rightarrow> nat \<Rightarrow> http_request list list" where
  "due_requests host channels review slug repo_name now_ms =
     [case (github channels, slug) of
        (Some config, Some target) \<Rightarrow>
          if retry_due (bt_get (delivery review) COMMIT_STATUS_CHANNEL) now_ms
          then [commit_status_request host config target review] else []
      | _ \<Rightarrow> [],
      case bark channels of
        Some config \<Rightarrow>
          if retry_due (bt_get (delivery review) BARK_CHANNEL) now_ms
          then [bark_request host config repo_name review] else []
      | None \<Rightarrow> []]"

lemma status_channel_log:
  "http_log (snd ((case (github channels, slug) of
         (Some config, Some target) \<Rightarrow>
           deliver_channel host store branch review COMMIT_STATUS_CHANNEL now_ms
             (send_commit_status host config target review)
       | _ \<Rightarrow> return ()) w)) = http_log w @ due_requests host channels review slug repo_name now_ms ! 0"
  by (auto simp: due_requests_def deliver_channel_log return_def split: option.split)

lemma bark_channel_log:
  "http_log (snd ((case bark channels of
       Some config \<Rightarrow>
         deliver_channel host store branch review BARK_CHANNEL now_ms (send_bark host config repo_name review)
     | None \<Rightarrow> return ()) w)) = http_log w @ due_requests host channels review slug repo_name now_ms ! 1"
  by (auto simp: due_requests_def deliver_channel_log return_def split: option.split)

text \<open>
  C16. One pass over a record sends exactly the requests its channels are due for at the time the pass
  read: a channel that is delivered, not configured, or attempted less than a minute ago gets none,
  every other gets one. Only a failure to record the first channel's outcome ends the pass before the
  second channel.
\<close>

theorem delivery_sends_exactly_the_due:
  assumes "deliver_record host store channels branch review slug repo_name w = (r, w')"
  defines "due \<equiv> due_requests host channels review slug repo_name (clock_ms (env_now host w) 0)"
  shows "(r = Ok () \<longrightarrow> http_log w' = http_log w @ concat due)
    \<and> (http_log w' = http_log w @ concat due \<or> http_log w' = http_log w @ due ! 0)"
proof -
  let ?now = "clock_ms (env_now host w) 0"
  let ?status = "case (github channels, slug) of
         (Some config, Some target) \<Rightarrow>
           deliver_channel host store branch review COMMIT_STATUS_CHANNEL ?now
             (send_commit_status host config target review)
       | _ \<Rightarrow> return ()"
  let ?bark = "case bark channels of
       Some config \<Rightarrow>
         deliver_channel host store branch review BARK_CHANNEL ?now (send_bark host config repo_name review)
     | None \<Rightarrow> return ()"
  let ?v = "w\<lparr>world_tick := Suc (world_tick w)\<rparr>"
  have run: "and_then ?status (\<lambda>_. ?bark) ?v = (r, w')"
    using assms(1) by (simp add: deliver_record_def)
  have all: "concat due = due ! 0 @ due ! 1" by (simp add: due_def due_requests_def)
  from run show ?thesis
  proof (cases rule: and_then_cases)
    case (ok u v)
    have "http_log v = http_log w @ due ! 0"
      using status_channel_log [where w = ?v and host = host and channels = channels and slug = slug and store = store
            and branch = branch and review = review and now_ms = ?now and repo_name = repo_name] ok(1) by (simp add: due_def)
    moreover have "http_log w' = http_log v @ due ! 1"
      using bark_channel_log [where w = v and host = host and channels = channels and slug = slug and store = store
            and branch = branch and review = review and now_ms = ?now and repo_name = repo_name] ok(2) by (simp add: due_def)
    ultimately show ?thesis by (simp add: all)
  next
    case (err e)
    then show ?thesis
      using status_channel_log [where w = ?v and host = host and channels = channels and slug = slug and store = store
            and branch = branch and review = review and now_ms = ?now and repo_name = repo_name] by (simp add: due_def)
  qed
qed

lemma result_err_None [simp]: "result_err r = None \<longleftrightarrow> r = Ok ()"
  by (cases r) auto

lemma deliver_channel_due:
  assumes "retry_due (bt_get (delivery review) channel) now_ms" "send w = (outcome, v)"
  shows "deliver_channel host store branch review channel now_ms send w
    = record_outcome host store branch review channel outcome v"
  using assms by (simp add: deliver_channel_def attempt_def and_then_def)

lemma record_outcome_Ok:
  assumes "record_outcome host store branch review channel outcome v = (Ok (), w')"
  shows "update_delivery (env_now host v) (host_codec host) store branch (record_head review) channel
    (advance (bt_get (delivery review) channel) (now_iso (env_now host v) 0) (result_err outcome)) (world_disk v)
    = (Ok (), world_disk w')"
  using assms by (auto simp: record_outcome_def store_call_def map_error_def split: prod.splits)

lemma retry_due_advance:
  assumes "t < 253402300800000"
  shows "retry_due (Some (advance previous (iso_from_unix_ms t) error)) later
    \<longleftrightarrow> error \<noteq> None \<and> t + 60000 \<le> later"
  by (auto simp: retry_due_def advance_def delivered_def iso_print_parse [OF assms] RETRY_AFTER_MS_def)

lemma advance_attempts:
  "unat (delivery_attempts (advance previous t error))
    = min ((case previous of None \<Rightarrow> 0 | Some e \<Rightarrow> unat (delivery_attempts e)) + 1) (2 ^ 32 - 1)"
  by (simp add: advance_def unat_saturating_add split: option.split)

text \<open>
  C11. The outcome of a send is durable and decides the next one: once a due channel was sent and its
  outcome recorded, the stored record carries an entry with that outcome and one more attempt (the
  count saturates), a delivered channel is never due again, and a failed one is due exactly from one
  minute after the attempt.
\<close>

theorem delivery_outcome_is_durable:
  assumes codec: "codec_ok (host_codec host)" and head: "revision_ok (record_head review)"
    and due: "retry_due (bt_get (delivery review) channel) now_ms"
    and sent: "send w = (outcome, v)"
    and run: "deliver_channel host store branch review channel now_ms send w = (Ok (), w')"
    and clock: "clock_ms (env_now host v) 0 < 253402300800000"
  shows "\<exists>stored entry. stored_record (host_codec host) store (world_disk w') branch (record_head review) = Some stored
    \<and> bt_get (delivery stored) channel = Some entry \<and> last_error entry = result_err outcome
    \<and> unat (delivery_attempts entry) = min ((case bt_get (delivery review) channel of None \<Rightarrow> 0
        | Some e \<Rightarrow> unat (delivery_attempts e)) + 1) (2 ^ 32 - 1)
    \<and> (\<forall>later. retry_due (bt_get (delivery stored) channel) later
         \<longleftrightarrow> outcome \<noteq> Ok () \<and> clock_ms (env_now host v) 0 + 60000 \<le> later)"
proof -
  let ?p = "record_path store branch (record_head review)"
  let ?entry = "advance (bt_get (delivery review) channel) (now_iso (env_now host v) 0) (result_err outcome)"
  have temp: "?p \<noteq> temp_path ?p" using revision_ok_no_slash [OF head] revision_ok_no_dot [OF head] by simp
  have "update_delivery (env_now host v) (host_codec host) store branch (record_head review) channel ?entry (world_disk v)
    = (Ok (), world_disk w')"
    using run by (intro record_outcome_Ok) (simp add: deliver_channel_due [where send = send, OF due sent])
  from this codec refl temp obtain old where
    stored: "stored_record (host_codec host) store (world_disk w') branch (record_head review)
      = Some (old\<lparr>delivery := bt_insert channel ?entry (delivery old)\<rparr>)"
    by (cases rule: update_delivery_cases) auto
  have "retry_due (Some ?entry) later \<longleftrightarrow> outcome \<noteq> Ok () \<and> clock_ms (env_now host v) 0 + 60000 \<le> later" for later
    using retry_due_advance [OF clock] by (cases outcome) (simp_all add: now_iso_def)
  moreover have "last_error ?entry = result_err outcome" by (simp add: advance_def)
  ultimately show ?thesis using stored advance_attempts by (auto simp: bt_simps)
qed

text \<open>A host whose push server accepts, and a disk with one completed record.\<close>

definition push_host :: "stored_file host" where
  "push_host = (bare_host plain_codec (\<lambda>_. StateFile default_repository_state))
     \<lparr>http_reply := (\<lambda>_ _. HttpResponse 200 ''200 OK'' ''ok''),
      parse_json := (\<lambda>_. Some (Object [(''code'', Integer 200)]))\<rparr>"

definition push_channels :: delivery_channels where
  "push_channels = \<lparr>bark = Some \<lparr>bark_key = ''k'', bark_server = ''https://api.day.app''\<rparr>, github = None\<rparr>"

definition push_world :: "stored_file world" where
  "push_world = start_world [(record_path sample_store ''main'' rev_b, RecordFile record_ab)]"

lemma update_delivery_quiet:
  assumes "quiet env" "codec_total codec" "stored_record codec store disk branch head = Some review"
    "record_branch review = branch"
  obtains disk' where "update_delivery env codec store branch head channel entry disk = (Ok (), disk')"
proof -
  obtain bytes where "bt_get disk (record_path store branch head) = Some bytes" "record_from_json codec bytes = Ok review"
    using assms(3) by (cases "bt_get disk (record_path store branch head)";
        cases "record_from_json codec (the (bt_get disk (record_path store branch head)))") (auto simp: stored_record_def)
  moreover obtain body where "record_to_json codec (review\<lparr>delivery := bt_insert channel entry (delivery review)\<rparr>) = Ok body"
    using assms(2) by (auto simp: codec_total_def is_ok_iff)
  ultimately have "fst (update_delivery env codec store branch head channel entry disk) = Ok ()"
    using atomic_write_quiet [OF assms(1)] assms(1,4)
    by (simp add: update_delivery_def Let_def and_then_read acquire_lock_quiet fs_read_def quiet_def)
  then show thesis using that by (cases "update_delivery env codec store branch head channel entry disk") auto
qed

lemma push_host_fields [simp]: "host_codec push_host = plain_codec" "env_now push_host w = quiet_env"
  by (simp_all add: push_host_def bare_host_def env_now_def)

lemma push_sent: "fst (send_bark push_host config name review w) = Ok ()"
  by (simp add: send_bark_def and_then_def http_send_def push_host_def return_def is_success_status_def)

lemma push_delivers:
  assumes "world_disk w = world_disk push_world"
  obtains w' where "deliver_channel push_host sample_store ''main'' record_ab BARK_CHANNEL now_ms
    (send_bark push_host config ''work'' record_ab) w = (Ok (), w')"
proof -
  obtain v where v: "send_bark push_host config ''work'' record_ab w = (Ok (), v)"
    using push_sent by (metis prod.collapse)
  then have disk: "world_disk v = world_disk push_world" by (metis send_bark_fields(1) snd_conv assms)
  have due: "retry_due (bt_get (delivery record_ab) BARK_CHANNEL) now_ms" by (simp add: retry_due_def record_ab_def)
  have "stored_record plain_codec sample_store (world_disk v) ''main'' (record_head record_ab) = Some record_ab"
    by (simp add: disk push_world_def start_world_def stored_record_def plain_codec_def record_ab_def)
  from update_delivery_quiet [OF quiet_env_quiet plain_codec_total this, of BARK_CHANNEL
      "advance (bt_get (delivery record_ab) BARK_CHANNEL) (now_iso (quiet_env :: stored_file env) 0) None"]
  obtain d where "update_delivery (quiet_env :: stored_file env) plain_codec sample_store ''main'' (record_head record_ab) BARK_CHANNEL
      (advance (bt_get (delivery record_ab) BARK_CHANNEL) (now_iso (quiet_env :: stored_file env) 0) None) (world_disk v) = (Ok (), d)"
    by (auto simp: record_ab_def)
  then show thesis
    by (intro that [of "v\<lparr>world_disk := d, world_tick := Suc (world_tick v)\<rparr>"])
      (simp add: deliver_channel_due [OF due, of "send_bark push_host config ''work'' record_ab", OF v]
        record_outcome_def map_error_def store_call_def)
qed

theorem delivery_outcome_is_durable_witness:
  "\<exists>(w' :: stored_file world) stored. stored_record plain_codec sample_store (world_disk w') ''main'' rev_b = Some stored
     \<and> \<not> retry_due (bt_get (delivery stored) BARK_CHANNEL) 99999999"
proof -
  let ?send = "send_bark push_host \<lparr>bark_key = ''k'', bark_server = ''https://api.day.app''\<rparr> ''work'' record_ab"
  obtain v where v: "?send push_world = (Ok (), v)" using push_sent by (metis prod.collapse)
  obtain w' where run: "deliver_channel push_host sample_store ''main'' record_ab BARK_CHANNEL 0 ?send push_world = (Ok (), w')"
    using push_delivers by blast
  have "\<exists>stored entry. stored_record (host_codec push_host) sample_store (world_disk w') ''main'' (record_head record_ab) = Some stored
    \<and> bt_get (delivery stored) BARK_CHANNEL = Some entry \<and> last_error entry = result_err (Ok () :: (unit, string) result)
    \<and> unat (delivery_attempts entry) = min ((case bt_get (delivery record_ab) BARK_CHANNEL of None \<Rightarrow> 0
        | Some e \<Rightarrow> unat (delivery_attempts e)) + 1) (2 ^ 32 - 1)
    \<and> (\<forall>later. retry_due (bt_get (delivery stored) BARK_CHANNEL) later
         \<longleftrightarrow> (Ok () :: (unit, string) result) \<noteq> Ok () \<and> clock_ms (env_now push_host v) 0 + 60000 \<le> later)"
    by (rule delivery_outcome_is_durable [OF _ _ _ v run])
      (use plain_codec_ok revisions_ok in \<open>simp_all add: record_ab_def retry_due_def quiet_env_def\<close>)
  then obtain stored where "stored_record plain_codec sample_store (world_disk w') ''main'' rev_b = Some stored"
    "\<not> retry_due (bt_get (delivery stored) BARK_CHANNEL) 99999999"
    by (auto simp: record_ab_def)
  then show ?thesis by blast
qed

theorem delivery_sends_exactly_the_due_witness:
  "\<exists>w'. deliver_record push_host sample_store push_channels ''main'' record_ab None ''work'' push_world = (Ok (), w')
     \<and> http_log w' = [bark_request push_host \<lparr>bark_key = ''k'', bark_server = ''https://api.day.app''\<rparr> ''work'' record_ab]"
proof -
  let ?v = "push_world\<lparr>world_tick := Suc (world_tick push_world)\<rparr>"
  obtain w' where "deliver_channel push_host sample_store ''main'' record_ab BARK_CHANNEL (clock_ms (quiet_env :: stored_file env) 0)
    (send_bark push_host \<lparr>bark_key = ''k'', bark_server = ''https://api.day.app''\<rparr> ''work'' record_ab) ?v = (Ok (), w')"
    by (rule push_delivers [of ?v]) auto
  then have run: "deliver_record push_host sample_store push_channels ''main'' record_ab None ''work'' push_world = (Ok (), w')"
    by (simp add: deliver_record_def push_channels_def) (simp add: and_then_def return_def)
  have "http_log push_world = []" by (simp add: push_world_def start_world_def)
  moreover have "concat (due_requests push_host push_channels record_ab None ''work'' t)
    = [bark_request push_host \<lparr>bark_key = ''k'', bark_server = ''https://api.day.app''\<rparr> ''work'' record_ab]" for t
    by (simp add: due_requests_def push_channels_def retry_due_def record_ab_def)
  ultimately show ?thesis using delivery_sends_exactly_the_due [OF run] run by auto
qed

subsection \<open>Delivery stays within the store\<close>

lemma git_within [simp]: "within (advances codec store) (git host git_root args)"
  by (rule within_same_disk) (simp add: git_def)

lemma origin_github_slug_within [simp]: "within (advances codec store) (origin_github_slug host git_root)"
  unfolding origin_github_slug_def by (auto intro!: store_run.within_and_then)

lemma deliver_channel_within:
  assumes "revision_ok (record_head review)" "\<And>w. world_disk (snd (send w)) = world_disk w"
  shows "within (advances (host_codec host) store) (deliver_channel host store branch review channel now_ms send)"
proof -
  have "within (advances (host_codec host) store) (attempt send)"
    using within_same_disk [OF assms(2)] by simp
  moreover have "within (advances (host_codec host) store) (record_outcome host store branch review channel outcome)" for outcome
    unfolding record_outcome_def by (simp add: update_delivery_within [OF assms(1)])
  ultimately show ?thesis unfolding deliver_channel_def by (simp add: store_run.within_and_then)
qed

lemma deliver_record_within:
  assumes "revision_ok (record_head review)"
  shows "within (advances (host_codec host) store) (deliver_record host store channels branch review slug repo_name)"
  unfolding deliver_record_def
  by (intro store_run.within_and_then read_clock_within)
    (auto intro!: deliver_channel_within simp: assms split: option.split)

lemma deliver_pending_within:
  assumes codec: "codec_ok (host_codec host)"
  shows "within (advances (host_codec host) store) (deliver_pending host store channels git_root)"
proof -
  let ?R = "advances (host_codec host) store"
  have slug: "within ?R (if github channels \<noteq> None then map_error Failure (origin_github_slug host git_root) else return None)"
    by simp
  have branch: "within ?R (and_then (map_error (StateFailure [])
            (store_read host (\<lambda>env disk. records env (host_codec host) store disk branch))) (\<lambda>rs.
        for_each rs (\<lambda>review.
          deliver_record host store channels branch review slug (repository_name git_root))))" (is "within ?R (and_then ?read ?body)")
    for branch slug
  proof (rule store_run.within_and_then_at)
    fix w rs w'
    assume read: "?read w = (Ok rs, w')"
    then have rs: "records (env_now host w) (host_codec host) store (world_disk w) branch = Ok rs"
      "world_disk w' = world_disk w"
      by (auto simp: map_error_def store_read_def)
    show "?R w' (snd (?body rs w'))"
    proof (rule advances_unreached)
      assume "reached (host_codec host) store (world_disk w')"
      then have "within ?R (?body rs)"
        using reached_records_heads [OF _ codec rs(1)] rs(2)
        by (auto intro!: store_run.within_for_each deliver_record_within)
      then show ?thesis by (simp add: within_def)
    qed
  qed simp
  show ?thesis
    unfolding deliver_pending_def
    by (auto intro!: store_run.within_and_then slug store_run.within_for_each branch split: option.split)
qed

end
