(* ===== verification/Observer.thy ===== *)
theory Observer
  imports Daemon_Client Delivery Harvest
begin

text \<open>
  The watch service: \<open>crates/pa-daemon/src/big_brother/observer.rs\<close>. A scan visits every enrolled
  repository: it completes the ranges in flight (or supervises a failed attempt), synchronizes the
  work tree, admits a new head, wakes the conductor and delivers the records. Log lines are left out.
  The set \<open>woken\<close> and the shared connection are fields of the world; directory listings come from
  \<open>dir_entries\<close> in whatever order the system returns them.
\<close>

record observer_options =
  socket_path :: path
  agent_dir :: path
  once :: bool

subsection \<open>Reading a repository-keyed directory\<close>

definition observed_state ::
  "'b host \<Rightarrow> path \<Rightarrow> 'b env \<Rightarrow> 'b disk \<Rightarrow> (repository_state, failure) result" where
  "observed_state host dir env disk =
     (let p = path_join dir ''state.json''
      in case fs_read env disk p of
           Err e \<Rightarrow> Err (Failure (''reading '' @ path_string p))
         | Ok bytes \<Rightarrow> (case state_from_json (host_codec host) bytes of
              Err e \<Rightarrow> Err (Failure (''parsing '' @ path_string p))
            | Ok state \<Rightarrow>
                if state_version state \<noteq> STATE_VERSION
                then Err (Failure (''unsupported repository state version ''
                  @ show_nat (unat (state_version state)) @ '' (expected 1)''))
                else Ok state))"

definition resolve_profile_from_repo_dir ::
  "'b host \<Rightarrow> path \<Rightarrow> 'b env \<Rightarrow> 'b disk \<Rightarrow> (review_profile option, failure) result" where
  "resolve_profile_from_repo_dir host dir env disk =
     (let p = path_join dir ''profile.json''
      in case fs_read env disk p of
           Err (IoError kind msg) \<Rightarrow>
             if kind = NotFound then Ok None else Err (Failure (''reading '' @ path_string p))
         | Ok bytes \<Rightarrow> (case profile_from_json host bytes of
              Err e \<Rightarrow> Err (Failure (''parsing '' @ path_string p))
            | Ok profile \<Rightarrow> Ok (Some profile)))"

definition store_agent_dir :: "path \<Rightarrow> path" where
  "store_agent_dir dir =
     (let up = path_ancestors dir in if 3 < length up then up ! 3 else path_of_string ''.'')"

subsection \<open>Attempts\<close>

definition attempt_start :: "review_range \<Rightarrow> string" where
  "attempt_start rng = (if attempt_started_at rng = [] then admitted_at rng else attempt_started_at rng)"

definition attempt_expired :: "'b host \<Rightarrow> review_profile \<Rightarrow> review_range \<Rightarrow> ('b, bool) prog" where
  "attempt_expired host profile rng = (case iso_to_unix_ms (attempt_start rng) of
     None \<Rightarrow> return False
   | Some started_ms \<Rightarrow>
       and_then (read_clock host) (\<lambda>now_ms. return (attempt_timeout_ms profile \<le> now_ms - started_ms)))"

definition marker_contract :: string where
  "marker_contract = CHR ''\<newline>'' # ''After every layer has replied, write the range's synthesis as your ''
     @ ''final message: the FIRST line must be exactly REVIEW_SYNTHESIS, the synthesis follows ''
     @ ''from the next line on. No preamble before that marker line.''"

definition wake_message :: "review_range \<Rightarrow> u32 \<Rightarrow> string" where
  "wake_message rng limit =
     ''REVIEW_RANGE '' @ range_base rng @ ''..'' @ range_head rng @ '' END''
     @ (if 1 < range_attempts rng
        then CHR ''\<newline>'' # ''Retry attempt '' @ show_nat (unat (range_attempts rng)) @ '' of '' @ show_nat (unat limit)
          @ '': the prior attempt failed and its reviewers were cancelled. Dispatch every configured review ''
          @ ''layer fresh for this range, then synthesize once all layers have replied.''
        else [])
     @ marker_contract"

definition wake_conductor :: "'b host \<Rightarrow> string \<Rightarrow> string \<Rightarrow> ('b, unit) prog" where
  "wake_conductor host name message =
     and_then (map_error (\<lambda>_. Failure ''waking the review conductor'') (request host (Object
         [(''type'', String ''send_message''), (''targetActiveSessionId'', String name),
          (''message'', String message)]))) (\<lambda>_. return ())"

definition session_named :: "string \<Rightarrow> json list \<Rightarrow> json option" where
  "session_named name sessions = find (\<lambda>row. get_str row ''sessionName'' = Some name) sessions"

definition child_name :: "string \<Rightarrow> string \<Rightarrow> string" where
  "child_name layer head = layer @ ''-'' @ head"

definition kill_session :: "'b host \<Rightarrow> json list \<Rightarrow> string \<Rightarrow> ('b, unit) prog" where
  "kill_session host sessions name =
     (case Option.bind (session_named name sessions) (\<lambda>row.
        Option.bind (case json_get row ''id'' of Some v \<Rightarrow> Some v | None \<Rightarrow> json_get row ''activeSessionId'') as_str) of
        None \<Rightarrow> return ()
      | Some ident \<Rightarrow>
          and_then (attempt (request host (Object [(''type'', String ''kill''), (''activeSessionId'', String ident)])))
            (\<lambda>_. return ()))"

definition cancel_targets :: "review_profile \<Rightarrow> review_range \<Rightarrow> string list" where
  "cancel_targets profile rng =
     session_name profile # map (\<lambda>layer. child_name (layer_name layer) (range_head rng)) (layers profile)"

definition cancel_attempt :: "'b host \<Rightarrow> review_profile \<Rightarrow> review_range \<Rightarrow> ('b, unit) prog" where
  "cancel_attempt host profile rng =
     and_then (attempt (list_sessions host)) (\<lambda>listed. case listed of
       Err e \<Rightarrow> return ()
     | Ok sessions \<Rightarrow> for_each (cancel_targets profile rng) (kill_session host sessions))"

definition give_back_wake :: "review_profile \<Rightarrow> review_range \<Rightarrow> ('b, unit) prog" where
  "give_back_wake profile rng =
     modify (\<lambda>w. w\<lparr>woken := woken w - {(session_name profile, range_head rng)}\<rparr>)"

definition supervise_failure ::
  "'b host \<Rightarrow> store \<Rightarrow> review_profile \<Rightarrow> string \<Rightarrow> review_range \<Rightarrow> string \<Rightarrow> ('b, unit) prog" where
  "supervise_failure host store profile branch rng reason =
     and_then (cancel_attempt host profile rng) (\<lambda>_.
     if max_attempts profile \<le> range_attempts rng then
       map_error (StateFailure ''failing the exhausted review range: '')
         (store_call host (\<lambda>env. fail_range env (host_codec host) store branch (range_head rng) reason))
     else
       and_then (map_error (StateFailure ''re-arming the review attempt: '')
         (store_call host (\<lambda>env. retry_attempt env (host_codec host) store branch (range_head rng)))) (\<lambda>_.
       give_back_wake profile rng))"

definition supervise_timeout ::
  "'b host \<Rightarrow> store \<Rightarrow> review_profile \<Rightarrow> string \<Rightarrow> review_range \<Rightarrow> ('b, unit) prog" where
  "supervise_timeout host store profile branch rng =
     supervise_failure host store profile branch rng ''timed_out''"

definition conductor_turn_dead :: "json \<Rightarrow> bool" where
  "conductor_turn_dead transcript = (case message_rows transcript of
     None \<Rightarrow> False
   | Some rows \<Rightarrow>
       if list_ex (\<lambda>row. case get_array row ''content'' of None \<Rightarrow> False
            | Some blocks \<Rightarrow> list_ex is_dispatch_block blocks) rows
       then False
       else rows \<noteq> [] \<and> get_str (last rows) ''role'' = Some ''assistant''
         \<and> get_str (last rows) ''stopReason'' = Some ''error'')"

definition confirmed_no_reply_layers ::
  "string list \<Rightarrow> string list \<Rightarrow> string \<Rightarrow> json list \<Rightarrow> string list" where
  "confirmed_no_reply_layers missing no_reply head sessions =
     filter (\<lambda>layer. session_named (child_name layer head) sessions = None)
       (filter (\<lambda>layer. layer \<in> set no_reply) missing)"

subsection \<open>Completing a review\<close>

text \<open>The answers of the resident children of the range, with their session ids.\<close>

fun collect_children ::
  "'b host \<Rightarrow> json list \<Rightarrow> string \<Rightarrow> review_layer list \<Rightarrow> (string, string) btree \<Rightarrow> (string, string) btree
   \<Rightarrow> ('b, (string, string) btree \<times> (string, string) btree) prog" where
  "collect_children host sessions head [] answers child_ids = return (answers, child_ids)"
| "collect_children host sessions head (layer # rest) answers child_ids =
     (case session_named (child_name (layer_name layer) head) sessions of
        None \<Rightarrow> collect_children host sessions head rest answers child_ids
      | Some child \<Rightarrow>
          and_then (lift_result (session_id host child)) (\<lambda>child_id.
          and_then (get_messages host child_id) (\<lambda>messages.
          case last_assistant_text messages of
            None \<Rightarrow> collect_children host sessions head rest answers child_ids
          | Some answer \<Rightarrow>
              collect_children host sessions head rest (bt_insert (layer_name layer) answer answers)
                (bt_insert (layer_name layer) child_id child_ids))))"

definition runtime_phrases :: "string list" where
  "runtime_phrases =
     [''The packaged prime-agent-runtime directory was not found'', ''kernel startup failed'',
      ''fails to boot'', ''uv is required to set up the Python kernel'']"

definition runtime_unavailable :: "harvested_review \<Rightarrow> bool" where
  "runtime_unavailable harvested =
     list_ex (\<lambda>layer. list_ex (\<lambda>phrase. contains_str phrase (harvested_answer layer)) runtime_phrases)
       (review_layers harvested)"

definition record_of ::
  "review_profile \<Rightarrow> string \<Rightarrow> review_range \<Rightarrow> (string, string) btree \<Rightarrow> harvested_review \<Rightarrow> review_record" where
  "record_of profile branch rng child_ids harvested =
     \<lparr>record_version = 1, record_branch = branch, record_base = review_base harvested,
      record_head = review_head harvested, record_attempts = range_attempts rng, completed_at = [],
      record_layers = map (\<lambda>layer.
        \<lparr>record_layer = harvested_name layer,
         record_model = (case layer_model profile (harvested_name layer) of None \<Rightarrow> [] | Some model \<Rightarrow> model),
         record_child = bt_get child_ids (harvested_name layer),
         record_answer = Some (harvested_answer layer)\<rparr>) (review_layers harvested),
      conclusion = Some (review_conclusion harvested), delivery = []\<rparr>"

text \<open>What follows the second reading of the conductor's transcript.\<close>

definition settle_review ::
  "'b host \<Rightarrow> store \<Rightarrow> review_profile \<Rightarrow> string \<Rightarrow> review_range \<Rightarrow> json list \<Rightarrow> (string, string) btree
   \<Rightarrow> (string, string) btree \<Rightarrow> json \<Rightarrow> ('b, bool) prog" where
  "settle_review host store profile branch rng sessions answers child_ids transcript =
     (case harvest_review (parse_json host) transcript answers of
        Err e \<Rightarrow> return False
      | Ok harvested \<Rightarrow>
          if review_base harvested \<noteq> range_base rng \<or> review_head harvested \<noteq> range_head rng
          then throw (Failure (''the conductor's transcript reviews '' @ range_text (review_base harvested) (review_head harvested)
            @ '' but the admitted range is '' @ range_text (range_base rng) (range_head rng)))
          else if runtime_unavailable harvested
          then and_then (supervise_failure host store profile branch rng ''runtime_unavailable'') (\<lambda>_. return False)
          else if missing_layers harvested \<noteq> [] then
            (if confirmed_no_reply_layers (missing_layers harvested) (no_reply_layers harvested) (range_head rng) sessions = []
             then return False
             else and_then (supervise_failure host store profile branch rng ''layer_no_reply'') (\<lambda>_. return False))
          else
            and_then (map_error (StateFailure [])
              (store_call host (\<lambda>env. complete env (host_codec host) store (record_of profile branch rng child_ids harvested)))) (\<lambda>_.
            and_then (give_back_wake profile rng) (\<lambda>_. return True)))"

text \<open>The re-wake of a conductor that is not resident, once per attempt; a refused wake is given back.\<close>

definition rewake ::
  "'b host \<Rightarrow> review_profile \<Rightarrow> review_range \<Rightarrow> ('b, bool) prog" where
  "rewake host profile rng =
     (let key = (session_name profile, range_head rng)
      in and_then (get_world (\<lambda>w. key \<in> woken w)) (\<lambda>already.
         if already then return False
         else
           and_then (modify (\<lambda>w. w\<lparr>woken := insert key (woken w)\<rparr>)) (\<lambda>_.
           and_then (attempt (wake_conductor host (session_name profile) (wake_message rng (max_attempts profile)))) (\<lambda>wake.
           case wake of
             Ok _ \<Rightarrow> return False
           | Err e \<Rightarrow> and_then (give_back_wake profile rng) (\<lambda>_. throw e)))))"

definition try_complete_review ::
  "'b host \<Rightarrow> store \<Rightarrow> review_profile \<Rightarrow> string \<Rightarrow> review_range \<Rightarrow> ('b, bool) prog" where
  "try_complete_review host store profile branch rng =
     and_then (list_sessions host) (\<lambda>sessions.
     case session_named (session_name profile) sessions of
       None \<Rightarrow> rewake host profile rng
     | Some conductor \<Rightarrow>
         and_then (lift_result (session_id host conductor)) (\<lambda>conductor_id.
         and_then (get_messages host conductor_id) (\<lambda>transcript.
         if conductor_turn_dead transcript
         then and_then (supervise_failure host store profile branch rng ''turn_failed'') (\<lambda>_. return False)
         else
         and_then (collect_children host sessions (range_head rng) (layers profile) [] []) (\<lambda>(answers, child_ids).
         and_then (get_messages host conductor_id) (\<lambda>transcript_after_children.
         settle_review host store profile branch rng sessions answers child_ids transcript_after_children)))))"

subsection \<open>Observing a repository\<close>

text \<open>The loop over the ranges in flight; \<open>False\<close> is the early return from the observation.\<close>

fun complete_in_flight ::
  "'b host \<Rightarrow> store \<Rightarrow> review_profile \<Rightarrow> (string \<times> branch_state) list \<Rightarrow> ('b, bool) prog" where
  "complete_in_flight host store profile [] = return True"
| "complete_in_flight host store profile ((branch, branch_state) # rest) = (case in_flight branch_state of
     None \<Rightarrow> complete_in_flight host store profile rest
   | Some rng \<Rightarrow>
       and_then (attempt_expired host profile rng) (\<lambda>expired.
       if expired
       then and_then (supervise_timeout host store profile branch rng) (\<lambda>_. return False)
       else and_then (try_complete_review host store profile branch rng) (\<lambda>completed.
            if \<not> completed then return False else complete_in_flight host store profile rest)))"

definition admit_head ::
  "'b host \<Rightarrow> store \<Rightarrow> review_profile \<Rightarrow> string \<Rightarrow> string \<Rightarrow> ('b, unit) prog" where
  "admit_head host store profile branch head =
     and_then (map_error (StateFailure []) (store_call host (\<lambda>env. admit env (host_codec host) store branch head))) (\<lambda>admission.
     case admission of
       Admitted rng \<Rightarrow>
         and_then (wake_conductor host (session_name profile) (wake_message rng (max_attempts profile))) (\<lambda>_.
         modify (\<lambda>w. w\<lparr>woken := insert (session_name profile, head) (woken w)\<rparr>))
     | _ \<Rightarrow> return ())"

definition record_skip :: "'b host \<Rightarrow> store \<Rightarrow> string \<Rightarrow> string \<Rightarrow> string \<Rightarrow> ('b, unit) prog" where
  "record_skip host store branch kind message =
     map_error (StateFailure [])
       (store_call host (\<lambda>env. record_observation_failure env (host_codec host) store branch kind message))"

definition observe_branch ::
  "'b host \<Rightarrow> store \<Rightarrow> review_profile \<Rightarrow> path \<Rightarrow> string \<Rightarrow> ('b, unit) prog" where
  "observe_branch host store profile git_root branch =
     and_then (attempt (fetch_and_fast_forward host git_root branch)) (\<lambda>sync. case sync of
       Err e \<Rightarrow> record_skip host store branch (sync_kind e) (sync_message e)
     | Ok _ \<Rightarrow>
         and_then (attempt (branch_head host git_root branch)) (\<lambda>answer. case answer of
           Err m \<Rightarrow> record_skip host store branch ''head_failed'' m
         | Ok head \<Rightarrow>
             and_then (map_error (StateFailure [])
               (store_call host (\<lambda>env. clear_observation_failure env (host_codec host) store branch))) (\<lambda>_.
             admit_head host store profile branch head)))"

text \<open>The observation once state, profile and store are known.\<close>

definition watch_repo ::
  "'b host \<Rightarrow> path \<Rightarrow> store \<Rightarrow> review_profile \<Rightarrow> path \<Rightarrow> delivery_channels \<Rightarrow> repository_state \<Rightarrow> ('b, unit) prog" where
  "watch_repo host socket store profile git_root channels state =
     and_then (ensure_client host socket) (\<lambda>_.
     and_then (complete_in_flight host store profile (branches state)) (\<lambda>settled.
     if \<not> settled then return ()
     else
     and_then (map_error (StateFailure [])
       (store_read host (\<lambda>env disk. load env (host_codec host) store disk))) (\<lambda>state'.
     and_then (for_each (bt_keys (branches state')) (observe_branch host store profile git_root)) (\<lambda>_.
     deliver_pending host store channels git_root))))"

definition observe_keyed ::
  "'b host \<Rightarrow> path \<Rightarrow> path \<Rightarrow> delivery_channels \<Rightarrow> repository_state \<Rightarrow> path \<Rightarrow> review_profile option \<Rightarrow> ('b, unit) prog" where
  "observe_keyed host socket dir channels state git_root resolved = (case resolved of
     None \<Rightarrow> throw (Failure ''no review profile beside the repository state'')
   | Some profile \<Rightarrow>
       (let store = open_store (store_agent_dir dir) git_root
        in if path_parent (state_path store) \<noteq> Some dir
           then throw (Failure (''the state's git root '' @ path_string git_root
             @ '' does not key this enrolled directory; re-enroll the repository''))
           else watch_repo host socket store profile git_root channels state))"

definition observe_repo ::
  "'b host \<Rightarrow> path \<Rightarrow> path \<Rightarrow> delivery_channels \<Rightarrow> ('b, unit) prog" where
  "observe_repo host socket dir channels =
     and_then (store_read host (observed_state host dir)) (\<lambda>state.
     case state_git_root state of
       None \<Rightarrow> throw (Failure (''the state records no git root (written by a pre-observer build); ''
         @ ''re-enroll to record it''))
     | Some root \<Rightarrow>
         and_then (store_read host (resolve_profile_from_repo_dir host dir)) (\<lambda>resolved.
         observe_keyed host socket dir channels state (path_of_string root) resolved))"

subsection \<open>Scans\<close>

text \<open>One directory entry of the scan; a failure is logged and the scan goes on.\<close>

definition scan_entry ::
  "'b host \<Rightarrow> observer_options \<Rightarrow> delivery_channels \<Rightarrow> (path, string) result \<Rightarrow> ('b, unit) prog" where
  "scan_entry host options channels entry = (case entry of
     Err e \<Rightarrow> return ()
   | Ok dir \<Rightarrow>
       and_then (store_read host (\<lambda>env disk. Ok (fs_exists env disk (path_join dir ''state.json'')))) (\<lambda>enrolled.
       if \<not> enrolled then return ()
       else and_then (attempt (observe_repo host (socket_path options) dir channels)) (\<lambda>_. return ())))"

definition scan_once :: "'b host \<Rightarrow> observer_options \<Rightarrow> ('b, unit) prog" where
  "scan_once host options =
     (let repos_root = path_join (path_join (agent_dir options) ''big-brother'') ''repos''
      in and_then (get_world (\<lambda>w. dir_entries host (world_disk w) repos_root)) (\<lambda>listed. case listed of
           Err e \<Rightarrow> throw (Failure (''reading enrolled repositories at '' @ path_string repos_root))
         | Ok entries \<Rightarrow>
             and_then (modify (\<lambda>w. w\<lparr>client := None\<rparr>)) (\<lambda>_.
             and_then (for_each entries (scan_entry host options (channels_from_env host))) (\<lambda>_.
             modify (\<lambda>w. w\<lparr>client := None\<rparr>)))))"

text \<open>
  The service loop, for a number of scans: \<open>None\<close> as result means it is still running after them. A
  failed scan is logged and the loop goes on.
\<close>

fun observer_loop :: "nat \<Rightarrow> 'b host \<Rightarrow> observer_options \<Rightarrow> 'b world \<Rightarrow> (unit, failure) result option \<times> 'b world" where
  "observer_loop 0 host options w = (None, w)"
| "observer_loop (Suc fuel) host options w =
     (let w' = snd (scan_once host options w)
      in if once options then (Some (Ok ()), w') else observer_loop fuel host options w')"

definition run_observer :: "nat \<Rightarrow> 'b host \<Rightarrow> observer_options \<Rightarrow> 'b world \<Rightarrow> (unit, failure) result option \<times> 'b world" where
  "run_observer fuel host options w = observer_loop fuel host options (w\<lparr>woken := {}\<rparr>)"

end
