(* ===== verification/Observer_Store.thy ===== *)
theory Observer_Store
  imports Observer
begin

text \<open>
  Every change the observer makes to a repository's files is a run of the store's operations: the
  programs of \<open>Observer\<close> lie within \<open>advances\<close>, and the directory the scan visits leads back to the
  very store the run was made with.
\<close>

subsection \<open>The observer stays within the store\<close>

lemma request_within [simp]: "within (advances codec store) (request host command)"
  by (rule within_same_disk) simp

lemma ensure_client_within [simp]: "within (advances codec store) (ensure_client host socket)"
  by (rule within_same_disk) (simp add: ensure_client_def)

lemma client_calls_within [simp]:
  "within (advances codec store) (list_sessions host)"
  "within (advances codec store) (get_messages host ident)"
  "within (advances codec store) (wake_conductor host name message)"
  unfolding list_sessions_def get_messages_def wake_conductor_def by (auto intro!: store_run.within_and_then)

lemma bookkeeping_within [simp]:
  "within (advances codec store) (get_world f)"
  "within (advances codec store) (give_back_wake profile rng)"
  "within (advances codec store) (modify (\<lambda>w. w\<lparr>woken := g w\<rparr>))"
  by (auto intro!: within_same_disk simp: get_world_def give_back_wake_def modify_def)

lemma cancel_attempt_within [simp]: "within (advances codec store) (cancel_attempt host profile rng)"
  unfolding cancel_attempt_def kill_session_def
  by (auto intro!: store_run.within_and_then store_run.within_for_each split: result.split option.split)

lemma supervise_failure_within [simp]:
  "within (advances (host_codec host) store) (supervise_failure host store profile branch rng reason)"
  unfolding supervise_failure_def by (auto intro!: store_run.within_and_then)

lemma collect_children_within [simp]:
  "within (advances codec store) (collect_children host sessions head ls answers child_ids)"
  by (induction ls arbitrary: answers child_ids) (auto intro!: store_run.within_and_then split: option.split)

lemma settle_review_within [simp]:
  "within (advances (host_codec host) store)
     (settle_review host store profile branch rng sessions answers child_ids transcript)"
  unfolding settle_review_def by (auto intro!: store_run.within_and_then split: result.split)

lemma rewake_within [simp]: "within (advances codec store) (rewake host profile rng)"
  unfolding rewake_def Let_def by (auto intro!: store_run.within_and_then split: result.split)

lemma try_complete_review_within [simp]:
  "within (advances (host_codec host) store) (try_complete_review host store profile branch rng)"
  unfolding try_complete_review_def by (auto intro!: store_run.within_and_then split: option.split)

lemma attempt_expired_within [simp]: "within (advances codec store) (attempt_expired host profile rng)"
  unfolding attempt_expired_def by (auto intro!: store_run.within_and_then split: option.split)

lemma complete_in_flight_within [simp]:
  "within (advances (host_codec host) store) (complete_in_flight host store profile bs)"
  by (induction bs rule: complete_in_flight.induct)
    (auto intro!: store_run.within_and_then simp: supervise_timeout_def split: option.split)

lemma fetch_within [simp]: "within (advances codec store) (fetch_and_fast_forward host git_root branch)"
  unfolding fetch_and_fast_forward_def current_branch_def by (auto intro!: store_run.within_and_then)

lemma observe_branch_within [simp]:
  "within (advances (host_codec host) store) (observe_branch host store profile git_root branch)"
  unfolding observe_branch_def record_skip_def admit_head_def branch_head_def
  by (auto intro!: store_run.within_and_then split: result.split admission.split)

subsection \<open>The store of an enrolled directory\<close>

lemma run_op_rooted:
  assumes run: "run_op env codec store op disk = (reply, disk')" and codec: "codec_ok codec" and op: "op_wf op"
  shows "bt_get disk' (state_path store) = bt_get disk (state_path store)
    \<or> (\<exists>state. stored_state codec store disk' = Some (rooted store state))" (is "?same disk' \<or> ?rooted disk'")
proof -
  have by_transact: "?same disk' \<or> ?rooted disk'" if "transact env codec store decide disk = (r, disk')"
    for decide :: "repository_state \<Rightarrow> ('x decision, state_error) result" and r
    using that codec by (cases rule: transact_cases) (auto simp: agree_off_def)
  show ?thesis
  proof (cases op)
    case (Complete review)
    then obtain r where "complete env codec store review disk = (r, disk')" using run by (auto simp: reply_of_eq)
    then show ?thesis
    proof (cases rule: complete_cases)
      case (locked state)
      have head: "revision_ok (record_head (stamp_completed (now_iso env 0) review))" using locked by simp
      from locked(5) codec head show ?thesis
        by (cases rule: complete_locked_cases) (use touched_not_state [OF head] in \<open>auto simp: agree_off_def\<close>)
    qed simp
  next
    case (UpdateDelivery b h channel ds)
    then obtain r where r: "update_delivery env codec store b h channel ds disk = (r, disk')" "revision_ok h"
      using run op by (auto simp: reply_of_eq)
    note chars = revision_ok_no_slash [OF r(2)] revision_ok_no_dot [OF r(2)]
    have p: "record_path store b h \<noteq> temp_path (record_path store b h)" using chars by simp
    have off: "state_path store \<notin> {record_path store b h, temp_path (record_path store b h)}"
      using record_path_not_state [OF chars(1), of store b] by auto
    from r(1) codec refl p have "agree_off {record_path store b h, temp_path (record_path store b h)} disk disk'"
      by (cases rule: update_delivery_cases) (auto simp: agree_off_def)
    with off show ?thesis by (auto dest: agree_offD)
  qed (use run by_transact in \<open>auto simp: reply_of_eq seed_cursor_def admit_def record_observation_failure_def
      clear_observation_failure_def retry_attempt_def fail_range_def validate_revision_cases split: if_splits\<close>)
qed

lemma runs_rooted:
  assumes "runs codec store disk trace disk'" "codec_ok codec" "fresh_disk store disk"
  shows "bt_get disk' (state_path store) = None
    \<or> (\<exists>state. stored_state codec store disk' = Some (rooted store state))"
  using assms(1)
proof induction
  case start
  then show ?case using assms(3) by (simp add: fresh_disk_def)
next
  case (step trace d op env reply d')
  from run_op_rooted [OF step.hyps(3) assms(2) step.hyps(2)] step.IH show ?case
    by (auto simp: stored_state_def)
qed

lemma path_ancestors_snoc [simp]: "c \<noteq> ''/'' \<Longrightarrow> path_ancestors (p @ [c]) = (p @ [c]) # path_ancestors p"
  by (subst path_ancestors.simps) simp

lemma store_agent_dir_repo_dir:
  assumes "repo_slug git_root \<noteq> []"
  shows "store_agent_dir (repo_dir agent git_root) = agent"
proof -
  have "repo_slug git_root \<noteq> ''/''"
  proof
    assume "repo_slug git_root = ''/''"
    with repo_slug_wf [of git_root] have "dashed slug_char ''/''" by (simp add: slug_wf_def)
    then show False using dashed_chars [of slug_char "''/''" "CHR ''/''"]
      by (simp add: slug_char_def is_ascii_digit_def is_ascii_lowercase_def)
  qed
  then have "path_ancestors (repo_dir agent git_root) = repo_dir agent git_root
    # (agent @ [''big-brother'', ''repos'']) # (agent @ [''big-brother'']) # path_ancestors agent"
    using path_ancestors_snoc [of "repo_slug git_root" "agent @ [''big-brother'', ''repos'']"]
      path_ancestors_snoc [of "''repos''" "agent @ [''big-brother'']"] repo_dir_eq [OF assms, of agent]
    by simp
  moreover have "path_ancestors agent \<noteq> []" "path_ancestors agent ! 0 = agent"
    by (subst path_ancestors.simps, simp)+
  ultimately show ?thesis by (simp add: store_agent_dir_def Let_def)
qed

lemma watch_repo_within:
  "codec_ok (host_codec host) \<Longrightarrow> within (advances (host_codec host) store)
     (watch_repo host socket store profile git_root channels state)"
  unfolding watch_repo_def
  by (auto intro!: store_run.within_and_then store_run.within_for_each deliver_pending_within)

lemma observe_keyed_within:
  assumes "codec_ok (host_codec host)" "open_store (store_agent_dir dir) git_root = store"
  shows "within (advances (host_codec host) store) (observe_keyed host socket dir channels state git_root resolved)"
  using watch_repo_within [OF assms(1)] assms(2) by (auto simp: observe_keyed_def Let_def split: option.split)

lemma observe_repo_advances:
  assumes codec: "codec_ok (host_codec host)"
    and key: "\<And>state root. observed_state host dir (env_now host w) (world_disk w) = Ok state \<Longrightarrow>
      state_git_root state = Some root \<Longrightarrow> open_store (store_agent_dir dir) (path_of_string root) = store"
    and run: "observe_repo host socket dir channels w = (r, w')"
  shows "advances (host_codec host) store w w'"
  using run unfolding observe_repo_def
proof (cases rule: and_then_cases)
  case (err e)
  then show ?thesis by (auto dest!: store_read_eq intro: advances_same_disk)
next
  case (ok state w1)
  then have read: "observed_state host dir (env_now host w) (world_disk w) = Ok state" "world_disk w1 = world_disk w"
    by (auto dest!: store_read_eq)
  have "advances (host_codec host) store w1 w'"
  proof (cases "state_git_root state")
    case None
    with ok(2) show ?thesis by (auto intro: store_run.refl_effect)
  next
    case (Some root)
    have "within (advances (host_codec host) store) (and_then (store_read host (resolve_profile_from_repo_dir host dir))
        (observe_keyed host socket dir channels state (path_of_string root)))"
      by (intro store_run.within_and_then observe_keyed_within [OF codec] key [OF read(1) Some]) simp
    with ok(2) Some show ?thesis by (auto dest: withinD)
  qed
  then show ?thesis using advances_same_disk [OF read(2)] store_run.trans_effect by blast
qed

lemma observed_root:
  assumes codec: "codec_ok (host_codec host)" and fresh: "fresh_disk store disk0"
    and run: "runs (host_codec host) store disk0 trace (world_disk w)"
    and read: "observed_state host (store_repo_dir store) env (world_disk w) = Ok state"
  shows "state_git_root state = Some (path_string (store_git_root store))"
proof -
  have p: "path_join (store_repo_dir store) ''state.json'' = state_path store" by (simp add: state_path_def)
  obtain bytes where "bt_get (world_disk w) (state_path store) = Some bytes"
    "state_from_json (host_codec host) bytes = Ok state"
    using read by (auto simp: observed_state_def p Let_def fs_read_def split: option.splits result.splits if_splits)
  with runs_rooted [OF run codec fresh] show ?thesis by (auto simp: stored_state_def rooted_def)
qed

lemma observe_repo_extends:
  assumes codec: "codec_ok (host_codec host)" and store: "store = open_store agent git_root"
    and root: "absolute_path git_root" "repo_slug git_root \<noteq> []"
    and fresh: "fresh_disk store disk0" and run: "runs (host_codec host) store disk0 trace (world_disk w)"
    and observed: "observe_repo host socket (store_repo_dir store) channels w = (r, w')"
  shows "\<exists>more. runs (host_codec host) store disk0 (trace @ more) (world_disk w')"
proof -
  have "advances (host_codec host) store w w'"
  proof (rule observe_repo_advances [OF codec _ observed])
    fix state rt
    assume read: "observed_state host (store_repo_dir store) (env_now host w) (world_disk w) = Ok state"
      and rt: "state_git_root state = Some rt"
    then have "rt = path_string git_root" using observed_root [OF codec fresh run read] by (simp add: store open_store_def)
    then show "open_store (store_agent_dir (store_repo_dir store)) (path_of_string rt) = store"
      using path_string_roundtrip [OF root(1)] store_agent_dir_repo_dir [OF root(2)] by (simp add: store open_store_def)
  qed
  then show ?thesis using fresh run by (simp add: advances_def)
qed

end
