(* ===== verification/Observer_Reviews.thy ===== *)
theory Observer_Reviews
  imports Observer_Store
begin

text \<open>
  What the observer guarantees for reviews: failed attempts are bounded, a review counts as completed
  only with the record of exactly the admitted range, wakes are not repeated, a dead turn never hides a
  finished review, and one repository's failure does not stop the others.
\<close>

subsection \<open>Attempts are bounded\<close>

lemma request_run:
  obtains r w' where "request host command w = (r, w')" "world_disk w' = world_disk w" "woken w' = woken w"
  by (metis prod.collapse request_disk(1) request_disk(4))

lemma kill_session_ok:
  "\<exists>w'. kill_session host sessions name w = (Ok (), w') \<and> world_disk w' = world_disk w \<and> woken w' = woken w"
proof -
  have "\<exists>w'. and_then (attempt (request host c)) (\<lambda>_. return ()) w = (Ok (), w')
      \<and> world_disk w' = world_disk w \<and> woken w' = woken w" for c
    by (rule request_run [of host c w]) (auto simp: and_then_def attempt_def return_def)
  then show ?thesis by (auto simp: kill_session_def return_def split: option.split)
qed

lemma kill_all_ok:
  "\<exists>w'. for_each names (kill_session host sessions) w = (Ok (), w') \<and> world_disk w' = world_disk w \<and> woken w' = woken w"
proof (induction names arbitrary: w)
  case Nil
  then show ?case by (simp add: return_def)
next
  case (Cons name names)
  obtain w1 where "kill_session host sessions name w = (Ok (), w1)" "world_disk w1 = world_disk w" "woken w1 = woken w"
    using kill_session_ok by blast
  with Cons [of w1] show ?case by (auto simp: and_then_Ok)
qed

lemma list_sessions_run:
  obtains r w' where "list_sessions host w = (r, w')" "world_disk w' = world_disk w" "woken w' = woken w"
proof -
  obtain r w' where "request host (Object [(''type'', String ''list'')]) w = (r, w')" "world_disk w' = world_disk w" "woken w' = woken w"
    using request_run .
  then show thesis by (intro that [of "fst (list_sessions host w)" w'])
    (auto simp: list_sessions_def and_then_def return_def split: result.split)
qed

lemma cancel_attempt_ok:
  obtains w' where "cancel_attempt host profile rng w = (Ok (), w')" "world_disk w' = world_disk w" "woken w' = woken w"
proof -
  obtain r w1 where l: "list_sessions host w = (r, w1)" "world_disk w1 = world_disk w" "woken w1 = woken w"
    using list_sessions_run .
  show thesis
  proof (cases r)
    case (Ok sessions)
    obtain w' where "for_each (cancel_targets profile rng) (kill_session host sessions) w1 = (Ok (), w')"
      "world_disk w' = world_disk w1" "woken w' = woken w1" using kill_all_ok by blast
    with l Ok show thesis by (intro that [of w']) (auto simp: cancel_attempt_def attempt_def and_then_def)
  next
    case (Err e)
    with l show thesis by (intro that [of w1]) (auto simp: cancel_attempt_def attempt_def and_then_def return_def)
  qed
qed

lemma retry_effect:
  assumes run: "retry_attempt env codec store branch head disk = (Ok n, disk')" and codec: "codec_ok codec"
    and slot: "stored_state codec store disk = Some state" "bt_get (branches state) branch = Some bs"
      "in_flight bs = Some rng" "range_head rng = head"
  obtains state' bs' where "stored_state codec store disk' = Some state'" "bt_get (branches state') branch = Some bs'"
    "in_flight bs' = Some (rng\<lparr>range_attempts := range_attempts rng + 1, attempt_started_at := now_iso env 0\<rparr>)"
    "cursor bs' = cursor bs"
  using run codec unfolding retry_attempt_def
proof (cases rule: transact_cases)
  case (updated state0 state' x)
  let ?bs = "bs\<lparr>in_flight := Some (rng\<lparr>range_attempts := range_attempts rng + 1,
      attempt_started_at := now_iso env 0\<rparr>), updated_at := now_iso env 1\<rparr>"
  have "state' = put_branch state branch ?bs" using updated slot by (auto simp: decide_retry_def Let_def)
  then show thesis by (intro that [OF updated(4), of ?bs]) (simp_all add: put_branch_def bt_simps)
qed (use slot in \<open>auto simp: decide_retry_def Let_def\<close>)

lemma fail_effect:
  assumes run: "fail_range env codec store branch head reason disk = (Ok u, disk')" and codec: "codec_ok codec"
    and slot: "stored_state codec store disk = Some state" "bt_get (branches state) branch = Some bs"
      "in_flight bs = Some rng" "range_head rng = head"
  obtains state' bs' where "stored_state codec store disk' = Some state'" "bt_get (branches state') branch = Some bs'"
    "in_flight bs' = None" "cursor bs' = cursor bs"
    "last_failure bs' = Some \<lparr>failure_base = range_base rng, failure_head = head, failure_attempts = range_attempts rng,
       failure_reason = reason, failed_at = now_iso env 0\<rparr>"
  using run codec unfolding fail_range_def
proof (cases rule: transact_cases)
  case (updated state0 state' x)
  let ?bs = "bs\<lparr>in_flight := None, last_failure := Some \<lparr>failure_base = range_base rng,
      failure_head = head, failure_attempts = range_attempts rng, failure_reason = reason, failed_at = now_iso env 0\<rparr>,
      updated_at := now_iso env 1\<rparr>"
  have "state' = put_branch state branch ?bs" using updated slot by (auto simp: decide_fail_def)
  then show thesis by (intro that [OF updated(4), of ?bs]) (simp_all add: put_branch_def bt_simps)
qed (use slot in \<open>auto simp: decide_fail_def\<close>)

text \<open>
  C9. Attempts are bounded and a failure is never silent: supervising a failed attempt of the range in
  flight either gives the range up, once the ceiling is reached, keeping the cursor and storing the
  failure with its reason and count, or re-arms exactly the same range with one more attempt, which
  neither exceeds the profile's ceiling nor wraps, and returns the attempt's wake to the next scan.
\<close>

theorem supervised_attempts_bounded:
  assumes codec: "codec_ok (host_codec host)"
    and slot: "stored_state (host_codec host) store (world_disk w) = Some state"
      "bt_get (branches state) branch = Some bs" "in_flight bs = Some rng"
    and run: "supervise_failure host store profile branch rng reason w = (Ok (), w')"
  shows "\<exists>state' bs'. stored_state (host_codec host) store (world_disk w') = Some state'
    \<and> bt_get (branches state') branch = Some bs' \<and> cursor bs' = cursor bs
    \<and> (if max_attempts profile \<le> range_attempts rng
       then in_flight bs' = None \<and> (\<exists>t. last_failure bs' = Some \<lparr>failure_base = range_base rng, failure_head = range_head rng,
              failure_attempts = range_attempts rng, failure_reason = reason, failed_at = t\<rparr>)
       else (session_name profile, range_head rng) \<notin> woken w' \<and> (\<exists>again. in_flight bs' = Some again
              \<and> range_base again = range_base rng \<and> range_head again = range_head rng
              \<and> unat (range_attempts again) = unat (range_attempts rng) + 1 \<and> range_attempts again \<le> max_attempts profile))"
proof -
  obtain w1 where w1: "cancel_attempt host profile rng w = (Ok (), w1)" "world_disk w1 = world_disk w"
    using cancel_attempt_ok by blast
  note slot1 = slot(1) [folded w1(2)] slot(2,3) refl
  show ?thesis
  proof (cases "max_attempts profile \<le> range_attempts rng")
    case True
    then have "fail_range (env_now host w1) (host_codec host) store branch (range_head rng) reason (world_disk w1) = (Ok (), world_disk w')"
      using run w1(1) by (auto simp: supervise_failure_def and_then_Ok map_error_def store_call_def split: prod.splits)
    from fail_effect [OF this codec slot1] show ?thesis using True by (smt (verit))
  next
    case False
    then obtain n where "retry_attempt (env_now host w1) (host_codec host) store branch (range_head rng) (world_disk w1) = (Ok n, world_disk w')"
      and woken: "(session_name profile, range_head rng) \<notin> woken w'"
      using run w1(1)
      by (auto simp: supervise_failure_def and_then_Ok map_error_def store_call_def give_back_wake_def modify_def
          elim!: and_then_cases split: prod.splits)
    from retry_effect [OF this(1) codec slot1] obtain state' bs' where
      s: "stored_state (host_codec host) store (world_disk w') = Some state'" "bt_get (branches state') branch = Some bs'"
      "in_flight bs' = Some (rng\<lparr>range_attempts := range_attempts rng + 1, attempt_started_at := now_iso (env_now host w1) 0\<rparr>)"
      "cursor bs' = cursor bs" .
    have less: "unat (range_attempts rng) < unat (max_attempts profile)" using False by (simp add: word_less_nat_alt not_le)
    moreover have "unat (max_attempts profile) < 2 ^ LENGTH(32)" by (rule unsigned_less)
    ultimately have "unat (range_attempts rng) + 1 < 2 ^ 32" by simp
    then have "unat (range_attempts rng + 1) = unat (range_attempts rng) + 1" by (simp add: unat_word_ariths)
    with s woken False less show ?thesis by (auto simp: word_le_nat_alt)
  qed
qed

lemma supervise_quiet:
  assumes env: "\<And>w. quiet (env_now host w)" "codec_total (host_codec host)"
    and stored: "stored_state (host_codec host) store (world_disk w) = Some state" "state_wf state"
    and slot: "bt_get (branches state) branch = Some bs" "in_flight bs = Some rng"
  obtains w' where "supervise_failure host store profile branch rng reason w = (Ok (), w')"
proof -
  obtain w1 where w1: "cancel_attempt host profile rng w = (Ok (), w1)" "world_disk w1 = world_disk w"
    using cancel_attempt_ok by blast
  note step = transact_quiet(3) [OF env(1) [of w1] env(2) stored [folded w1(2)]]
  show thesis
  proof (cases "max_attempts profile \<le> range_attempts rng")
    case True
    have "\<exists>d. fail_range (env_now host w1) (host_codec host) store branch (range_head rng) reason (world_disk w1) = (Ok (), d)"
      unfolding fail_range_def by (rule step) (use slot in \<open>simp add: decide_fail_def\<close>)
    then show thesis using that True w1(1)
      by (auto simp: supervise_failure_def and_then_Ok map_error_def store_call_def)
  next
    case False
    have "\<exists>d. retry_attempt (env_now host w1) (host_codec host) store branch (range_head rng) (world_disk w1)
        = (Ok (range_attempts rng + 1), d)"
      unfolding retry_attempt_def by (rule step) (use slot in \<open>simp add: decide_retry_def Let_def\<close>)
    then show thesis using that False w1(1)
      by (auto simp: supervise_failure_def and_then_def map_error_def store_call_def give_back_wake_def modify_def)
  qed
qed

theorem supervised_attempts_bounded_witness:
  "\<exists>(w' :: stored_file world) state' bs'. stored_state plain_codec sample_store (world_disk w') = Some state'
     \<and> bt_get (branches state') ''main'' = Some bs' \<and> cursor bs' = Some rev_a"
proof -
  obtain trace disk state bs rng where "in_review_sample trace disk state bs rng" using sample_in_review by blast
  then have stored: "stored_state (host_codec push_host) sample_store (world_disk (start_world disk)) = Some state" "state_wf state"
    and slot: "bt_get (branches state) ''main'' = Some bs" "in_flight bs = Some rng" and cursor: "cursor bs = Some rev_a"
    by (auto simp: in_review_sample_def start_world_def)
  obtain w' where run: "supervise_failure push_host sample_store sample_profile ''main'' rng ''timed_out'' (start_world disk) = (Ok (), w')"
    by (rule supervise_quiet [OF _ _ stored slot]) (use quiet_env_quiet plain_codec_total in auto)
  have "codec_ok (host_codec push_host)" using plain_codec_ok by simp
  from supervised_attempts_bounded [OF this stored(1) slot run] cursor show ?thesis by auto
qed

subsection \<open>Completion of exactly the admitted range\<close>

lemma complete_Ok:
  assumes run: "complete env codec store review disk = (Ok c, disk')" and codec: "codec_ok codec"
  obtains state' bs' where "stored_state codec store disk' = Some state'"
    "bt_get (branches state') (record_branch review) = Some bs'" "cursor bs' = Some (record_head review)"
    "bt_get disk' (record_path store (record_branch review) (record_head review)) \<noteq> None"
    "revision_ok (record_head review)"
  using run
proof (cases rule: complete_cases)
  case (locked state)
  have head: "revision_ok (record_head (stamp_completed (now_iso env 0) review))" using locked by simp
  from locked(5) codec head show thesis
  proof (cases rule: complete_locked_cases)
    case (replayed bs)
    with locked show thesis by (intro that [of state bs]) auto
  next
    case (completed bs rng t)
    with locked show thesis
      by (intro that [OF completed(5), of "advanced_branch bs (record_head (stamp_completed (now_iso env 0) review)) t"])
        (auto simp: put_branch_def bt_simps advanced_branch_def)
  qed auto
qed simp

lemma supervised_not_true:
  "and_then m (\<lambda>_. return False) w \<noteq> (Ok True, w')"
  by (auto simp: and_then_def return_def split: prod.split result.split)

lemma settle_review_True:
  assumes "settle_review host store profile branch rng sessions answers child_ids transcript w = (Ok True, w')"
  obtains harvested c disk' where "harvest_review (parse_json host) transcript answers = Ok harvested"
    "review_base harvested = range_base rng" "review_head harvested = range_head rng" "missing_layers harvested = []"
    "\<not> runtime_unavailable harvested"
    "complete (env_now host w) (host_codec host) store (record_of profile branch rng child_ids harvested) (world_disk w)
       = (Ok c, world_disk w')"
  using assms
  by (auto simp: supervised_not_true settle_review_def store_call_def map_error_def give_back_wake_def modify_def
      elim!: and_then_cases split: result.splits if_splits prod.splits)

lemma rewake_not_true: "rewake host profile rng w \<noteq> (Ok True, w')"
  by (auto simp: rewake_def Let_def elim!: and_then_cases split: if_splits result.splits)

lemma try_complete_True:
  assumes "try_complete_review host store profile branch rng w = (Ok True, w')"
  obtains sessions answers child_ids transcript w1 where
    "settle_review host store profile branch rng sessions answers child_ids transcript w1 = (Ok True, w')"
  using assms
  by (auto simp: try_complete_review_def supervised_not_true rewake_not_true elim!: and_then_cases
      split: option.splits if_splits)

lemma reached_advances: "reached codec store (world_disk w) \<Longrightarrow> advances codec store w w' \<Longrightarrow> reached codec store (world_disk w')"
  unfolding reached_def advances_def by blast

lemma reached_record_present:
  assumes "reached codec store disk" "codec_ok codec" "revision_ok head"
    "bt_get disk (record_path store branch head) \<noteq> None"
  shows "record_present codec store disk branch head"
proof -
  obtain d0 trace where "fresh_disk store d0" "runs codec store d0 trace disk" using assms(1) by (auto simp: reached_def)
  then have "records_sound codec store disk" using runs_records assms(2) by blast
  with assms(3,4) show ?thesis by (auto simp: records_sound_def)
qed


subsection \<open>Wakes\<close>

lemma wake_conductor_run:
  obtains r w' where "wake_conductor host name message w = (r, w')" "woken w' = woken w" "world_disk w' = world_disk w"
    "\<exists>sent. wire_log w' = wire_log w @ [sent]"
proof -
  let ?cmd = "Object [(''type'', String ''send_message''), (''targetActiveSessionId'', String name), (''message'', String message)]"
  have "\<exists>sent. wire_log (snd (request host ?cmd w)) = wire_log w @ [sent]"
    by (auto simp: request_def Let_def split: option.split)
  moreover have "snd (wake_conductor host name message w) = snd (request host ?cmd w)"
    by (auto simp: wake_conductor_def and_then_def map_error_def return_def split: prod.split result.split)
  moreover obtain r w' where "wake_conductor host name message w = (r, w')" by fastforce
  ultimately show thesis by (intro that [of r w']) auto
qed

text \<open>
  A conductor that is not resident is re-woken at most once per attempt: when its wake was already
  issued nothing is sent and nothing changes; otherwise exactly one message is sent, and the wake
  counts as issued exactly if the daemon accepted it, so a refused wake is retried by the next scan.
\<close>

theorem rewake_at_most_once:
  assumes run: "rewake host profile rng w = (r, w')"
  defines "key \<equiv> (session_name profile, range_head rng)"
  shows "(key \<in> woken w \<longrightarrow> r = Ok False \<and> w' = w)
    \<and> (key \<notin> woken w \<longrightarrow> (\<exists>sent. wire_log w' = wire_log w @ [sent])
        \<and> (r = Ok False \<and> woken w' = insert key (woken w) \<or> (\<exists>e. r = Err e) \<and> woken w' = woken w))"
proof (cases "key \<in> woken w")
  case True
  with run show ?thesis
    by (simp add: rewake_def Let_def key_def) (simp add: and_then_def get_world_def return_def)
next
  case False
  let ?v = "w\<lparr>woken := insert key (woken w)\<rparr>"
  obtain q w1 where wake: "wake_conductor host (session_name profile) (wake_message rng (max_attempts profile)) ?v = (q, w1)"
    "woken w1 = insert key (woken w)" "\<exists>sent. wire_log w1 = wire_log w @ [sent]"
    by (rule wake_conductor_run [of host "session_name profile" "wake_message rng (max_attempts profile)" ?v]) simp
  have "insert key (woken w) - {key} = woken w" using False by simp
  with run wake False show ?thesis
    by (cases q) (auto simp: rewake_def Let_def key_def and_then_def get_world_def modify_def attempt_def
        give_back_wake_def return_def throw_def)
qed

subsection \<open>Dead turns\<close>

text \<open>
  C22. The quick failure of a dead turn never throws a finished review away: where the observer declares
  the conductor's turn dead, no layer was ever dispatched and the transcript cannot be harvested,
  whatever answers the children gave.
\<close>

theorem dead_turn_cannot_be_harvested:
  assumes "conductor_turn_dead transcript"
  shows "\<not> is_ok (harvest_review parse transcript answers)
    \<and> (\<forall>rows. message_rows transcript = Some rows \<longrightarrow> dispatched_layers parse rows = {})"
proof -
  obtain rows where rows: "message_rows transcript = Some rows"
    and none: "\<And>row blocks. row \<in> set rows \<Longrightarrow> get_array row ''content'' = Some blocks \<Longrightarrow> \<not> list_ex is_dispatch_block blocks"
    using assms by (fastforce simp: conductor_turn_dead_def list_ex_iff split: option.splits if_splits)
  have empty: "dispatched_layers parse rows = {}"
    using none by (fastforce simp: dispatched_layers_def list_ex_iff)
  have False if "harvest_review parse transcript answers = Ok review" for review
    using that
  proof (rule harvest_review_Ok)
    fix rows' scan
    assume h: "message_rows transcript = Some rows'" "scan_inv parse rows' scan"
      "check_range (scan_calls scan) = Ok (review_base review, review_head review)"
    then have "scan_calls scan = []" using rows empty by (auto simp: scan_inv_def)
    with h(3) show False by (simp add: check_range_def)
  qed
  then have "\<not> is_ok (harvest_review parse transcript answers)" by (cases "harvest_review parse transcript answers") auto
  with rows empty show ?thesis by auto
qed

subsection \<open>Scans\<close>

lemma scan_entry_ok: "\<exists>w'. scan_entry host options channels entry w = (Ok (), w')"
  by (auto simp: scan_entry_def and_then_def attempt_def store_read_def return_def split: result.split prod.split)

lemma for_each_ok:
  assumes "\<And>x w. \<exists>w'. body x w = (Ok (), w')"
  shows "\<exists>w'. for_each xs body w = (Ok (), w')"
proof (induction xs arbitrary: w)
  case (Cons x xs)
  obtain w1 where "body x w = (Ok (), w1)" using assms by blast
  with Cons [of w1] show ?case by (auto simp: and_then_Ok)
qed (simp add: return_def)

text \<open>The scan's visits: each entry from the state the previous one left, whatever that one returned.\<close>

fun visits :: "('x \<Rightarrow> ('s, unit, 'e) action) \<Rightarrow> 'x list \<Rightarrow> 's \<Rightarrow> 's" where
  "visits body [] s = s"
| "visits body (x # xs) s = visits body xs (snd (body x s))"

lemma for_each_visits:
  assumes "\<And>x w. \<exists>w'. body x w = (Ok (), w')"
  shows "for_each xs body w = (Ok (), visits body xs w)"
proof (induction xs arbitrary: w)
  case (Cons x xs)
  obtain w1 where "body x w = (Ok (), w1)" using assms by blast
  with Cons [of w1] show ?case by (simp add: and_then_Ok)
qed (simp add: return_def)

text \<open>
  C21. One repository cannot stop the others, and the service does not stop on an error: a scan fails
  only if the directory of enrolled repositories cannot be listed, otherwise it visits every entry in
  turn with a fresh connection, whatever the earlier visits returned; the service ends after one scan
  when asked to, whatever that scan returned, and otherwise is still running after any number of scans.
\<close>

theorem scan_visits_every_repository:
  shows "(case dir_entries host (world_disk w) (path_join (path_join (agent_dir options) ''big-brother'') ''repos'') of
      Err e \<Rightarrow> \<not> is_ok (fst (scan_once host options w))
    | Ok entries \<Rightarrow> scan_once host options w = (Ok (),
        (visits (scan_entry host options (channels_from_env host)) entries (w\<lparr>client := None\<rparr>))\<lparr>client := None\<rparr>))
    \<and> (once options \<longrightarrow> fst (run_observer (Suc fuel) host options w) = Some (Ok ()))
    \<and> (\<not> once options \<longrightarrow> fst (run_observer fuel host options w) = None)"
proof -
  have "fst (observer_loop fuel host options v) = None" if "\<not> once options" for v
    using that by (induction fuel arbitrary: v) (auto simp: Let_def)
  moreover have "fst (run_observer (Suc fuel) host options w) = Some (Ok ())" if "once options"
    using that by (simp add: run_observer_def Let_def)
  moreover have "case dir_entries host (world_disk w) (path_join (path_join (agent_dir options) ''big-brother'') ''repos'') of
      Err e \<Rightarrow> \<not> is_ok (fst (scan_once host options w))
    | Ok entries \<Rightarrow> scan_once host options w = (Ok (),
        (visits (scan_entry host options (channels_from_env host)) entries (w\<lparr>client := None\<rparr>))\<lparr>client := None\<rparr>)"
    using for_each_visits [where body = "scan_entry host options (channels_from_env host)", OF scan_entry_ok]
    by (auto simp: scan_once_def Let_def and_then_def get_world_def modify_def throw_def split: result.split)
  ultimately show ?thesis by (simp add: run_observer_def)
qed

subsection \<open>A review that settles\<close>

text \<open>A daemon that answers every request with one resident conductor and its settled transcript.\<close>

definition conductor_data :: json where
  "conductor_data = Object [(''messages'', Array sample_rows),
     (''sessions'', Array [Object [(''sessionName'', String ''review-main''), (''id'', String ''s1'')]])]"

definition settled_host :: "stored_file host" where
  "settled_host = (bare_host plain_codec (\<lambda>_. StateFile default_repository_state))
     \<lparr>wire_events := (\<lambda>_ msg. [WireLine (case get_str msg ''id'' of None \<Rightarrow> [] | Some ident \<Rightarrow> ident)]),
      parse_json := (\<lambda>line. Some (Object [(''id'', String line), (''success'', Bool True), (''data'', conductor_data)]))\<rparr>"

lemma settled_request:
  obtains w' where "request settled_host command w
    = (Ok (Object [(''id'', String (request_id ((case client w of None \<Rightarrow> 0 | Some n \<Rightarrow> n) + 1))), (''success'', Bool True),
         (''data'', conductor_data)]), w')" "world_disk w' = world_disk w"
  by (rule that [of "snd (request settled_host command w)"])
    (simp_all add: request_def Let_def settled_host_def bare_host_def envelope_def get_str_def trim_request_id)

lemma settled_calls:
  obtains w1 where "list_sessions settled_host w = (Ok [Object [(''sessionName'', String ''review-main''), (''id'', String ''s1'')]], w1)"
    "world_disk w1 = world_disk w"
  by (rule settled_request [of "Object [(''type'', String ''list'')]" w])
    (auto simp: list_sessions_def and_then_def return_def roster_def json_index_def conductor_data_def)

lemma settled_messages:
  obtains w1 where "get_messages settled_host ident w = (Ok conductor_data, w1)" "world_disk w1 = world_disk w"
  by (rule settled_request [of "Object [(''type'', String ''get_messages''), (''activeSessionId'', String ident)]" w])
    (auto simp: get_messages_def and_then_def return_def json_index_def)

lemma conductor_rows: "message_rows conductor_data = Some sample_rows"
  by (simp add: conductor_data_def message_rows_def get_array_def)

lemma conductor_harvest: "harvest_review p conductor_data [] = Ok sample_review"
proof -
  have "message_rows conductor_data = message_rows sample_transcript"
    by (simp add: conductor_rows sample_rows_def sample_rows_eq)
  then show ?thesis using sample_harvest [of p] by (simp add: harvest_review_def)
qed

lemma conductor_alive: "\<not> conductor_turn_dead conductor_data"
  by (simp add: conductor_turn_dead_def conductor_rows sample_rows_def sample_rows_eq get_array_def
      is_dispatch_block_def sample_call_def get_str_def)

lemma sample_runtime: "\<not> runtime_unavailable sample_review"
  by (simp add: runtime_unavailable_def sample_review_def runtime_phrases_def starts_with_def)

lemma no_children:
  "collect_children settled_host [Object [(''sessionName'', String ''review-main''), (''id'', String ''s1'')]] rev_b
     (layers sample_profile) [] [] w = (Ok ([], []), w)"
  by (simp add: sample_profile_def session_named_def child_name_def get_str_def return_def)

lemma settled_review:
  obtains w w' rng where "try_complete_review settled_host sample_store sample_profile ''main'' rng w = (Ok True, w')"
    "reached plain_codec sample_store (world_disk w)" "range_base rng = rev_a" "range_head rng = rev_b"
proof -
  obtain trace disk state bs rng where "in_review_sample trace disk state bs rng" using sample_in_review by blast
  then have run: "runs plain_codec sample_store [] trace disk"
    and stored: "stored_state plain_codec sample_store disk = Some state" "state_wf state"
    and slot: "bt_get (branches state) ''main'' = Some bs" "in_flight bs = Some rng"
    and rng: "range_base rng = rev_a" "range_head rng = rev_b"
    by (auto simp: in_review_sample_def)
  let ?w = "start_world disk" and ?row = "Object [(''sessionName'', String ''review-main''), (''id'', String ''s1'')]"
  let ?rec = "record_of sample_profile ''main'' rng [] sample_review"
  have rec: "record_branch ?rec = ''main''" "matches_range ?rec rng" "completable ?rec"
    using rng record_ab_completable
    by (simp_all add: record_of_def sample_review_def matches_range_def completable_def hex_a_def hex_b_def rev_a_def rev_b_def
        record_ab_def RECORD_VERSION_def)
  obtain w1 where w1: "list_sessions settled_host ?w = (Ok [?row], w1)" "world_disk w1 = disk"
    using settled_calls [of ?w] by (auto simp: start_world_def)
  obtain w2 where w2: "get_messages settled_host ''s1'' w1 = (Ok conductor_data, w2)" "world_disk w2 = disk"
    using settled_messages [of "''s1''" w1] w1(2) by auto
  obtain w3 where w3: "get_messages settled_host ''s1'' w2 = (Ok conductor_data, w3)" "world_disk w3 = disk"
    using settled_messages [of "''s1''" w2] w2(2) by auto
  have env: "env_now settled_host w3 = quiet_env" "host_codec settled_host = plain_codec"
    by (simp_all add: settled_host_def bare_host_def env_now_def)
  obtain d p where fin: "complete (quiet_env :: stored_file env) plain_codec sample_store ?rec disk = (Ok (Completed rng p), d)"
    by (rule complete_quiet [OF quiet_env_quiet plain_codec_total plain_codec_ok rec(3) stored, of bs rng])
      (use slot rec in auto)
  have settle: "\<exists>w'. settle_review settled_host sample_store sample_profile ''main'' rng [?row] [] [] conductor_data w3 = (Ok True, w')"
    using fin w3(2) rng
    by (simp add: settle_review_def conductor_harvest sample_runtime sample_review_def [THEN arg_cong, of missing_layers]
        and_then_def map_error_def store_call_def env give_back_wake_def modify_def return_def
        sample_review_def [THEN arg_cong, of review_base] sample_review_def [THEN arg_cong, of review_head]
        hex_a_def hex_b_def rev_a_def rev_b_def)
  have ids: "session_named (session_name sample_profile) [?row] = Some ?row" "session_id settled_host ?row = Ok ''s1''"
    by (simp_all add: session_named_def sample_profile_def get_str_def session_id_def)
  have "\<exists>w'. try_complete_review settled_host sample_store sample_profile ''main'' rng ?w = (Ok True, w')"
    using settle
    by (simp add: try_complete_review_def and_then_def w1(1) w2(1) w3(1) ids conductor_alive no_children rng lift_result_def)
  moreover have "reached plain_codec sample_store (world_disk ?w)"
    using run fresh_empty by (auto simp: reached_def start_world_def)
  ultimately show thesis using that rng by blast
qed


theorem rewake_at_most_once_witness:
  "\<exists>(w' :: unit world) r sent. rewake unit_host sample_profile \<lparr>range_base = rev_a, range_head = rev_b, admitted_at = [],
       range_attempts = 1, attempt_started_at = []\<rparr> (start_world []) = (r, w') \<and> wire_log w' = [sent]"
proof -
  let ?rng = "\<lparr>range_base = rev_a, range_head = rev_b, admitted_at = [], range_attempts = 1, attempt_started_at = []\<rparr>"
  obtain r w' where run: "rewake unit_host sample_profile ?rng (start_world []) = (r, w')" by fastforce
  from rewake_at_most_once [OF run] run show ?thesis by (auto simp: start_world_def)
qed

theorem dead_turn_cannot_be_harvested_witness:
  "\<not> is_ok (harvest_review (\<lambda>_. None) (Object [(''messages'', Array [Object [(''role'', String ''assistant''),
     (''stopReason'', String ''error'')]])]) [(''project-fit'', ''fine'')])"
  by (rule dead_turn_cannot_be_harvested [THEN conjunct1])
    (simp add: conductor_turn_dead_def message_rows_def get_array_def get_str_def)

theorem scan_visits_every_repository_witness:
  "fst (run_observer (Suc 0) unit_host \<lparr>socket_path = [], agent_dir = [], once = True\<rparr> (start_world [])) = Some (Ok ())"
  using scan_visits_every_repository [where host = unit_host and w = "start_world []" and fuel = 0
      and options = "\<lparr>socket_path = [], agent_dir = [], once = True\<rparr>"] by simp

end
