(* ===== verification/Query.thy ===== *)
theory Query
  imports Store_Effects
begin

text \<open>
  The operator's view of a repository: \<open>crates/pa-daemon/src/big_brother/query.rs\<close>. Loading reads the
  state and every branch's records; rendering is a pure function of what was loaded.
\<close>

record query_options =
  query_agent_dir :: path
  query_repo :: path

record branch_status =
  status_name :: string
  status_cursor :: "string option"
  status_in_flight :: "review_range option"
  status_last_failure :: "review_failure option"
  status_observation_failure :: "observation_failure option"
  status_records :: "review_record list"

record repository_status =
  status_git_root :: path
  status_branches :: "branch_status list"

fun load_branches ::
  "('b, 'z) env_scheme \<Rightarrow> 'b codec \<Rightarrow> store \<Rightarrow> 'b disk \<Rightarrow> (string \<times> branch_state) list
   \<Rightarrow> (branch_status list, failure) result" where
  "load_branches env codec store disk [] = Ok []"
| "load_branches env codec store disk ((name, branch_state) # rest) =
     try_bind (map_err (StateFailure (''review records of '' @ name @ '': '')) (records env codec store disk name)) (\<lambda>rs.
     try_bind (load_branches env codec store disk rest) (\<lambda>more.
     Ok (\<lparr>status_name = name, status_cursor = cursor branch_state, status_in_flight = in_flight branch_state,
          status_last_failure = last_failure branch_state,
          status_observation_failure = last_observation_failure branch_state, status_records = rs\<rparr> # more)))"

definition load_repository_status ::
  "('b, 'z) env_scheme \<Rightarrow> 'b codec \<Rightarrow> (path \<Rightarrow> bool) \<Rightarrow> 'b disk \<Rightarrow> query_options
   \<Rightarrow> (repository_status, failure) result" where
  "load_repository_status env codec is_git_dir disk options =
     (case find_git_repo_root is_git_dir (query_repo options) of
        None \<Rightarrow> Err (Failure (path_string (query_repo options) @ '' is not inside a git repository''))
      | Some git_root \<Rightarrow>
          (let store = open_store (query_agent_dir options) git_root
           in try_bind (map_err (StateFailure ''repository state: '') (load env codec store disk)) (\<lambda>state.
              if branches state = []
              then Err (Failure (''the repository at '' @ path_string git_root @ '' has no review state at ''
                @ path_string (state_path store) @ ''; run big-brother init first''))
              else try_bind (load_branches env codec store disk (branches state)) (\<lambda>bs.
                   Ok \<lparr>status_git_root = git_root, status_branches = bs\<rparr>))))"

subsection \<open>Rendering\<close>

definition writeln :: "string \<Rightarrow> string" where
  "writeln s = s @ [CHR ''\<newline>'']"

definition ellipsized :: "nat \<Rightarrow> string \<Rightarrow> string" where
  "ellipsized n s = (if n < chars_count s then chars_take n s @ ellipsis else chars_take n s)"

definition short_revision :: "string \<Rightarrow> string" where
  "short_revision revision = ellipsized 12 revision"

definition first_line :: "string \<Rightarrow> string" where
  "first_line txt =
     ellipsized 72 (case find (\<lambda>line. trim line \<noteq> []) (str_lines txt) of None \<Rightarrow> [] | Some line \<Rightarrow> line)"

definition render_channel :: "string \<times> delivery_state \<Rightarrow> string" where
  "render_channel entry = (case entry of (channel, state) \<Rightarrow>
     if delivered state then channel @ '' delivered''
     else (case last_error state of
        Some error \<Rightarrow> channel @ '' pending (attempt '' @ show_nat (unat (delivery_attempts state)) @ '', last error: ''
          @ first_line error @ '')''
      | None \<Rightarrow> channel @ '' pending (attempt '' @ show_nat (unat (delivery_attempts state)) @ '')''))"

definition render_delivery :: "review_record \<Rightarrow> string" where
  "render_delivery record = join_str '', '' (map render_channel (delivery record))"

definition render_record :: "review_record \<Rightarrow> string" where
  "render_record record =
     writeln (''    '' @ short_revision (record_head record) @ ''  '' @ completed_at record @ ''  ''
       @ (case conclusion record of None \<Rightarrow> ''(no synthesis captured)'' | Some txt \<Rightarrow> first_line txt))
     @ (if delivery record \<noteq> [] then writeln (''      delivery: '' @ render_delivery record) else [])"

definition render_branch :: "branch_status \<Rightarrow> string" where
  "render_branch branch =
     writeln (''branch '' @ status_name branch @ '':'')
     @ writeln (''  '' @ (case status_cursor branch of
         Some revision \<Rightarrow> ''reviewed through '' @ short_revision revision
       | None \<Rightarrow> ''no review baseline yet''))
     @ writeln (''  '' @ (case status_in_flight branch of
         Some rng \<Rightarrow> ''review in flight: '' @ short_revision (range_base rng) @ ''..'' @ short_revision (range_head rng)
           @ '' (attempt '' @ show_nat (unat (range_attempts rng)) @ '')''
       | None \<Rightarrow> ''no review in flight''))
     @ (case status_last_failure branch of None \<Rightarrow> []
        | Some f \<Rightarrow> writeln (''  last review failed: '' @ short_revision (failure_base f) @ ''..''
            @ short_revision (failure_head f) @ '' after '' @ show_nat (unat (failure_attempts f)) @ '' attempt(s) (''
            @ failure_reason f @ '') at '' @ failed_at f @ ''; a later range re-covers it''))
     @ (case status_observation_failure branch of None \<Rightarrow> []
        | Some f \<Rightarrow> writeln (''  worktree update skipped: '' @ observation_kind f @ '' ('' @ observation_message f
            @ '') at '' @ observed_at f))
     @ (if status_records branch = [] then writeln ''  no completed reviews''
        else writeln (''  '' @ show_nat (length (status_records branch)) @ '' completed review(s):'')
          @ concat (map render_record (status_records branch)))"

definition render_status :: "repository_status \<Rightarrow> string" where
  "render_status status =
     writeln (''repository: '' @ path_string (status_git_root status)) @ concat (map render_branch (status_branches status))"

subsection \<open>What the status shows\<close>

lemma ellipsized_count: "chars_count (ellipsized n s) \<le> n + 1"
  by (auto simp: ellipsized_def chars_count_take_ellipsis) (simp add: chars_count_def)

lemma load_branches_shows:
  assumes "load_branches env codec store disk bs = Ok shown" "(name, branch_state) \<in> set bs"
  shows "\<exists>b \<in> set shown. status_name b = name \<and> status_cursor b = cursor branch_state
    \<and> status_in_flight b = in_flight branch_state \<and> records env codec store disk name = Ok (status_records b)"
  using assms
proof (induction bs arbitrary: shown)
  case (Cons b bs)
  obtain n st where b: "b = (n, st)" by (cases b)
  obtain rs where rs: "records env codec store disk n = Ok rs"
    using Cons.prems(1) b by (cases "records env codec store disk n") auto
  obtain more where more: "load_branches env codec store disk bs = Ok more"
    using Cons.prems(1) b rs by (cases "load_branches env codec store disk bs") auto
  show ?case
  proof (cases "(name, branch_state) = b")
    case True
    then show ?thesis using Cons.prems(1) b rs more by auto
  next
    case False
    then have "(name, branch_state) \<in> set bs" using Cons.prems(2) by auto
    from Cons.IH [OF more this] show ?thesis using Cons.prems(1) b rs more by auto
  qed
qed simp

lemma records_complete:
  assumes "records env codec store disk branch = Ok rs" "revision_ok head"
    and "stored_record codec store disk branch head = Some r"
  shows "r \<in> set rs"
proof -
  let ?p = "record_path store branch head"
  have head: "CHR ''/'' \<notin> set head" "head \<noteq> []" using revision_ok_no_slash assms(2) by (auto simp: revision_ok_def)
  have there: "bt_get disk ?p \<noteq> None" using assms(3) by (auto simp: stored_record_def split: option.splits)
  then have key: "?p \<in> set (bt_keys disk)" by (metis bt.keys_dom domI not_None_eq)
  have parent: "path_parent ?p = Some (records_branch_dir store branch)"
    using record_path_eq [OF head(1)] by simp
  define ps where "ps = sort (filter (\<lambda>p. path_extension p = Some ''json'')
    (filter (\<lambda>p. path_parent p = Some (records_branch_dir store branch)) (bt_keys disk)))"
  have "?p \<in> set ps" using key parent record_path_extension [OF head] by (simp add: ps_def)
  moreover have "read_records env codec disk branch ps = Ok rs"
    using assms(1) key parent
    by (auto simp: records_def Let_def fs_read_dir_def ps_def filter_empty_conv simp del: filter_filter
        split: option.splits if_splits)
  ultimately obtain r' where "r' \<in> set rs" "decodes_to codec disk branch ?p r'"
    using read_records_Ok by (metis in_set_conv_nth list_all2_conv_all_nth)
  then show ?thesis using assms(3) by (auto simp: decodes_to_def stored_record_def)
qed

text \<open>
  C12. The status hides no completed review: whatever ran before, when the query of a repository
  succeeds it shows, for every range that was ever reported completed on a branch, that branch with its
  stored cursor and among its records one of exactly that range's head.
\<close>

theorem status_shows_every_completed_review:
  assumes codec: "codec_ok codec" and store: "store = open_store (query_agent_dir options) git_root"
    and root: "find_git_repo_root is_git_dir (query_repo options) = Some git_root"
    and fresh: "fresh_disk store disk0" and run: "runs codec store disk0 trace disk"
    and shown: "load_repository_status env codec is_git_dir disk options = Ok status"
    and rng: "rng \<in> set (completed_ranges branch trace)"
  shows "\<exists>b \<in> set (status_branches status). status_name b = branch
    \<and> (\<exists>r \<in> set (status_records b). record_head r = range_head rng)"
proof -
  obtain state bs where load: "load env codec store disk = Ok state"
    "load_branches env codec store disk (branches state) = Ok bs" "status_branches status = bs"
    using shown root store
    by (cases "load env codec store disk"; cases "load_branches env codec store disk (branches (the (result_ok (load env codec store disk))))")
      (auto simp: load_repository_status_def Let_def split: if_splits)
  have stored: "stored_state codec store disk = Some state" using load(1) read_state_stored by (simp add: load_def)
  have "phase_explained branch trace (phase_at state branch)" "state_wf state"
    using runs_explained [OF run codec fresh] stored by auto
  then have "phase_at state branch \<noteq> Unseeded" using rng by auto
  then obtain branch_state where "bt_get (branches state) branch = Some branch_state"
    by (cases "bt_get (branches state) branch")
      (auto simp: phase_at_def branch_entry_def default_branch_state_def phase_of_def)
  then obtain b where b: "b \<in> set bs" "status_name b = branch" "records env codec store disk branch = Ok (status_records b)"
    using load_branches_shows [OF load(2)] map_of_SomeD by metis
  have head: "revision_ok (range_head rng)" "record_present codec store disk branch (range_head rng)"
    using runs_records [OF run codec fresh] rng by auto
  then obtain r where r: "stored_record codec store disk branch (range_head rng) = Some r" "record_head r = range_head rng"
    by (auto simp: record_present_def record_fits_def)
  from records_complete [OF b(3) head(1) r(1)] r(2) b load(3) show ?thesis by blast
qed

subsection \<open>A sample history, evaluated\<close>

definition epoch_stamp :: string where "epoch_stamp = ''1970-01-01T00:00:00.000Z''"

definition sample_branch :: "string \<Rightarrow> review_range option \<Rightarrow> branch_state" where
  "sample_branch revision rng = \<lparr>cursor = Some revision, in_flight = rng, last_failure = None,
     last_observation_failure = None, updated_at = epoch_stamp\<rparr>"

definition sample_state :: "branch_state \<Rightarrow> stored_file" where
  "sample_state bs = StateFile \<lparr>state_version = 1, state_git_root = Some ''/srv/work'', branches = [(''main'', bs)]\<rparr>"

definition sample_range :: review_range where
  "sample_range = \<lparr>range_base = rev_a, range_head = rev_b, admitted_at = epoch_stamp, range_attempts = 1,
     attempt_started_at = epoch_stamp\<rparr>"

definition seeded_disk :: "stored_file disk" where
  "seeded_disk = [(state_path sample_store, sample_state (sample_branch rev_a None))]"

definition admitted_disk :: "stored_file disk" where
  "admitted_disk = [(state_path sample_store, sample_state (sample_branch rev_a (Some sample_range)))]"

definition completed_disk :: "stored_file disk" where
  "completed_disk = [(record_path sample_store ''main'' rev_b, RecordFile (record_ab\<lparr>completed_at := epoch_stamp\<rparr>)),
     (state_path sample_store, sample_state (sample_branch rev_b None))]"

lemma sample_seeded:
  "seed_cursor (quiet_env :: stored_file env) plain_codec sample_store ''main'' rev_a [] = (Ok (), seeded_disk)"
  by code_simp

lemma sample_admitted:
  "admit (quiet_env :: stored_file env) plain_codec sample_store ''main'' rev_b seeded_disk = (Ok (Admitted sample_range), admitted_disk)"
  by code_simp

lemma sample_finished:
  "complete (quiet_env :: stored_file env) plain_codec sample_store record_ab admitted_disk = (Ok (Completed sample_range (record_path sample_store ''main'' rev_b)), completed_disk)"
  by code_simp

definition sample_query :: query_options where
  "sample_query = \<lparr>query_agent_dir = [''/'', ''agent''], query_repo = [''/'', ''srv'', ''work'']\<rparr>"

lemma sample_status:
  "is_ok (load_repository_status (quiet_env :: stored_file env) plain_codec (\<lambda>_. True) completed_disk sample_query)"
  by code_simp

lemma sample_history:
  "runs plain_codec sample_store [] [(SeedCursor ''main'' rev_a, Done), (Admit ''main'' rev_b, Admission (Admitted sample_range)),
     (Complete record_ab, Completion (Completed sample_range (record_path sample_store ''main'' rev_b)))] completed_disk"
proof -
  have "runs plain_codec sample_store [] ([] @ [(SeedCursor ''main'' rev_a, Done)]) seeded_disk"
    by (rule runs_one [OF runs.start, of _ quiet_env]) (simp_all add: sample_seeded)
  then have "runs plain_codec sample_store [] (([] @ [(SeedCursor ''main'' rev_a, Done)])
      @ [(Admit ''main'' rev_b, Admission (Admitted sample_range))]) admitted_disk"
    by (rule runs_one [of _ _ _ _ _ _ quiet_env]) (simp_all add: sample_admitted)
  then have "runs plain_codec sample_store [] ((([] @ [(SeedCursor ''main'' rev_a, Done)])
      @ [(Admit ''main'' rev_b, Admission (Admitted sample_range))])
      @ [(Complete record_ab, Completion (Completed sample_range (record_path sample_store ''main'' rev_b)))]) completed_disk"
    by (rule runs_one [of _ _ _ _ _ _ quiet_env]) (simp_all add: sample_finished)
  then show ?thesis by simp
qed

theorem status_shows_every_completed_review_witness:
  "\<exists>status. load_repository_status (quiet_env :: stored_file env) plain_codec (\<lambda>_. True) completed_disk sample_query = Ok status
     \<and> (\<exists>b \<in> set (status_branches status). status_name b = ''main'' \<and> (\<exists>r \<in> set (status_records b). record_head r = rev_b))"
proof -
  obtain status where shown: "load_repository_status (quiet_env :: stored_file env) plain_codec (\<lambda>_. True) completed_disk sample_query = Ok status"
    using sample_status by (auto simp: is_ok_iff)
  have root: "find_git_repo_root (\<lambda>_. True) (query_repo sample_query) = Some [''/'', ''srv'', ''work'']"
    by (simp add: sample_query_def find_git_repo_root.simps)
  have store: "sample_store = open_store (query_agent_dir sample_query) [''/'', ''srv'', ''work'']"
    using sample_store_opened(2) by (simp add: sample_query_def)
  have rng: "sample_range \<in> set (completed_ranges ''main'' [(SeedCursor ''main'' rev_a, Done),
      (Admit ''main'' rev_b, Admission (Admitted sample_range)),
      (Complete record_ab, Completion (Completed sample_range (record_path sample_store ''main'' rev_b)))])"
    by (simp add: completed_ranges_def record_ab_def)
  from status_shows_every_completed_review [OF plain_codec_ok store root fresh_empty sample_history shown rng] shown
  show ?thesis by (auto simp: sample_range_def)
qed

end
