(* ===== verification/Enrollment.thy ===== *)
theory Enrollment
  imports Daemon_Client Delivery Observer
begin

text \<open>
  Repository enrollment: \<open>crates/pa-daemon/src/big_brother/init.rs\<close>. The steps run in the order of the
  code: resolve the work tree and its branch, connect, ensure the profile, seed the cursor, ensure the
  conductor, lay down the assets. Serializing a profile is the host's \<open>profile_to_json\<close>.
\<close>

definition DEFAULT_LAYERS :: "string list" where
  "DEFAULT_LAYERS = [''requirements'', ''project-fit'', ''implementation'']"

record init_options =
  init_socket_path :: path
  init_agent_dir :: path
  init_repo :: path
  init_branch :: "string option"
  init_session_name :: "string option"
  init_main_model :: "string option"
  init_layers :: "(string \<times> string) list"
  init_attempt_timeout_seconds :: "u32 option"
  init_max_attempts :: "u32 option"

record init_outcome =
  outcome_git_root :: path
  outcome_branch :: string
  outcome_cursor :: string
  outcome_session_name :: string
  outcome_created_conductor :: bool
  outcome_profile_path :: path
  outcome_assets_dir :: path

subsection \<open>The profile\<close>

text \<open>An assignment replaces the model of the first layer of that name or appends a layer.\<close>

fun assign_layer :: "string \<times> string \<Rightarrow> review_layer list \<Rightarrow> review_layer list" where
  "assign_layer (name, model) [] = [\<lparr>layer_name = name, layer_model_selector = model\<rparr>]"
| "assign_layer (name, model) (layer # rest) =
     (if layer_name layer = name then layer\<lparr>layer_model_selector := model\<rparr> # rest
      else layer # assign_layer (name, model) rest)"

definition build_profile :: "init_options \<Rightarrow> path \<Rightarrow> (review_profile, failure) result" where
  "build_profile options git_root = (case init_main_model options of
     None \<Rightarrow> Err (Failure (''no review profile exists for this repository and no --main-model was given; ''
       @ ''pass --main-model (or place a profile at '' @ path_string (profile_path (init_agent_dir options) git_root)
       @ '' first)''))
   | Some model \<Rightarrow> Ok
       \<lparr>profile_version = PROFILE_VERSION,
        session_name = (case init_session_name options of
          Some name \<Rightarrow> name | None \<Rightarrow> ''review-'' @ repository_name git_root),
        main_model = Some model,
        layers = fold assign_layer (init_layers options)
          (map (\<lambda>name. \<lparr>layer_name = name, layer_model_selector = model\<rparr>) DEFAULT_LAYERS),
        attempt_timeout_seconds = init_attempt_timeout_seconds options,
        max_attempts_opt = init_max_attempts options\<rparr>)"

definition loaded_profile ::
  "'b host \<Rightarrow> init_options \<Rightarrow> path \<Rightarrow> ('b, review_profile option) prog" where
  "loaded_profile host options git_root =
     map_error (ProfileFailure ''review profile: '') (store_read host (\<lambda>env disk.
       resolve_profile env (profile_from_json host) (has_git host) disk (init_agent_dir options) git_root))"

definition write_profile :: "'b host \<Rightarrow> path \<Rightarrow> review_profile \<Rightarrow> ('b, unit) prog" where
  "write_profile host p profile = (case path_parent p of
     None \<Rightarrow> throw (Failure (''profile path '' @ path_string p @ '' has no parent directory''))
   | Some parent \<Rightarrow>
       and_then (store_read host (\<lambda>env disk. map_err (\<lambda>_. Failure (''creating '' @ path_string parent))
         (fs_create_dir_all env parent))) (\<lambda>_.
       and_then (lift_result (map_err (\<lambda>_. Failure ''serializing the review profile'') (profile_to_json host profile))) (\<lambda>body.
       map_error (\<lambda>_. Failure (''writing '' @ path_string p)) (store_call host (\<lambda>env. fs_write env p body)))))"

definition ensure_profile ::
  "'b host \<Rightarrow> init_options \<Rightarrow> path \<Rightarrow> ('b, review_profile \<times> path) prog" where
  "ensure_profile host options git_root =
     (let p = profile_path (init_agent_dir options) git_root
      in and_then (loaded_profile host options git_root) (\<lambda>existing. case existing of
           Some loaded \<Rightarrow> return (loaded, p)
         | None \<Rightarrow>
             and_then (lift_result (build_profile options git_root)) (\<lambda>built.
             and_then (lift_result (map_err (ProfileFailure ''review profile: '') (validate built p))) (\<lambda>_.
             and_then (write_profile host p built) (\<lambda>_.
             and_then (loaded_profile host options git_root) (\<lambda>again. case again of
               Some profile \<Rightarrow> return (profile, p)
             | None \<Rightarrow> throw (Failure (''the profile written to '' @ path_string p @ '' does not resolve back''))))))))"

subsection \<open>The conductor\<close>

definition conductor_create_request :: "string \<Rightarrow> string option \<Rightarrow> path \<Rightarrow> json" where
  "conductor_create_request name model_opt git_root = Object
     ([(''type'', String ''create''), (''name'', String name),
       (''config'', Object [(''cwd'', String (path_string git_root)), (''bigBrotherReview'', Bool True)])]
      @ (case model_opt of None \<Rightarrow> []
         | Some selector \<Rightarrow> (case split_once ''/'' selector of
              Some (provider, model) \<Rightarrow> [(''provider'', String provider), (''model'', String model)]
            | None \<Rightarrow> [(''model'', String selector)])))"

definition ensure_conductor :: "'b host \<Rightarrow> review_profile \<Rightarrow> path \<Rightarrow> ('b, bool) prog" where
  "ensure_conductor host profile git_root =
     and_then (list_sessions_including_saved host) (\<lambda>sessions.
     case session_named (session_name profile) sessions of
       Some row \<Rightarrow>
         (let cwd = (case get_str row ''cwd'' of None \<Rightarrow> [] | Some s \<Rightarrow> s)
          in if path_of_string cwd \<noteq> git_root
             then throw (Failure (''a session named \"'' @ session_name profile
               @ ''\" already exists for a different directory ('' @ cwd @ ''); the observer wakes the conductor by name, ''
               @ ''so its reviews would reach that session. Enroll with --session-name, or remove the colliding session.''))
             else return False)
     | None \<Rightarrow>
         and_then (map_error (\<lambda>_. Failure ''creating the review conductor session'') (request host
           (conductor_create_request (session_name profile) (main_model profile) git_root))) (\<lambda>_. return True))"

subsection \<open>The assets\<close>

definition overview_body :: "string \<Rightarrow> string \<Rightarrow> review_profile \<Rightarrow> path \<Rightarrow> string" where
  "overview_body branch revision profile p =
     concat (map (\<lambda>line. line @ [CHR ''\<newline>''])
       [''# Big Brother overview'', [], ''This working tree is enrolled for Big Brother review.'', [],
        ''- Tracked branch: `'' @ branch @ ''`'',
        ''- Review baseline: `'' @ revision @ ''` (reviews start from the next change)'',
        ''- Conductor session: `'' @ session_name profile @ ''` (woken by name per review range)'',
        ''- Review profile: `'' @ path_string p @ ''` (operator side, outside this work tree)'', [],
        ''Query review progress with `big-brother status`.''])"

definition write_minimal_assets ::
  "'b host \<Rightarrow> path \<Rightarrow> string \<Rightarrow> string \<Rightarrow> review_profile \<Rightarrow> path \<Rightarrow> ('b, path) prog" where
  "write_minimal_assets host git_root branch revision profile p =
     (let assets_dir = path_join git_root ''.big-brother'';
          overview = path_join assets_dir ''overview.md''
      in and_then (store_read host (\<lambda>env disk. Ok (fs_exists env disk overview))) (\<lambda>present.
         if present then return assets_dir
         else
         and_then (store_read host (\<lambda>env disk. map_err (\<lambda>_. Failure (''creating '' @ path_string assets_dir))
           (fs_create_dir_all env assets_dir))) (\<lambda>_.
         and_then (map_error (\<lambda>_. Failure (''writing '' @ path_string overview))
           (store_call host (\<lambda>env. fs_write env overview (text_file host (overview_body branch revision profile p))))) (\<lambda>_.
         return assets_dir))))"

subsection \<open>Enrollment\<close>

text \<open>\<open>default_branch\<close> or else \<open>current_branch\<close>; the second is asked whatever the first answered.\<close>

definition tracked_branch :: "'b host \<Rightarrow> init_options \<Rightarrow> path \<Rightarrow> ('b, string) prog" where
  "tracked_branch host options git_root = (case init_branch options of
     Some branch \<Rightarrow> return branch
   | None \<Rightarrow>
       and_then (map_error Failure (default_branch host git_root)) (\<lambda>default.
       and_then (map_error Failure (current_branch host git_root)) (\<lambda>current.
       case (case default of Some b \<Rightarrow> Some b | None \<Rightarrow> current) of
         Some branch \<Rightarrow> return branch
       | None \<Rightarrow> throw (Failure (''the work tree at '' @ path_string git_root
           @ '' has no default, main, or master branch; pass --branch to name the tracked branch'')))))"

definition enroll ::
  "'b host \<Rightarrow> init_options \<Rightarrow> path \<Rightarrow> string \<Rightarrow> string \<Rightarrow> ('b, init_outcome) prog" where
  "enroll host options git_root branch head =
     and_then (ensure_profile host options git_root) (\<lambda>(profile, p).
     and_then (map_error (StateFailure ''seeding the review cursor: '') (store_call host (\<lambda>env.
       seed_cursor env (host_codec host) (open_store (init_agent_dir options) git_root) branch head))) (\<lambda>_.
     and_then (ensure_conductor host profile git_root) (\<lambda>created_conductor.
     and_then (write_minimal_assets host git_root branch head profile p) (\<lambda>assets_dir.
     return \<lparr>outcome_git_root = git_root, outcome_branch = branch, outcome_cursor = head,
       outcome_session_name = session_name profile, outcome_created_conductor = created_conductor,
       outcome_profile_path = p, outcome_assets_dir = assets_dir\<rparr>))))"

definition run_init :: "'b host \<Rightarrow> init_options \<Rightarrow> ('b, init_outcome) prog" where
  "run_init host options = (case find_git_repo_root (has_git host) (init_repo options) of
     None \<Rightarrow> throw (Failure (path_string (init_repo options)
       @ '' is not inside a git repository; run big-brother init in the repository's persistent work tree''))
   | Some git_root \<Rightarrow>
       and_then (tracked_branch host options git_root) (\<lambda>branch.
       and_then (map_error (\<lambda>_. Failure (''reading the tracked branch '' @ branch)) (branch_head host git_root branch)) (\<lambda>head.
       and_then (map_error (\<lambda>_. Failure (''connecting to the daemon at '' @ path_string (init_socket_path options)
         @ ''; is the supervisor running?'')) (connect host (init_socket_path options))) (\<lambda>_.
       enroll host options git_root branch head))))"

subsection \<open>The layers of a fresh profile\<close>

lemma assign_layer_names:
  "map layer_name (assign_layer (name, model) ls) =
     (if name \<in> layer_name ` set ls then map layer_name ls else map layer_name ls @ [name])"
  by (induction ls) auto

lemma assign_layer_find:
  "map_option layer_model_selector (find (\<lambda>l. layer_name l = x) (assign_layer (name, model) ls)) =
     (if x = name then Some model else map_option layer_model_selector (find (\<lambda>l. layer_name l = x) ls))"
  by (induction ls) auto

lemma assign_layers_distinct:
  "distinct (map layer_name ls) \<Longrightarrow> distinct (map layer_name (fold assign_layer as ls))"
proof (induction as arbitrary: ls)
  case (Cons a as)
  obtain name model where a: "a = (name, model)" by (cases a)
  have "distinct (map layer_name (assign_layer a ls))"
    using Cons.prems unfolding a assign_layer_names by (auto simp del: set_map simp: image_set)
  from Cons.IH [OF this] show ?case by simp
qed simp

lemma assign_layers_find:
  "map_option layer_model_selector (find (\<lambda>l. layer_name l = x) (fold assign_layer as ls)) =
     (case map_of (rev as) x of Some model \<Rightarrow> Some model
      | None \<Rightarrow> map_option layer_model_selector (find (\<lambda>l. layer_name l = x) ls))"
proof (induction as arbitrary: ls)
  case (Cons a as)
  obtain name model where a: "a = (name, model)" by (cases a)
  show ?case using Cons.IH [of "assign_layer a ls"] by (auto simp: a assign_layer_find map_add_def split: option.split)
qed simp

text \<open>
  A fresh profile assigns models as asked: a layer has the model of its last assignment on the
  command line, a canonical layer without one has the main model, no other layer exists, and no name
  occurs twice.
\<close>

theorem fresh_profile_assigns_models:
  assumes "build_profile options git_root = Ok profile"
  shows "\<exists>model. init_main_model options = Some model \<and> main_model profile = Some model
    \<and> distinct (map layer_name (layers profile))
    \<and> (\<forall>name. layer_model profile name = (case map_of (rev (init_layers options)) name of
         Some assigned \<Rightarrow> Some assigned
       | None \<Rightarrow> if name \<in> set DEFAULT_LAYERS then Some model else None))"
proof -
  obtain model where model: "init_main_model options = Some model" and main: "main_model profile = Some model"
    and layers: "layers profile = fold assign_layer (init_layers options)
      (map (\<lambda>name. \<lparr>layer_name = name, layer_model_selector = model\<rparr>) DEFAULT_LAYERS)"
    using assms by (auto simp: build_profile_def split: option.splits)
  have "distinct (map layer_name (layers profile))"
    unfolding layers by (rule assign_layers_distinct) (simp add: DEFAULT_LAYERS_def)
  moreover have "map_option layer_model_selector (find (\<lambda>l. layer_name l = name)
      (map (\<lambda>name. \<lparr>layer_name = name, layer_model_selector = model\<rparr>) DEFAULT_LAYERS))
    = (if name \<in> set DEFAULT_LAYERS then Some model else None)" for name
    by (auto simp: DEFAULT_LAYERS_def)
  ultimately show ?thesis using model main by (auto simp: layer_model_def layers assign_layers_find split: option.split)
qed

definition sample_init :: init_options where
  "sample_init = \<lparr>init_socket_path = [''/'', ''run'', ''d.sock''], init_agent_dir = [''/'', ''agent''],
     init_repo = [''/'', ''srv'', ''work''], init_branch = Some ''main'', init_session_name = None,
     init_main_model = Some ''p/main'', init_layers = [(''project-fit'', ''p/a''), (''extra'', ''p/x''), (''project-fit'', ''p/b'')],
     init_attempt_timeout_seconds = None, init_max_attempts = None\<rparr>"

theorem fresh_profile_assigns_models_witness:
  "\<exists>profile. build_profile sample_init [''/'', ''srv'', ''work''] = Ok profile
     \<and> layer_model profile ''project-fit'' = Some ''p/b'' \<and> layer_model profile ''requirements'' = Some ''p/main''"
proof -
  obtain profile where p: "build_profile sample_init [''/'', ''srv'', ''work''] = Ok profile"
    by (simp add: build_profile_def sample_init_def)
  from fresh_profile_assigns_models [OF p] obtain model where "init_main_model sample_init = Some model"
    and m: "\<And>name. layer_model profile name = (case map_of (rev (init_layers sample_init)) name of
         Some assigned \<Rightarrow> Some assigned | None \<Rightarrow> if name \<in> set DEFAULT_LAYERS then Some model else None)"
    by blast
  then have "model = ''p/main''" by (simp add: sample_init_def)
  then show ?thesis using p m [of "''project-fit''"] m [of "''requirements''"]
    by (simp add: sample_init_def DEFAULT_LAYERS_def)
qed

subsection \<open>Nothing is written before the daemon answers\<close>

definition untouched :: "'b world \<Rightarrow> 'b world \<Rightarrow> bool" where
  "untouched w w' \<longleftrightarrow> world_disk w' = world_disk w \<and> wire_log w' = wire_log w \<and> http_log w' = http_log w"

interpretation untouched: effect_preorder untouched
  by unfold_locales (auto simp: untouched_def)

interpretation same_disk: effect_preorder "\<lambda>w w' :: 'b world. world_disk w' = world_disk w"
  by unfold_locales auto

lemma option_within: "within R a \<Longrightarrow> (\<And>x. within R (b x)) \<Longrightarrow> within R (case v of None \<Rightarrow> a | Some x \<Rightarrow> b x)"
  by (cases v) auto

lemma git_untouched [simp]: "within untouched (git host git_root args)"
  by (simp add: within_def untouched_def git_def)

lemma first_local_branch_untouched [simp]: "within untouched (first_local_branch host git_root names)"
  by (induction names) (auto intro!: untouched.within_and_then)

lemma branches_untouched [simp]:
  "within untouched (default_branch host git_root)" "within untouched (current_branch host git_root)"
  "within untouched (branch_head host git_root branch)"
  unfolding default_branch_def current_branch_def branch_head_def Let_def
  by (auto intro!: untouched.within_and_then)

lemma tracked_branch_untouched [simp]: "within untouched (tracked_branch host options git_root)"
  unfolding tracked_branch_def by (auto intro!: untouched.within_and_then split: option.split)

lemma connect_fields: "untouched w (snd (connect host socket w))"
  by (simp add: connect_def untouched_def split: option.split result.split)

text \<open>
  C26. Enrollment writes nothing before the daemon answered: if the connection cannot be made, enrollment
  fails with every file, the daemon and the network as they were.
\<close>

theorem unreachable_daemon_writes_nothing:
  assumes down: "\<And>w. \<not> is_ok (fst (connect host (init_socket_path options) w))"
    and run: "run_init host options w = (r, w')"
  shows "\<not> is_ok r \<and> world_disk w' = world_disk w \<and> wire_log w' = wire_log w \<and> http_log w' = http_log w"
proof -
  have fails: "\<exists>e. and_then (map_error g (connect host (init_socket_path options))) f v
      = (Err e, snd (connect host (init_socket_path options) v))"
    for v g and f :: "unit \<Rightarrow> ('a, init_outcome) prog"
    using down [of v] by (cases "connect host (init_socket_path options) v"; cases "fst (connect host (init_socket_path options) v)")
      (auto simp: and_then_def map_error_def)
  have stops: "within untouched m \<and> (\<forall>v. \<not> is_ok (fst (m v)))"
    if "m = and_then (map_error g (connect host (init_socket_path options))) f"
    for m g and f :: "unit \<Rightarrow> ('a, init_outcome) prog"
    using fails [of g f] connect_fields that unfolding within_def by (metis fst_conv snd_conv is_ok.simps(2))
  have err: "\<not> is_ok (fst (and_then m f v))" if "\<And>x v. \<not> is_ok (fst (f x v))"
    for m :: "('a, string) prog" and f :: "string \<Rightarrow> ('a, init_outcome) prog" and v
    using that by (cases "m v"; cases "fst (m v)") (auto simp: and_then_def)
  have "within untouched (run_init host options)" "\<not> is_ok (fst (run_init host options v))" for v
  proof -
    show "within untouched (run_init host options)"
      unfolding run_init_def
      by (intro option_within untouched.within_throw untouched.within_and_then conjunct1 [OF stops [OF refl]]) simp_all
    show "\<not> is_ok (fst (run_init host options v))"
      unfolding run_init_def using stops [OF refl] by (auto intro!: err simp: throw_def split: option.split)
  qed
  then show ?thesis using run by (metis fst_conv untouched_def withinD)
qed

theorem unreachable_daemon_writes_nothing_witness:
  "\<exists>w' e. run_init (unit_host\<lparr>connect_error := (\<lambda>_. Some ''refused'')\<rparr>) sample_init (start_world []) = (Err e, w')
     \<and> world_disk w' = []"
proof -
  let ?host = "unit_host\<lparr>connect_error := (\<lambda>_. Some ''refused'')\<rparr>"
  obtain r w' where run: "run_init ?host sample_init (start_world []) = (r, w')" by fastforce
  have "\<not> is_ok (fst (connect ?host (init_socket_path sample_init) w))" for w by (simp add: connect_def)
  from unreachable_daemon_writes_nothing [OF this run] run show ?thesis by (cases r) (auto simp: start_world_def)
qed

subsection \<open>What a successful enrollment established\<close>

lemma seed_Ok:
  assumes run: "seed_cursor env codec store branch revision disk = (Ok u, disk')" and codec: "codec_ok codec"
  obtains state bs where "stored_state codec store disk' = Some state" "bt_get (branches state) branch = Some bs"
    "cursor bs = Some revision" "in_flight bs = None"
proof -
  have "transact env codec store (decide_seed branch revision (now_iso env)) disk = (Ok u, disk')"
    using run by (auto simp: seed_cursor_def validate_revision_cases split: if_splits)
  from this codec show thesis
  proof (cases rule: transact_cases)
    case (kept state x)
    then show thesis
      by (intro that [of state "branch_entry state branch"])
        (auto simp: decide_seed_def Let_def branch_entry_def default_branch_state_def split: option.splits if_splits)
  next
    case (updated state state' x)
    then show thesis
      by (intro that [of "rooted store state'" "branch_entry state' branch"])
        (auto simp: decide_seed_def Let_def split: option.splits if_splits, simp_all add: put_branch_def branch_entry_def bt_simps)
  qed simp
qed

lemma loaded_profile_wf:
  "loaded_profile host options git_root w = (Ok (Some profile), w') \<Longrightarrow> profile_wf profile"
  by (auto simp: loaded_profile_def map_error_def store_read_def resolve_profile_def load_profile_at_def validate_Ok_iff
      split: option.splits result.splits if_splits io_error.splits)

lemma ensure_profile_wf:
  assumes "ensure_profile host options git_root w = (Ok (profile, p), w')"
  shows "profile_wf profile" "p = profile_path (init_agent_dir options) git_root"
proof -
  obtain v where "loaded_profile host options git_root v = (Ok (Some profile), w')"
    and "p = profile_path (init_agent_dir options) git_root"
    using assms by (auto simp: ensure_profile_def Let_def elim!: and_then_cases split: option.splits)
  then show "profile_wf profile" "p = profile_path (init_agent_dir options) git_root"
    by (simp_all add: loaded_profile_wf)
qed

lemma assets_disk:
  assumes "write_minimal_assets host git_root branch revision profile p w = (r, w')" "q \<noteq> overview"
    and "overview = path_join (path_join git_root ''.big-brother'') ''overview.md''"
  shows "bt_get (world_disk w') q = bt_get (world_disk w) q"
proof -
  have "bt_get (world_disk (snd (map_error g (store_call host (\<lambda>env. fs_write env overview b)) v))) q = bt_get (world_disk v) q"
    for g :: "io_error \<Rightarrow> failure" and b v
    using fs_write_get_other [OF assms(2)] by (simp add: map_error_def store_call_def case_prod_unfold)
  then show ?thesis
    using assms(1) unfolding write_minimal_assets_def assms(3) Let_def
    by (auto elim!: and_then_cases dest!: store_read_eq split: if_splits) (metis snd_conv)+
qed

lemma ensure_conductor_disk:
  assumes "ensure_conductor host profile git_root w = (r, w')"
  shows "world_disk w' = world_disk w"
proof -
  have "within (\<lambda>v v'. world_disk v' = world_disk v) (request host command)" for command
    by (simp add: within_def)
  then have "within (\<lambda>v v'. world_disk v' = world_disk v) (ensure_conductor host profile git_root)"
    unfolding ensure_conductor_def list_sessions_including_saved_def Let_def
    by (auto intro!: same_disk.within_and_then split: option.split)
  then show ?thesis using assms by (rule withinD)
qed



text \<open>A daemon that accepts every request, and a work tree whose profile is already in place.\<close>

definition enroll_host :: "stored_file host" where
  "enroll_host = (bare_host plain_codec (\<lambda>_. StateFile default_repository_state))
     \<lparr>profile_from_json := (\<lambda>_. Ok sample_profile),
      git_run := (\<lambda>_ _ _. GitOutput rev_a),
      wire_connect := (\<lambda>_. [WireLine ''hello'']),
      wire_events := (\<lambda>_ msg. [WireLine (case get_str msg ''id'' of None \<Rightarrow> [] | Some ident \<Rightarrow> ident)]),
      parse_json := (\<lambda>line. Some (Object [(''id'', String line), (''success'', Bool True)]))\<rparr>"

definition enroll_world :: "stored_file world" where
  "enroll_world = start_world [(profile_path [''/'', ''agent''] [''/'', ''srv'', ''work''], StateFile default_repository_state)]"

lemma enroll_host_fields [simp]: "host_codec enroll_host = plain_codec" "env_now enroll_host w = quiet_env"
  "profile_from_json enroll_host b = Ok sample_profile" "has_git enroll_host = (\<lambda>_. True)"
  "connect_error enroll_host s = None" "wire_connect enroll_host s = [WireLine ''hello'']"
  "git_run enroll_host l g a = GitOutput rev_a"
  by (simp_all add: enroll_host_def bare_host_def env_now_def)

lemma enroll_request:
  obtains v x where "request enroll_host command w = (Ok (Object [(''id'', x), (''success'', Bool True)]), v)" "world_disk v = world_disk w"
  by (rule that [of _ "snd (request enroll_host command w)"])
    (simp_all add: request_def Let_def enroll_host_def bare_host_def envelope_def get_str_def trim_request_id)

lemma enroll_conductor:
  obtains v where "ensure_conductor enroll_host profile git_root w = (Ok True, v)" "world_disk v = world_disk w"
proof -
  obtain v1 x where v1: "request enroll_host (Object [(''type'', String ''list''), (''all'', Bool True)]) w
      = (Ok (Object [(''id'', x), (''success'', Bool True)]), v1)" "world_disk v1 = world_disk w"
    using enroll_request .
  obtain v2 y where v2: "request enroll_host (conductor_create_request (session_name profile) (main_model profile) git_root) v1
      = (Ok (Object [(''id'', y), (''success'', Bool True)]), v2)" "world_disk v2 = world_disk v1"
    using enroll_request .
  show thesis
    by (rule that [of v2])
      (use v1 v2 in \<open>simp_all add: ensure_conductor_def list_sessions_including_saved_def and_then_def map_error_def return_def
        roster_def json_index_def session_named_def\<close>)
qed

lemma enroll_profile:
  assumes "world_disk w = world_disk enroll_world"
  shows "ensure_profile enroll_host sample_init [''/'', ''srv'', ''work''] w
    = (Ok (sample_profile, profile_path [''/'', ''agent''] [''/'', ''srv'', ''work'']), w\<lparr>world_tick := Suc (world_tick w)\<rparr>)"
proof -
  have "validate sample_profile p = Ok ()" for p using sample_profile_wf by (simp add: validate_Ok_iff)
  then show ?thesis
    using assms
    by (simp add: ensure_profile_def loaded_profile_def map_error_def store_read_def resolve_profile_def Let_def and_then_def
        find_git_repo_root.simps load_profile_at_def fs_read_def quiet_env_def sample_init_def enroll_world_def start_world_def return_def)
qed

lemma enroll_seed:
  assumes "world_disk w = world_disk enroll_world"
  obtains d where "seed_cursor (quiet_env :: stored_file env) plain_codec (open_store [''/'', ''agent''] [''/'', ''srv'', ''work''])
    ''main'' rev_a (world_disk w) = (Ok (), d)"
proof -
  let ?store = "open_store [''/'', ''agent''] [''/'', ''srv'', ''work'']"
  have "state_path ?store \<noteq> profile_path [''/'', ''agent''] [''/'', ''srv'', ''work'']"
    unfolding state_path_eq by (simp add: open_store_def profile_path_def)
  then have "stored_state plain_codec ?store (world_disk w) = Some default_repository_state"
    by (simp add: assms stored_state_def enroll_world_def start_world_def)
  then show thesis
    by (rule seed_quiet [OF quiet_env_quiet plain_codec_total plain_codec_ok revisions_ok(1) _ default_state_wf])
      (use that in \<open>auto simp: phase_at_def branch_entry_def default_repository_state_def default_branch_state_def phase_of_def\<close>)
qed

lemma enroll_assets:
  "is_ok (fst (write_minimal_assets enroll_host git_root branch revision profile p w))"
  by (simp add: write_minimal_assets_def Let_def and_then_def store_read_def store_call_def map_error_def return_def
      fs_create_dir_all_def fs_write_def quiet_env_def)

lemma trim_rev_a: "trim rev_a = rev_a"
  by (rule trim_solid) (simp add: rev_a_def list_all_iff is_utf8_continuation_def is_whitespace_def)

lemma sample_init_fields: "init_branch sample_init = Some ''main''" "init_repo sample_init = [''/'', ''srv'', ''work'']"
  "init_agent_dir sample_init = [''/'', ''agent'']"
  by (simp_all add: sample_init_def)

lemma enroll_connect: "connect enroll_host s w = (Ok (), w\<lparr>client := Some 0\<rparr>)"
  by (simp add: connect_def) (simp add: enroll_host_def bare_host_def)

lemma enroll_runs:
  obtains outcome w' where "run_init enroll_host sample_init enroll_world = (Ok outcome, w')" "outcome_cursor outcome = rev_a"
proof -
  let ?root = "[''/'', ''srv'', ''work'']"
  define w1 where "w1 = enroll_world\<lparr>git_log := git_log enroll_world @ [(?root, [''rev-parse'', ''main''])], client := Some 0\<rparr>"
  have disk1: "world_disk w1 = world_disk enroll_world" by (simp add: w1_def)
  define w2 where "w2 = w1\<lparr>world_tick := Suc (world_tick w1)\<rparr>"
  have prof: "ensure_profile enroll_host sample_init ?root w1 = (Ok (sample_profile, profile_path [''/'', ''agent''] ?root), w2)"
    using enroll_profile [OF disk1] by (simp add: w2_def)
  obtain d where seed: "seed_cursor (quiet_env :: stored_file env) plain_codec (open_store [''/'', ''agent''] ?root) ''main'' rev_a (world_disk w2) = (Ok (), d)"
    using enroll_seed [of w2] disk1 by (auto simp: w2_def)
  define w3 where "w3 = w2\<lparr>world_disk := d, world_tick := Suc (world_tick w2)\<rparr>"
  obtain w4 where conductor: "ensure_conductor enroll_host sample_profile ?root w3 = (Ok True, w4)"
    using enroll_conductor by blast
  obtain assets w5 where written: "write_minimal_assets enroll_host ?root ''main'' rev_a sample_profile (profile_path [''/'', ''agent''] ?root) w4 = (Ok assets, w5)"
    using enroll_assets by (metis is_ok_iff prod.collapse)
  have "enroll enroll_host sample_init ?root ''main'' rev_a w1 = (Ok \<lparr>outcome_git_root = ?root, outcome_branch = ''main'',
      outcome_cursor = rev_a, outcome_session_name = session_name sample_profile, outcome_created_conductor = True,
      outcome_profile_path = profile_path [''/'', ''agent''] ?root, outcome_assets_dir = assets\<rparr>, w5)"
    using prof seed conductor written
    by (simp add: enroll_def and_then_def map_error_def store_call_def return_def w3_def sample_init_fields)
  then have "run_init enroll_host sample_init enroll_world = (Ok \<lparr>outcome_git_root = ?root, outcome_branch = ''main'',
      outcome_cursor = rev_a, outcome_session_name = session_name sample_profile, outcome_created_conductor = True,
      outcome_profile_path = profile_path [''/'', ''agent''] ?root, outcome_assets_dir = assets\<rparr>, w5)"
    by (simp add: run_init_def tracked_branch_def branch_head_def git_def git_result_def Let_def trim_rev_a enroll_connect
        and_then_def map_error_def return_def find_git_repo_root.simps sample_init_fields w1_def)
  then show thesis using that by simp
qed


end
