(* ===== verification/Dispatch.thy ===== *)
theory Dispatch
  imports Observer
begin

text \<open>
  The conductor's side: the \<open>dispatch_review\<close> tool of \<open>crates/pa-daemon/src/big_brother/dispatch.rs\<close> and
  the system prompt of \<open>prompt.rs\<close>. The supervisor's child sessions answer through \<open>child_host\<close>; every
  spawn and every retirement of a name is logged.
\<close>

record spawn_request =
  spawn_prompt :: string
  spawn_name :: "string option"
  spawn_model :: "string option"
  spawn_thinking :: "string option"
  spawned_by_request_id :: "string option"
  cell_source_code :: "string option"

record child_host =
  spawn_answer :: "spawn_request list \<Rightarrow> spawn_request \<Rightarrow> (string, string) result"
  retire_answer :: "string list \<Rightarrow> string \<Rightarrow> (string, string) result"
  show_verdict :: "(string, string) result \<Rightarrow> string"

record child_log =
  spawn_log :: "spawn_request list"
  retire_log :: "string list"

definition spawn :: "child_host \<Rightarrow> spawn_request \<Rightarrow> (child_log, string, string) action" where
  "spawn children req log = (spawn_answer children (spawn_log log) req, log\<lparr>spawn_log := spawn_log log @ [req]\<rparr>)"

text \<open>\<open>retire_dead_child_name\<close>, whose verdict, an error too, is a value for the caller.\<close>

definition retire :: "child_host \<Rightarrow> string \<Rightarrow> (child_log, (string, string) result, string) action" where
  "retire children name log = (Ok (retire_answer children (retire_log log) name), log\<lparr>retire_log := retire_log log @ [name]\<rparr>)"

definition dispatch_parameters :: "review_profile \<Rightarrow> json" where
  "dispatch_parameters profile = Object
     [(''type'', String ''object''),
      (''properties'', Object
        [(''layer'', Object [(''type'', String ''string''), (''enum'', Array (map (String \<circ> layer_name) (layers profile)))]),
         (''baseSha'', Object [(''type'', String ''string'')]), (''headSha'', Object [(''type'', String ''string'')])]),
      (''required'', Array [String ''layer'', String ''baseSha'', String ''headSha''])]"

definition tool_field :: "json \<Rightarrow> string \<Rightarrow> (string, string) result" where
  "tool_field params key = (case get_str params key of Some v \<Rightarrow> Ok v | None \<Rightarrow> Err (''missing '' @ key))"

definition review_spawn :: "string \<Rightarrow> string \<Rightarrow> string \<Rightarrow> string \<Rightarrow> spawn_request" where
  "review_spawn layer base head model =
     \<lparr>spawn_prompt = ''Review '' @ layer @ '' for '' @ base @ ''..'' @ head, spawn_name = Some (child_name layer head),
      spawn_model = Some model, spawn_thinking = None, spawned_by_request_id = None, cell_source_code = None\<rparr>"

text \<open>The spawn, and the second one after the dead record of a cancelled attempt was retired.\<close>

definition spawn_reviewer ::
  "child_host \<Rightarrow> spawn_request \<Rightarrow> string \<Rightarrow> (child_log, string, string) action" where
  "spawn_reviewer children req name log = (case spawn children req log of
     (Ok handle, log') \<Rightarrow> (Ok handle, log')
   | (Err first, log') \<Rightarrow>
       and_then (retire children name) (\<lambda>verdict.
       if verdict = Ok ''deleted''
       then map_error (\<lambda>_. ''re-spawning reviewer '' @ name @ '' after retiring its dead record (first spawn: '' @ first @ '')'')
         (spawn children req)
       else throw (''spawning the review child (name retire verdict '' @ show_verdict children verdict @ ''): '' @ first)) log')"

definition dispatch_review ::
  "child_host \<Rightarrow> review_profile \<Rightarrow> json \<Rightarrow> (child_log, string, string) action" where
  "dispatch_review children profile params =
     and_then (lift_result (tool_field params ''layer'')) (\<lambda>layer.
     and_then (lift_result (tool_field params ''baseSha'')) (\<lambda>base.
     and_then (lift_result (tool_field params ''headSha'')) (\<lambda>head.
     case layer_model profile layer of
       None \<Rightarrow> throw (''unknown review layer \"'' @ layer @ ''\"; configured layers: ''
         @ join_str '', '' (map layer_name (layers profile)))
     | Some model \<Rightarrow>
         and_then (spawn_reviewer children (review_spawn layer base head model) (child_name layer head)) (\<lambda>handle.
         return (''layer '' @ layer @ '' reviewer spawned as child '' @ handle @ '' for '' @ base @ ''..'' @ head)))))"

definition conductor_system_prompt :: "review_profile \<Rightarrow> string" where
  "conductor_system_prompt profile =
     (let names = join_str '', '' (map layer_name (layers profile));
          gap = [CHR ''\<newline>'', CHR ''\<newline>'']
      in ''You are Big Brother's review conductor for this repository.'' @ gap
       @ ''The background observer sends exactly one message per admitted review range, shaped ''
       @ ''\"REVIEW_RANGE <baseSha>..<headSha> END\".'' @ gap
       @ ''Dispatch the range: for each configured review layer ('' @ names @ ''), call dispatch_review exactly once ''
       @ ''with the range's baseSha and headSha. The reviewers run after your turn settles; each one's reply arrives ''
       @ ''as a child message on a later turn.'' @ gap
       @ ''Once every layer has replied, write the range's synthesis: summarize each layer's findings, keep hard ''
       @ ''violations separate from advisory observations, and state one overall conclusion for the range.'' @ gap
       @ ''Output contract for the synthesis message: the FIRST line must be exactly \"REVIEW_SYNTHESIS\" and nothing else ''
       @ em_dash @ '' no preamble, no narration before it. The synthesis itself follows from the next line on. ''
       @ ''Everything before that marker line is discarded, so a synthesis without the marker is lost.'' @ gap
       @ ''A layer whose reviewer errored or never replied is an unfinished assessment, never a clean pass.'' @ gap
       @ ''This session reviews: it does not modify files, commits, or branches.'')"

subsection \<open>What a dispatch spawns\<close>

lemma spawn_reviewer_log:
  assumes "spawn_reviewer children req name log = (r, log')"
  shows "(spawn_log log' = spawn_log log @ [req] \<or>
      spawn_log log' = spawn_log log @ [req, req] \<and> retire_log log' = retire_log log @ [name]
        \<and> retire_answer children (retire_log log) name = Ok ''deleted'')
    \<and> (is_ok r \<longrightarrow> retire_log log' = retire_log log \<or> spawn_log log' = spawn_log log @ [req, req])"
  using assms
  by (auto simp: spawn_reviewer_def spawn_def retire_def and_then_def map_error_def throw_def
      split: prod.splits result.splits if_splits)



end
