(* ===== verification/Cli.thy ===== *)
theory Cli
  imports Enrollment Query
begin

text \<open>
  The \<open>big-brother\<close> command: \<open>crates/pa-cli/src/bin/big_brother.rs\<close>. Parsing turns the arguments into
  options, defaults come from the process environment (\<open>cli_env\<close>), and the commands run enrollment or
  the status query.
\<close>

record cli_env =
  default_socket :: path
  default_agent_dir :: "(path, string) result"
  current_dir :: "(path, string) result"
  shipped_version :: string

datatype cli_exit = ExitUsage | Printed string | CommandFailed failure

record init_args =
  arg_repo :: "path option"
  arg_agent_dir :: "path option"
  arg_socket :: "path option"
  arg_branch :: "string option"
  arg_session_name :: "string option"
  arg_main_model :: "string option"
  arg_layers :: "(string \<times> string) list"
  arg_attempt_timeout_seconds :: "u32 option"
  arg_max_attempts :: "u32 option"

definition no_init_args :: init_args where
  "no_init_args = \<lparr>arg_repo = None, arg_agent_dir = None, arg_socket = None, arg_branch = None, arg_session_name = None,
     arg_main_model = None, arg_layers = [], arg_attempt_timeout_seconds = None, arg_max_attempts = None\<rparr>"

definition next_u32 :: "string \<Rightarrow> string \<Rightarrow> (u32, failure) result" where
  "next_u32 flag value = (case parse_u32 value of
     Some n \<Rightarrow> Ok (of_nat n)
   | None \<Rightarrow> Err (Failure (flag @ '' expects a positive integer, got '' @ value)))"

definition init_flags :: "string list" where
  "init_flags = [''--repo'', ''--agent-dir'', ''--socket'', ''--branch'', ''--session-name'', ''--main-model'',
     ''--attempt-timeout-secs'', ''--max-attempts'', ''--layer'']"

definition set_init_arg :: "string \<Rightarrow> string \<Rightarrow> init_args \<Rightarrow> (init_args, failure) result" where
  "set_init_arg flag value a =
     (if flag = ''--repo'' then Ok (a\<lparr>arg_repo := Some (path_of_string value)\<rparr>)
      else if flag = ''--agent-dir'' then Ok (a\<lparr>arg_agent_dir := Some (path_of_string value)\<rparr>)
      else if flag = ''--socket'' then Ok (a\<lparr>arg_socket := Some (path_of_string value)\<rparr>)
      else if flag = ''--branch'' then Ok (a\<lparr>arg_branch := Some value\<rparr>)
      else if flag = ''--session-name'' then Ok (a\<lparr>arg_session_name := Some value\<rparr>)
      else if flag = ''--main-model'' then Ok (a\<lparr>arg_main_model := Some value\<rparr>)
      else if flag = ''--attempt-timeout-secs''
        then try_bind (next_u32 flag value) (\<lambda>n. Ok (a\<lparr>arg_attempt_timeout_seconds := Some n\<rparr>))
      else if flag = ''--max-attempts'' then try_bind (next_u32 flag value) (\<lambda>n. Ok (a\<lparr>arg_max_attempts := Some n\<rparr>))
      else (case split_once ''='' value of
         Some (name, model) \<Rightarrow> Ok (a\<lparr>arg_layers := arg_layers a @ [(name, model)]\<rparr>)
       | None \<Rightarrow> Err (Failure (''--layer expects name=model, got '' @ value))))"

fun parse_init_args :: "string list \<Rightarrow> init_args \<Rightarrow> (init_args, failure) result" where
  "parse_init_args [] a = Ok a"
| "parse_init_args [flag] a =
     Err (Failure (if flag \<in> set init_flags then flag @ '' needs a value'' else ''unknown init option: '' @ flag))"
| "parse_init_args (flag # value # rest) a =
     (if flag \<in> set init_flags then try_bind (set_init_arg flag value a) (parse_init_args rest)
      else Err (Failure (''unknown init option: '' @ flag)))"

definition or_default :: "'a option \<Rightarrow> ('a, string) result \<Rightarrow> ('a, failure) result" where
  "or_default v fallback = (case v of Some x \<Rightarrow> Ok x | None \<Rightarrow> map_err Failure fallback)"

definition init_options_of :: "cli_env \<Rightarrow> init_args \<Rightarrow> (init_options, failure) result" where
  "init_options_of cli a =
     try_bind (or_default (arg_agent_dir a) (default_agent_dir cli)) (\<lambda>agent.
     try_bind (or_default (arg_repo a) (map_err (\<lambda>_. ''reading the current directory'') (current_dir cli))) (\<lambda>repo.
     Ok \<lparr>init_socket_path = (case arg_socket a of Some s \<Rightarrow> s | None \<Rightarrow> default_socket cli), init_agent_dir = agent,
         init_repo = repo, init_branch = arg_branch a, init_session_name = arg_session_name a,
         init_main_model = arg_main_model a, init_layers = arg_layers a,
         init_attempt_timeout_seconds = arg_attempt_timeout_seconds a, init_max_attempts = arg_max_attempts a\<rparr>))"

definition init_report :: "init_outcome \<Rightarrow> string" where
  "init_report outcome =
     writeln (''enrolled '' @ path_string (outcome_git_root outcome) @ '' (branch '' @ outcome_branch outcome @ '')'')
     @ writeln (''  profile:    '' @ path_string (outcome_profile_path outcome))
     @ writeln (''  baseline:   '' @ outcome_cursor outcome)
     @ writeln (''  conductor:  '' @ outcome_session_name outcome
         @ (if outcome_created_conductor outcome then '' (created)'' else '' (already present)''))
     @ writeln (''  assets:     '' @ path_string (outcome_assets_dir outcome))"

definition init_command :: "'b host \<Rightarrow> cli_env \<Rightarrow> string list \<Rightarrow> ('b, string) prog" where
  "init_command host cli args =
     and_then (lift_result (try_bind (parse_init_args args no_init_args) (init_options_of cli))) (\<lambda>options.
     and_then (run_init host options) (\<lambda>outcome. return (init_report outcome)))"

fun parse_status_args ::
  "string list \<Rightarrow> path option \<times> path option \<Rightarrow> (path option \<times> path option, failure) result" where
  "parse_status_args [] a = Ok a"
| "parse_status_args [flag] a =
     Err (Failure (if flag \<in> {''--repo'', ''--agent-dir''} then flag @ '' needs a value'' else ''unknown status option: '' @ flag))"
| "parse_status_args (flag # value # rest) (repo, agent) =
     (if flag = ''--repo'' then parse_status_args rest (Some (path_of_string value), agent)
      else if flag = ''--agent-dir'' then parse_status_args rest (repo, Some (path_of_string value))
      else Err (Failure (''unknown status option: '' @ flag)))"

definition status_command :: "'b host \<Rightarrow> cli_env \<Rightarrow> string list \<Rightarrow> ('b, string) prog" where
  "status_command host cli args =
     and_then (lift_result (try_bind (parse_status_args args (None, None)) (\<lambda>(repo, agent).
       try_bind (or_default agent (default_agent_dir cli)) (\<lambda>agent_dir.
       try_bind (or_default repo (map_err (\<lambda>_. ''reading the current directory'') (current_dir cli))) (\<lambda>dir.
       Ok \<lparr>query_agent_dir = agent_dir, query_repo = dir\<rparr>))))) (\<lambda>options.
     and_then (store_read host (\<lambda>env disk. load_repository_status env (host_codec host) (has_git host) disk options)) (\<lambda>status.
     return (render_status status)))"

definition help_text :: string where
  "help_text = concat (map writeln
     [''big-brother '' @ em_dash @ '' Big Brother repository review enrollment and status'', [],
      ''usage: big-brother <init|status> [options]'', [], ''init options:'',
      ''  --repo DIR                      The review work tree (default: the current directory)'',
      ''  --agent-dir DIR                 The agent directory (default: ~/.prime/agent)'',
      ''  --socket PATH                   The daemon's Unix socket'',
      ''  --branch NAME                   The tracked branch (default: origin/HEAD, then main, master)'',
      ''  --session-name NAME             The conductor's wake name (default: review-<repo>)'',
      ''  --main-model PROVIDER/MODEL     The conductor's model'',
      ''  --layer NAME=PROVIDER/MODEL     A review layer's model (repeatable)'',
      ''  --attempt-timeout-secs N        One attempt's time budget (default: 1800)'',
      ''  --max-attempts N                The attempt ceiling per range (default: 3)'', [], ''status options:'',
      ''  --repo DIR                      The review work tree (default: the current directory)'',
      ''  --agent-dir DIR                 The agent directory (default: ~/.prime/agent)'', [],
      ''  -h, --help                      Print this help'',
      ''  -v, --version                   Print the version''])"

fun finish :: "(string, failure) result \<times> 'b world \<Rightarrow> cli_exit \<times> 'b world" where
  "finish (Ok out, w) = (Printed out, w)"
| "finish (Err e, w) = (CommandFailed e, w)"

definition run_cli :: "'b host \<Rightarrow> cli_env \<Rightarrow> string list \<Rightarrow> 'b world \<Rightarrow> cli_exit \<times> 'b world" where
  "run_cli host cli args w = (case args of
     [] \<Rightarrow> (ExitUsage, w)
   | command # rest \<Rightarrow>
       if command = ''--help'' \<or> command = ''-h'' then (Printed help_text, w)
       else if command = ''--version'' \<or> command = ''-v'' then (Printed (writeln (shipped_version cli)), w)
       else if command = ''init'' then finish (init_command host cli rest w)
       else if command = ''status'' then finish (status_command host cli rest w)
       else (CommandFailed (Failure (''unknown command: '' @ command @ '' (expected init|status)'')), w))"

subsection \<open>Arguments round trip\<close>

text \<open>The arguments that ask for some settings.\<close>

definition flag_args :: "string \<Rightarrow> string option \<Rightarrow> string list" where
  "flag_args flag v = (case v of None \<Rightarrow> [] | Some value \<Rightarrow> [flag, value])"

definition init_args_line :: "init_args \<Rightarrow> string list" where
  "init_args_line a =
     flag_args ''--repo'' (map_option path_string (arg_repo a))
     @ flag_args ''--agent-dir'' (map_option path_string (arg_agent_dir a))
     @ flag_args ''--socket'' (map_option path_string (arg_socket a))
     @ flag_args ''--branch'' (arg_branch a) @ flag_args ''--session-name'' (arg_session_name a)
     @ flag_args ''--main-model'' (arg_main_model a)
     @ flag_args ''--attempt-timeout-secs'' (map_option (show_nat \<circ> unat) (arg_attempt_timeout_seconds a))
     @ flag_args ''--max-attempts'' (map_option (show_nat \<circ> unat) (arg_max_attempts a))
     @ concat (map (\<lambda>(name, model). [''--layer'', name @ CHR ''='' # model]) (arg_layers a))"

definition args_wf :: "init_args \<Rightarrow> bool" where
  "args_wf a \<longleftrightarrow> pred_option absolute_path (arg_repo a) \<and> pred_option absolute_path (arg_agent_dir a)
     \<and> pred_option absolute_path (arg_socket a) \<and> list_all (\<lambda>(name, _). CHR ''='' \<notin> set name) (arg_layers a)"

lemma next_u32_show: "next_u32 flag (show_nat (unat (n :: u32))) = Ok n"
proof -
  have "unat n < 2 ^ LENGTH(32)" by (rule unsigned_less)
  then have "unat n \<le> 2 ^ 32 - 1" by simp
  then have "parse_u32 (show_nat (unat n)) = Some (unat n)"
    using parse_unsigned_pad_zero [of "unat n" "2 ^ 32 - 1" 0] by (simp add: parse_u32_def pad_zero_def)
  then show ?thesis by (simp add: next_u32_def)
qed

lemma parse_layers:
  "list_all (\<lambda>(name, _). CHR ''='' \<notin> set name) ls \<Longrightarrow>
   parse_init_args (concat (map (\<lambda>(name, model). [''--layer'', name @ CHR ''='' # model]) ls)) a
     = Ok (a\<lparr>arg_layers := arg_layers a @ ls\<rparr>)"
proof (induction ls arbitrary: a)
  case (Cons l ls)
  obtain name model where l: "l = (name, model)" by (cases l)
  have "split_once ''='' (name @ CHR ''='' # model) = Some (name, model)"
    using Cons.prems l split_once_char [of "CHR ''=''" name model] by simp
  then have "set_init_arg ''--layer'' (name @ CHR ''='' # model) a = Ok (a\<lparr>arg_layers := arg_layers a @ [(name, model)]\<rparr>)"
    by (simp add: set_init_arg_def)
  then show ?case using Cons by (simp add: l init_flags_def)
qed simp

text \<open>Each flag sets its field.\<close>

lemma parse_path_flags:
  assumes "pred_option absolute_path v"
  shows "arg_repo a = None \<Longrightarrow> parse_init_args (flag_args ''--repo'' (map_option path_string v) @ rest) a
      = parse_init_args rest (a\<lparr>arg_repo := v\<rparr>)"
    "arg_agent_dir a = None \<Longrightarrow> parse_init_args (flag_args ''--agent-dir'' (map_option path_string v) @ rest) a
      = parse_init_args rest (a\<lparr>arg_agent_dir := v\<rparr>)"
    "arg_socket a = None \<Longrightarrow> parse_init_args (flag_args ''--socket'' (map_option path_string v) @ rest) a
      = parse_init_args rest (a\<lparr>arg_socket := v\<rparr>)"
  using assms path_string_roundtrip
  by (cases v; cases a; simp add: flag_args_def init_flags_def set_init_arg_def)+

lemma parse_text_flags:
  "arg_branch a = None \<Longrightarrow> parse_init_args (flag_args ''--branch'' v @ rest) a = parse_init_args rest (a\<lparr>arg_branch := v\<rparr>)"
  "arg_session_name a = None \<Longrightarrow> parse_init_args (flag_args ''--session-name'' v @ rest) a
     = parse_init_args rest (a\<lparr>arg_session_name := v\<rparr>)"
  "arg_main_model a = None \<Longrightarrow> parse_init_args (flag_args ''--main-model'' v @ rest) a
     = parse_init_args rest (a\<lparr>arg_main_model := v\<rparr>)"
  by (cases v; cases a; simp add: flag_args_def init_flags_def set_init_arg_def)+

lemma parse_number_flags:
  "arg_attempt_timeout_seconds a = None \<Longrightarrow>
   parse_init_args (flag_args ''--attempt-timeout-secs'' (map_option (show_nat \<circ> unat) v) @ rest) a
     = parse_init_args rest (a\<lparr>arg_attempt_timeout_seconds := v\<rparr>)"
  "arg_max_attempts a = None \<Longrightarrow> parse_init_args (flag_args ''--max-attempts'' (map_option (show_nat \<circ> unat) v) @ rest) a
     = parse_init_args rest (a\<lparr>arg_max_attempts := v\<rparr>)"
  by (cases v; cases a; simp add: flag_args_def init_flags_def set_init_arg_def next_u32_show)+

text \<open>
  The command line says what was asked: printing any settings as arguments (absolute paths, layer
  names without an equals sign, any 32-bit budgets) and parsing them gives exactly those settings back.
\<close>

theorem init_arguments_roundtrip:
  assumes "args_wf a"
  shows "parse_init_args (init_args_line a) no_init_args = Ok a"
proof -
  have wf: "pred_option absolute_path (arg_repo a)" "pred_option absolute_path (arg_agent_dir a)"
    "pred_option absolute_path (arg_socket a)" "list_all (\<lambda>(name, _). CHR ''='' \<notin> set name) (arg_layers a)"
    using assms by (simp_all add: args_wf_def)
  show ?thesis
    unfolding init_args_line_def append_assoc
    by (simp add: parse_path_flags wf parse_text_flags parse_number_flags parse_layers no_init_args_def)
qed

theorem init_arguments_roundtrip_witness:
  "parse_init_args (init_args_line (no_init_args\<lparr>arg_repo := Some [''/'', ''srv''], arg_layers := [(''fit'', ''p/m=1'')],
     arg_max_attempts := Some 5\<rparr>)) no_init_args = Ok (no_init_args\<lparr>arg_repo := Some [''/'', ''srv''],
       arg_layers := [(''fit'', ''p/m=1'')], arg_max_attempts := Some 5\<rparr>)"
  by (rule init_arguments_roundtrip) (simp add: args_wf_def no_init_args_def absolute_path_def plain_component_def)

end
