(* ===== verification/Lock_Dir.thy ===== *)
theory Lock_Dir
  imports Filesystem
begin

text \<open>
  The cross-process directory lock \<open>crates/pa-core/src/platform/lock_dir.rs\<close> the store takes before each
  operation. The state is what lies at the lock path; every file-system call is one atomic step on it,
  and before each step other processes may have changed it (\<open>rival\<close>). A directory remembers, besides
  its modification time and its owner file, which acquisition made it; the code does not see that mark,
  the properties do.
\<close>

datatype lock_node =
    NoLock
  | LegacyFile bool
  | LockDirectory nat "string option" nat
  | ForeignNode

record lock_env =
  rival :: "nat \<Rightarrow> lock_node \<Rightarrow> lock_node"
  lock_now :: "nat \<Rightarrow> nat"
  lock_fault :: "nat \<Rightarrow> io_error option"
  pid_alive :: "nat \<Rightarrow> bool"

record lock_state =
  lock_node :: lock_node
  lock_tick :: nat

type_synonym 'a lock_action = "(lock_state, 'a, io_error) action"

text \<open>One system call on the lock path.\<close>

definition lock_call ::
  "lock_env \<Rightarrow> (nat \<Rightarrow> lock_node \<Rightarrow> ('a, io_error) result \<times> lock_node) \<Rightarrow> 'a lock_action" where
  "lock_call env f s =
     (let node = rival env (lock_tick s) (lock_node s)
      in case lock_fault env (lock_tick s) of
           Some e \<Rightarrow> (Err e, \<lparr>lock_node = node, lock_tick = Suc (lock_tick s)\<rparr>)
         | None \<Rightarrow> (case f (lock_now env (lock_tick s)) node of
              (r, node') \<Rightarrow> (r, \<lparr>lock_node = node', lock_tick = Suc (lock_tick s)\<rparr>)))"

definition missing :: io_error where
  "missing = IoError NotFound ''No such file or directory''"

definition create_dir :: "lock_env \<Rightarrow> nat \<Rightarrow> unit lock_action" where
  "create_dir env me = lock_call env (\<lambda>now node.
     if node = NoLock then (Ok (), LockDirectory now None me)
     else (Err (IoError AlreadyExists ''File exists''), node))"

definition set_permissions :: "lock_env \<Rightarrow> unit lock_action" where
  "set_permissions env = lock_call env (\<lambda>_ node. (if node = NoLock then Err missing else Ok (), node))"

definition write_owner :: "lock_env \<Rightarrow> string \<Rightarrow> unit lock_action" where
  "write_owner env owner = lock_call env (\<lambda>_ node. case node of
     LockDirectory m _ who \<Rightarrow> (Ok (), LockDirectory m (Some (owner @ [CHR ''\<newline>''])) who)
   | _ \<Rightarrow> (Err missing, node))"

text \<open>The modification time of the precision probe: five milliseconds after the next whole second.\<close>

definition probe_mtime :: "nat \<Rightarrow> nat" where
  "probe_mtime now_ms = (now_ms + 999) div 1000 * 1000 + 5"

definition set_mtime :: "lock_env \<Rightarrow> unit lock_action" where
  "set_mtime env = lock_call env (\<lambda>now node. case node of
     LockDirectory _ owner who \<Rightarrow> (Ok (), LockDirectory (probe_mtime now) owner who)
   | NoLock \<Rightarrow> (Err missing, node)
   | _ \<Rightarrow> (Ok (), node))"

definition remove_owner :: "lock_env \<Rightarrow> unit lock_action" where
  "remove_owner env = lock_call env (\<lambda>_ node. case node of
     LockDirectory m (Some _) who \<Rightarrow> (Ok (), LockDirectory m None who)
   | _ \<Rightarrow> (Err missing, node))"

definition remove_dir :: "lock_env \<Rightarrow> unit lock_action" where
  "remove_dir env = lock_call env (\<lambda>_ node. case node of
     LockDirectory m None who \<Rightarrow> (Ok (), NoLock)
   | LockDirectory m (Some _) who \<Rightarrow> (Err (IoError OtherKind ''Directory not empty''), node)
   | NoLock \<Rightarrow> (Err missing, node)
   | _ \<Rightarrow> (Err (IoError OtherKind ''Not a directory''), node))"

definition remove_legacy :: "lock_env \<Rightarrow> unit lock_action" where
  "remove_legacy env = lock_call env (\<lambda>_ node. case node of
     NoLock \<Rightarrow> (Err missing, node)
   | LockDirectory _ _ _ \<Rightarrow> (Err (IoError OtherKind ''Is a directory''), node)
   | _ \<Rightarrow> (Ok (), NoLock))"

definition look :: "lock_env \<Rightarrow> lock_node lock_action" where
  "look env = lock_call env (\<lambda>_ node. (if node = NoLock then Err missing else Ok node, node))"

text \<open>Whether a legacy lock file is guarded by a live \<open>flock\<close>; an unopenable path is not.\<close>

definition legacy_flock_held :: "lock_env \<Rightarrow> bool lock_action" where
  "legacy_flock_held env s = (case lock_call env (\<lambda>_ node. case node of
     LegacyFile flocked \<Rightarrow> (Ok flocked, node) | _ \<Rightarrow> (Ok False, node)) s of
       (Ok flocked, s') \<Rightarrow> (Ok flocked, s') | (Err _, s') \<Rightarrow> (Ok False, s'))"

definition read_owner :: "lock_env \<Rightarrow> (string option) lock_action" where
  "read_owner env s = (case lock_call env (\<lambda>_ node. case node of
     LockDirectory _ owner _ \<Rightarrow> (Ok owner, node) | _ \<Rightarrow> (Ok None, node)) s of
       (Ok recorded, s') \<Rightarrow> (Ok recorded, s') | (Err _, s') \<Rightarrow> (Ok None, s'))"

definition clock_reading :: "lock_env \<Rightarrow> nat lock_action" where
  "clock_reading env s = (Ok (lock_now env (lock_tick s)), s\<lparr>lock_tick := Suc (lock_tick s)\<rparr>)"

definition ignore_error :: "'a lock_action \<Rightarrow> unit lock_action" where
  "ignore_error m s = (Ok (), snd (m s))"

subsection \<open>Acquisition\<close>

definition MIN_STALE_MS :: nat where
  "MIN_STALE_MS = 2000"

definition held :: "path \<Rightarrow> io_error" where
  "held p = IoError WouldBlock (''Lock file is already being held: '' @ path_string p)"

text \<open>A recorded owner is dead unless it names a positive pid of a process that still exists.\<close>

definition owner_dead :: "lock_env \<Rightarrow> string \<Rightarrow> bool" where
  "owner_dead env recorded = (case split_once '' '' (trim recorded) of
     None \<Rightarrow> True
   | Some (pid, token) \<Rightarrow>
       token = [] \<or> (case parse_u32 pid of
          None \<Rightarrow> True
        | Some n \<Rightarrow> n = 0 \<or> 2147483647 < n \<or> \<not> pid_alive env n))"

definition create :: "lock_env \<Rightarrow> nat \<Rightarrow> string option \<Rightarrow> unit lock_action" where
  "create env me owner =
     and_then (create_dir env me) (\<lambda>_ s.
     case and_then (case owner of None \<Rightarrow> return ()
           | Some name \<Rightarrow> and_then (set_permissions env) (\<lambda>_. and_then (write_owner env name) (\<lambda>_. set_permissions env)))
           (\<lambda>_. set_mtime env) s of
       (Ok u, s') \<Rightarrow> (Ok (), s')
     | (Err e, s') \<Rightarrow> and_then (ignore_error (remove_owner env)) (\<lambda>_.
          and_then (ignore_error (remove_dir env)) (\<lambda>_. throw e)) s')"

text \<open>A removal for which a vanished target is success.\<close>

definition gone_is_ok :: "unit lock_action \<Rightarrow> unit lock_action" where
  "gone_is_ok m s = (case m s of
     (Err (IoError NotFound msg), s') \<Rightarrow> (Ok (), s')
   | (r, s') \<Rightarrow> (r, s'))"

definition judge_and_reclaim :: "lock_env \<Rightarrow> path \<Rightarrow> nat \<Rightarrow> unit lock_action" where
  "judge_and_reclaim env p stale_after s = (case look env s of
     (Err (IoError kind msg), s') \<Rightarrow> if kind = NotFound then (Ok (), s') else (Err (IoError kind msg), s')
   | (Ok node, s') \<Rightarrow> (case node of
        LegacyFile _ \<Rightarrow>
          and_then (legacy_flock_held env) (\<lambda>flocked.
          if flocked then throw (held p) else gone_is_ok (remove_legacy env)) s'
      | LockDirectory modified owner who \<Rightarrow>
          and_then (clock_reading env) (\<lambda>now.
          if stale_after < now - modified then
            and_then (read_owner env) (\<lambda>recorded.
            if (case recorded of None \<Rightarrow> False | Some name \<Rightarrow> \<not> owner_dead env name) then throw (held p)
            else and_then (gone_is_ok (remove_owner env)) (\<lambda>_. gone_is_ok (remove_dir env)))
          else throw (held p)) s'
      | _ \<Rightarrow> (Err (held p), s')))"

definition acquire_with_owner ::
  "lock_env \<Rightarrow> nat \<Rightarrow> path \<Rightarrow> nat \<Rightarrow> string option \<Rightarrow> unit lock_action" where
  "acquire_with_owner env me p stale_after owner s = (case create env me owner s of
     (Err (IoError AlreadyExists msg), s') \<Rightarrow>
       and_then (judge_and_reclaim env p (max stale_after MIN_STALE_MS)) (\<lambda>_ s''.
       case create env me owner s'' of
         (Err (IoError AlreadyExists msg'), s3) \<Rightarrow> (Err (held p), s3)
       | (r, s3) \<Rightarrow> (r, s3)) s'
   | (r, s') \<Rightarrow> (r, s'))"

definition acquire :: "lock_env \<Rightarrow> nat \<Rightarrow> path \<Rightarrow> nat \<Rightarrow> unit lock_action" where
  "acquire env me p stale_after = acquire_with_owner env me p stale_after None"

text \<open>
  The bounded retry: \<open>attempts\<close> is a \<open>u32\<close>, the loop counts up to it and always tries once. The
  recursion is on what is left of it.
\<close>

fun retry_from ::
  "lock_env \<Rightarrow> nat \<Rightarrow> path \<Rightarrow> nat \<Rightarrow> string option \<Rightarrow> nat \<Rightarrow> unit lock_action" where
  "retry_from env me p stale_after owner left s = (case acquire_with_owner env me p stale_after owner s of
     (Ok u, s') \<Rightarrow> (Ok (), s')
   | (Err (IoError kind msg), s') \<Rightarrow>
       if kind \<noteq> WouldBlock then (Err (IoError kind msg), s')
       else (case left of
          0 \<Rightarrow> (Err (IoError kind msg), s')
        | Suc rest \<Rightarrow> retry_from env me p stale_after owner rest s'))"

declare retry_from.simps [simp del]

definition acquire_retrying :: "lock_env \<Rightarrow> nat \<Rightarrow> path \<Rightarrow> nat \<Rightarrow> u32 \<Rightarrow> unit lock_action" where
  "acquire_retrying env me p stale_after attempts = retry_from env me p stale_after None (unat attempts - 1)"

definition acquire_owned_retrying ::
  "lock_env \<Rightarrow> nat \<Rightarrow> path \<Rightarrow> nat \<Rightarrow> u32 \<Rightarrow> string \<Rightarrow> unit lock_action" where
  "acquire_owned_retrying env me p stale_after attempts owner =
     retry_from env me p stale_after (Some owner) (unat attempts - 1)"

subsection \<open>Holding and releasing\<close>

definition owner_matches :: "lock_env \<Rightarrow> string \<Rightarrow> bool lock_action" where
  "owner_matches env owner =
     and_then (read_owner env) (\<lambda>recorded. return (case recorded of None \<Rightarrow> False | Some name \<Rightarrow> trim name = owner))"

definition ensure_owned :: "lock_env \<Rightarrow> path \<Rightarrow> string option \<Rightarrow> unit lock_action" where
  "ensure_owned env p owner = (case owner of
     None \<Rightarrow> return ()
   | Some name \<Rightarrow> and_then (owner_matches env name) (\<lambda>mine.
       if mine then return () else throw (IoError OtherKind (''harness state lock lost: '' @ path_string p))))"

definition release :: "lock_env \<Rightarrow> string option \<Rightarrow> unit lock_action" where
  "release env owner s = (case owner of
     None \<Rightarrow> ignore_error (remove_dir env) s
   | Some name \<Rightarrow>
       and_then (owner_matches env name) (\<lambda>mine.
       if \<not> mine then return ()
       else (\<lambda>s. case remove_owner env s of
         (Err e, s') \<Rightarrow> (Ok (), s')
       | (Ok u, s') \<Rightarrow> ignore_error (remove_dir env) s')) s)"

subsection \<open>Acquisition without interference\<close>

definition alone :: "lock_env \<Rightarrow> bool" where
  "alone env \<longleftrightarrow> (\<forall>k node. rival env k node = node) \<and> (\<forall>k. lock_fault env k = None)"

lemma lock_call_alone:
  "alone env \<Longrightarrow> lock_call env f s = (case f (lock_now env (lock_tick s)) (lock_node s) of
     (r, node) \<Rightarrow> (r, \<lparr>lock_node = node, lock_tick = Suc (lock_tick s)\<rparr>))"
  by (simp add: lock_call_def alone_def Let_def)

definition owner_file :: "string option \<Rightarrow> string option" where
  "owner_file owner = map_option (\<lambda>name. name @ [CHR ''\<newline>'']) owner"

lemmas lock_steps = create_dir_def set_permissions_def write_owner_def set_mtime_def remove_owner_def remove_dir_def
  remove_legacy_def look_def read_owner_def legacy_flock_held_def clock_reading_def

lemma create_free:
  assumes "alone env" "lock_node s = NoLock"
  shows "\<exists>t k. create env me owner s = (Ok (), \<lparr>lock_node = LockDirectory (probe_mtime t) (owner_file owner) me, lock_tick = k\<rparr>)"
  using assms by (cases owner) (auto simp: create_def lock_steps lock_call_alone and_then_def return_def owner_file_def)

lemma create_taken:
  assumes "alone env" "lock_node s \<noteq> NoLock"
  shows "create env me owner s = (Err (IoError AlreadyExists ''File exists''), s\<lparr>lock_tick := Suc (lock_tick s)\<rparr>)"
  using assms by (cases s) (auto simp: create_def lock_steps lock_call_alone and_then_def)

text \<open>What may be taken: nothing, a stale directory without a living owner, an unguarded legacy file.\<close>

fun reclaimable :: "lock_env \<Rightarrow> nat \<Rightarrow> nat \<Rightarrow> lock_node \<Rightarrow> bool" where
  "reclaimable env stale now NoLock = True"
| "reclaimable env stale now (LegacyFile flocked) = (\<not> flocked)"
| "reclaimable env stale now (LockDirectory modified owner who) =
     (stale < now - modified \<and> (case owner of None \<Rightarrow> True | Some name \<Rightarrow> owner_dead env name))"
| "reclaimable env stale now ForeignNode = False"

lemma judge_alone:
  assumes env: "alone env" and node: "lock_node s \<noteq> NoLock"
  shows "if reclaimable env stale (lock_now env (Suc (lock_tick s))) (lock_node s)
    then \<exists>k. judge_and_reclaim env p stale s = (Ok (), \<lparr>lock_node = NoLock, lock_tick = k\<rparr>)
    else \<exists>k. judge_and_reclaim env p stale s = (Err (held p), s\<lparr>lock_tick := k\<rparr>)"
  using assms
  by (cases "lock_node s"; cases s)
    (auto simp: judge_and_reclaim_def lock_steps lock_call_alone and_then_def throw_def gone_is_ok_def missing_def
      split: option.splits)

text \<open>
  C14. The lock is taken exactly when it is free or abandoned: without interference an acquisition
  succeeds if and only if there is no lock, or the lock directory is older than the staleness limit (two
  seconds at least) and no living process owns it, or a legacy lock file is unguarded; then the directory
  is this acquisition's own, with its owner file. In every other case it fails with contention
  and leaves what is there untouched.
\<close>

theorem lock_taken_iff_free_or_abandoned:
  assumes env: "alone env" and run: "acquire_with_owner env me p stale_after owner s = (r, s')"
  shows "if reclaimable env (max stale_after 2000) (lock_now env (Suc (Suc (lock_tick s)))) (lock_node s)
    then r = Ok () \<and> (\<exists>t. lock_node s' = LockDirectory (probe_mtime t) (owner_file owner) me)
    else r = Err (held p) \<and> lock_node s' = lock_node s"
proof (cases "lock_node s = NoLock")
  case True
  with create_free [OF env True, of me owner] run show ?thesis by (fastforce simp: acquire_with_owner_def)
next
  case False
  let ?s1 = "s\<lparr>lock_tick := Suc (lock_tick s)\<rparr>" and ?stale = "max stale_after MIN_STALE_MS"
  have first: "create env me owner s = (Err (IoError AlreadyExists ''File exists''), ?s1)"
    using create_taken [OF env False] .
  have again: "\<exists>t k. create env me owner \<lparr>lock_node = NoLock, lock_tick = j\<rparr>
      = (Ok (), \<lparr>lock_node = LockDirectory (probe_mtime t) (owner_file owner) me, lock_tick = k\<rparr>)" for j
    by (rule create_free [OF env]) simp
  have judged: "if reclaimable env ?stale (lock_now env (Suc (Suc (lock_tick s)))) (lock_node s)
    then \<exists>k. judge_and_reclaim env p ?stale ?s1 = (Ok (), \<lparr>lock_node = NoLock, lock_tick = k\<rparr>)
    else \<exists>k. judge_and_reclaim env p ?stale ?s1 = (Err (held p), ?s1\<lparr>lock_tick := k\<rparr>)"
    using judge_alone [OF env, of ?s1 ?stale p] False by simp
  show ?thesis
  proof (cases "reclaimable env ?stale (lock_now env (Suc (Suc (lock_tick s)))) (lock_node s)")
    case True
    then obtain k where "judge_and_reclaim env p ?stale ?s1 = (Ok (), \<lparr>lock_node = NoLock, lock_tick = k\<rparr>)"
      using judged by auto
    with first run again [of k] True show ?thesis
      by (fastforce simp: acquire_with_owner_def and_then_def MIN_STALE_MS_def)
  next
    case stays: False
    then obtain k where "judge_and_reclaim env p ?stale ?s1 = (Err (held p), ?s1\<lparr>lock_tick := k\<rparr>)"
      using judged by auto
    with first run stays show ?thesis by (auto simp: acquire_with_owner_def and_then_def MIN_STALE_MS_def)
  qed
qed

definition calm_lock_env :: lock_env where
  "calm_lock_env = \<lparr>rival = (\<lambda>_ node. node), lock_now = (\<lambda>k. 10000), lock_fault = (\<lambda>_. None), pid_alive = (\<lambda>_. True)\<rparr>"

theorem lock_taken_iff_free_or_abandoned_witness:
  "fst (acquire_with_owner calm_lock_env 1 [] 2000 None \<lparr>lock_node = LockDirectory 9000 None 7, lock_tick = 0\<rparr>) = Err (held [])
   \<and> fst (acquire_with_owner calm_lock_env 1 [] 2000 None \<lparr>lock_node = LockDirectory 7000 None 7, lock_tick = 0\<rparr>) = Ok ()"
proof -
  have alone: "alone calm_lock_env" by (simp add: alone_def calm_lock_env_def)
  note law = lock_taken_iff_free_or_abandoned [OF alone surjective_pairing, where me = 1 and p = "[]" and stale_after = 2000 and owner = None]
  show ?thesis
    using law [where s = "\<lparr>lock_node = LockDirectory 9000 None 7, lock_tick = 0\<rparr>"]
      law [where s = "\<lparr>lock_node = LockDirectory 7000 None 7, lock_tick = 0\<rparr>"]
    by (simp add: calm_lock_env_def)
qed

subsection \<open>Release\<close>

text \<open>
  Without interference a release removes exactly the releasing owner's lock: a directory with another
  owner's file stays.
\<close>

lemma release_only_own:
  assumes "alone env" "lock_node s = LockDirectory m (Some recorded) who"
  shows "lock_node (snd (release env (Some name) s)) = (if trim recorded = name then NoLock else lock_node s)"
  using assms
  by (auto simp: release_def owner_matches_def lock_steps lock_call_alone and_then_def return_def ignore_error_def)

subsection \<open>The race of the reclaim\<close>

text \<open>
  Two acquisitions can both succeed: the judge decides on the age it read, but removes whatever
  directory is there when it gets to it. Here a rival reclaims the same stale lock and takes it in
  between; its fresh directory, which nobody may take, is removed and the second acquisition succeeds
  as well, with no release by the first.
\<close>

definition racing_lock_env :: lock_env where
  "racing_lock_env = \<lparr>rival = (\<lambda>k node. if k = 4 then LockDirectory 10005 None 2 else node), lock_now = (\<lambda>k. 10000),
     lock_fault = (\<lambda>_. None), pid_alive = (\<lambda>_. True)\<rparr>"

lemma stale_reclaim_race:
  "\<not> reclaimable racing_lock_env 2000 (lock_now racing_lock_env 4) (LockDirectory 10005 None 2)
   \<and> (\<exists>s'. acquire racing_lock_env 1 p 2000 \<lparr>lock_node = LockDirectory 0 None 0, lock_tick = 0\<rparr> = (Ok (), s')
        \<and> lock_node s' = LockDirectory 10005 None 1)"
  by (simp add: racing_lock_env_def acquire_def acquire_with_owner_def create_def judge_and_reclaim_def lock_steps lock_call_def
      and_then_def return_def gone_is_ok_def missing_def MIN_STALE_MS_def probe_mtime_def Let_def)

end
