(* ===== verification/Rust_Text.thy ===== *)
theory Rust_Text
  imports Filesystem
begin

text \<open>
  Further operations of Rust's \<open>str\<close> the scheduling code uses: splitting at white space, Unicode
  lowercasing, searching from the end, slicing by byte offsets. A slice panics where an offset lies outside
  the string or inside a character, so an error is either a value the code can handle (\<open>Bail\<close>) or a panic,
  which unwinds through \<open>?\<close>, \<open>ok()\<close> and \<open>match\<close> alike.
\<close>

datatype cron_error = Bail string | Panic string

text \<open>\<open>Result::ok\<close>: an error value becomes \<open>None\<close>, a panic does not.\<close>

fun caught :: "('a, cron_error) result \<Rightarrow> ('a option, cron_error) result" where
  "caught (Ok x) = Ok (Some x)"
| "caught (Err (Bail msg)) = Ok None"
| "caught (Err (Panic msg)) = Err (Panic msg)"

definition is_ascii_alphabetic :: "char \<Rightarrow> bool" where
  "is_ascii_alphabetic c \<longleftrightarrow> is_ascii_uppercase c \<or> is_ascii_lowercase c"

definition starts_with_whitespace :: "string \<Rightarrow> bool" where
  "starts_with_whitespace s \<longleftrightarrow> (case utf8_chars s of [] \<Rightarrow> False | c # _ \<Rightarrow> is_whitespace c)"

definition contains_whitespace :: "string \<Rightarrow> bool" where
  "contains_whitespace s \<longleftrightarrow> list_ex is_whitespace (utf8_chars s)"

text \<open>\<open>strip_prefix(char::is_whitespace)\<close>: one leading white-space character.\<close>

definition strip_whitespace_char :: "string \<Rightarrow> string option" where
  "strip_whitespace_char s = (case utf8_chars s of
     [] \<Rightarrow> None
   | c # cs \<Rightarrow> if is_whitespace c then Some (concat cs) else None)"

definition trim_start :: "string \<Rightarrow> string" where
  "trim_start s = concat (dropWhile is_whitespace (utf8_chars s))"

fun split_at_whitespace :: "string list \<Rightarrow> string list" where
  "split_at_whitespace [] = [[]]"
| "split_at_whitespace (c # cs) =
     (if is_whitespace c then [] # split_at_whitespace cs
      else case split_at_whitespace cs of w # ws \<Rightarrow> (c @ w) # ws | [] \<Rightarrow> [c])"

definition split_whitespace :: "string \<Rightarrow> string list" where
  "split_whitespace s = filter (\<lambda>w. w \<noteq> []) (split_at_whitespace (utf8_chars s))"

text \<open>
  \<open>str::to_lowercase\<close>: ASCII letters as usual; what a character outside ASCII becomes is looked up in Unicode's
  tables (\<open>table s i\<close> for the \<open>i\<close>-th character of \<open>s\<close>; the context matters for a final sigma).
\<close>

type_synonym case_table = "string \<Rightarrow> nat \<Rightarrow> string"

fun lowercase_from :: "case_table \<Rightarrow> string \<Rightarrow> nat \<Rightarrow> string list \<Rightarrow> string" where
  "lowercase_from table s i [] = []"
| "lowercase_from table s i (c # cs) =
     (case c of [b] \<Rightarrow> [to_ascii_lowercase_char b] | _ \<Rightarrow> table s i) @ lowercase_from table s (Suc i) cs"

definition to_lowercase :: "case_table \<Rightarrow> string \<Rightarrow> string" where
  "to_lowercase table s = lowercase_from table s 0 (utf8_chars s)"

definition rfind_str :: "string \<Rightarrow> string \<Rightarrow> nat option" where
  "rfind_str p s = (if length s < length p then None
     else find (\<lambda>i. starts_with p (drop i s)) (rev [0 ..< Suc (length s - length p)]))"

fun find_char :: "char \<Rightarrow> string \<Rightarrow> nat option" where
  "find_char c [] = None"
| "find_char c (x # xs) = (if x = c then Some 0 else map_option Suc (find_char c xs))"

definition is_char_boundary :: "string \<Rightarrow> nat \<Rightarrow> bool" where
  "is_char_boundary s i \<longleftrightarrow> i = 0 \<or> i = length s \<or> (i < length s \<and> \<not> is_utf8_continuation (s ! i))"

definition slice_from :: "string \<Rightarrow> nat \<Rightarrow> (string, cron_error) result" where
  "slice_from s i = (if is_char_boundary s i then Ok (drop i s) else Err (Panic ''byte index is not a char boundary''))"

definition slice_to :: "string \<Rightarrow> nat \<Rightarrow> (string, cron_error) result" where
  "slice_to s i = (if is_char_boundary s i then Ok (take i s) else Err (Panic ''byte index is not a char boundary''))"

definition replace_char :: "char \<Rightarrow> char \<Rightarrow> string \<Rightarrow> string" where
  "replace_char a b s = map (\<lambda>c. if c = a then b else c) s"

subsection \<open>Lemmas\<close>

definition is_ascii :: "string \<Rightarrow> bool" where
  "is_ascii s \<longleftrightarrow> list_all (\<lambda>c. of_char c < (128 :: nat)) s"

lemma ascii_not_continuation: "of_char c < (128 :: nat) \<Longrightarrow> \<not> is_utf8_continuation c"
  by (simp add: is_utf8_continuation_def)

lemma utf8_chars_is_ascii: "is_ascii s \<Longrightarrow> utf8_chars s = map (\<lambda>c. [c]) s"
  by (rule utf8_chars_ascii) (auto simp: is_ascii_def list_all_iff ascii_not_continuation)

lemma lowercase_from_ascii: "lowercase_from table s i (map (\<lambda>c. [c]) cs) = map to_ascii_lowercase_char cs"
  by (induction cs arbitrary: i) auto

lemma to_lowercase_ascii: "is_ascii s \<Longrightarrow> to_lowercase table s = to_ascii_lowercase s"
  by (simp add: to_lowercase_def utf8_chars_is_ascii lowercase_from_ascii to_ascii_lowercase_def)

lemma caught_Ok_iff: "caught r = Ok (Some x) \<longleftrightarrow> r = Ok x"
  by (cases r rule: caught.cases) auto

end
