(* ===== verification/Cron_Schedule.thy ===== *)
theory Cron_Schedule
  imports Calendar Rust_Text
begin

text \<open>
  Schedules of agent jobs: \<open>crates/pa-core/src/cron/mod.rs\<close>. Instants are Rust's \<open>u64\<close> milliseconds as \<open>nat\<close>;
  sums with an amount a user or a file supplies are written with the wrap-around of the release build, and the
  cron search starts at a clock reading, so that its own additions stay far below \<open>2 ^ 64\<close>. The timestamp parser
  computes with \<open>i64\<close>: sums and products are exact integers here and the final \<open>as u64\<close> reduces them, which
  agrees with wrapping at every step; the one subtraction in front of a division wraps where it stands.
\<close>

datatype job_status = Active | Paused | Completed_Job | Cancelled

datatype schedule_kind = Once | Cron | Interval

datatype delivery_mode = Steer | FollowUp

record agent_cron_schedule =
  kind :: schedule_kind
  expression :: string
  interval_ms :: "nat option"

record agent_cron_job =
  job_id :: string
  job_status :: job_status
  job_source :: "string option"
  job_runtime_kind :: "string option"
  job_delivery_mode :: "delivery_mode option"
  job_active_session_id :: string
  job_session_id :: string
  job_session_file :: string
  job_cwd :: string
  job_label :: "string option"
  job_prompt :: string
  job_schedule :: agent_cron_schedule
  job_created_at :: string
  job_updated_at :: string
  job_next_run_at :: "string option"
  job_last_run_at :: "string option"
  job_last_skipped_at :: "string option"
  job_last_error :: "string option"
  job_run_count :: u64

record heartbeat_session_activity =
  is_streaming :: bool
  is_compacting :: bool
  is_retrying :: bool
  is_bash_running :: bool
  has_pending_session_work :: bool
  unfinished_action_count :: nat

definition ONE_SECOND_MS :: nat where
  "ONE_SECOND_MS = 1000"

definition ONE_MINUTE_MS :: nat where
  "ONE_MINUTE_MS = 60 * ONE_SECOND_MS"

definition DEFAULT_HEARTBEAT_SCHEDULE :: string where
  "DEFAULT_HEARTBEAT_SCHEDULE = ''every 5m''"

definition DEFAULT_HEARTBEAT_DELIVERY_MODE :: delivery_mode where
  "DEFAULT_HEARTBEAT_DELIVERY_MODE = Steer"

subsection \<open>Machine arithmetic\<close>

definition wrapping_add64 :: "nat \<Rightarrow> nat \<Rightarrow> nat" where
  "wrapping_add64 a b = (a + b) mod 2 ^ 64"

definition wrapping_sub64 :: "nat \<Rightarrow> nat \<Rightarrow> nat" where
  "wrapping_sub64 a b = nat ((int a - int b) mod 2 ^ 64)"

definition saturating_mul64 :: "nat \<Rightarrow> nat \<Rightarrow> nat" where
  "saturating_mul64 a b = min (a * b) (2 ^ 64 - 1)"

definition wrap_i64 :: "int \<Rightarrow> int" where
  "wrap_i64 z = (z + 2 ^ 63) mod 2 ^ 64 - 2 ^ 63"

definition as_u64 :: "int \<Rightarrow> nat" where
  "as_u64 z = nat (z mod 2 ^ 64)"

subsection \<open>Delays\<close>

definition unit_multiplier :: "string \<Rightarrow> bool \<Rightarrow> nat option" where
  "unit_multiplier unit_text allow_seconds =
     (let u = trim unit_text in
      if allow_seconds \<and> u \<in> {''s'', ''sec'', ''secs'', ''second'', ''seconds''} then Some ONE_SECOND_MS
      else if u \<in> {''m'', ''min'', ''mins'', ''minute'', ''minutes''} then Some ONE_MINUTE_MS
      else if u \<in> {''h'', ''hr'', ''hrs'', ''hour'', ''hours''} then Some (60 * ONE_MINUTE_MS)
      else if u \<in> {''d'', ''day'', ''days''} then Some (24 * 60 * ONE_MINUTE_MS)
      else None)"

definition split_amount_unit :: "string \<Rightarrow> (nat \<times> string) option" where
  "split_amount_unit text0 =
     (let rest = trim text0;
          digits = takeWhile is_ascii_digit rest;
          tail = drop (length digits) rest;
          unit_text = trim tail
      in if digits = [] then None
         else case parse_unsigned (2 ^ 64 - 1) digits of
           None \<Rightarrow> None
         | Some amount \<Rightarrow>
             if unit_text \<noteq> [] \<and> \<not> starts_with_whitespace tail \<and> \<not> list_all is_ascii_alphabetic unit_text
             then None else Some (amount, unit_text))"

definition parse_in_delay :: "string \<Rightarrow> nat \<Rightarrow> nat option" where
  "parse_in_delay rest now_millis = (case split_amount_unit rest of
     None \<Rightarrow> None
   | Some (amount, unit_text) \<Rightarrow> (case unit_multiplier unit_text False of
        None \<Rightarrow> None
      | Some multiplier \<Rightarrow> Some (wrapping_add64 now_millis (saturating_mul64 amount multiplier))))"

definition parse_every_delay :: "string \<Rightarrow> nat \<Rightarrow> (nat option, cron_error) result" where
  "parse_every_delay rest now_millis = (case split_amount_unit rest of
     None \<Rightarrow> Ok None
   | Some (amount, unit_text) \<Rightarrow> (case unit_multiplier unit_text True of
        None \<Rightarrow> Ok None
      | Some multiplier \<Rightarrow>
          let interval = saturating_mul64 amount multiplier
          in if interval < 10 * ONE_SECOND_MS
             then Err (Bail ''Recurring interval must be at least 10 seconds'')
             else Ok (Some (wrapping_add64 now_millis interval))))"

subsection \<open>Timestamps\<close>

definition fraction_pad :: "string \<Rightarrow> int option" where
  "fraction_pad fraction =
     (if fraction = [] \<or> \<not> list_all is_ascii_digit fraction then None
      else parse_i64 (take 3 (fraction @ replicate (3 - length fraction) (CHR ''0''))))"

definition parse_offset :: "string \<Rightarrow> int option" where
  "parse_offset s =
     do {
       (sign, rest) \<leftarrow> (case strip_prefix ''+'' s of
          Some rest \<Rightarrow> Some (1 :: int, rest)
        | None \<Rightarrow> map_option (\<lambda>rest. (- 1, rest)) (strip_prefix ''-'' s));
       let parts = split_char (CHR '':'') rest;
       hours \<leftarrow> parse_i64 (hd parts);
       minutes \<leftarrow> (if length parts < 2 then Some 0 else parse_i64 (parts ! 1));
       Some (sign * (hours * 60 + minutes) * 60000)
     }"

definition split_offset :: "string \<Rightarrow> ((string \<times> int) option, cron_error) result" where
  "split_offset s = (case strip_suffix ''Z'' s of
     Some stripped \<Rightarrow> Ok (Some (stripped, 0))
   | None \<Rightarrow>
       try_bind (case rfind_str ''+'' s of
           Some index \<Rightarrow> Ok (Some index)
         | None \<Rightarrow> try_bind (slice_from s 1) (\<lambda>tail. Ok (map_option Suc (rfind_str ''-'' tail))))
         (\<lambda>found. case found of
            Some index \<Rightarrow> Ok (map_option (\<lambda>offset. (take index s, offset)) (parse_offset (drop index s)))
          | None \<Rightarrow> Ok (Some (s, 0))))"

definition parse_clock :: "string \<Rightarrow> int option" where
  "parse_clock s =
     (let parts = split_char (CHR '':'') s in
      if length parts > 3 then None
      else do {
        hours \<leftarrow> parse_i64 (hd parts);
        minutes \<leftarrow> (if length parts < 2 then Some 0 else parse_i64 (parts ! 1));
        let seconds_part = (if length parts < 3 then ''0'' else parts ! 2);
        (seconds, millis) \<leftarrow> (case split_once ''.'' seconds_part of
           Some (whole, fraction) \<Rightarrow> do { seconds \<leftarrow> parse_i64 whole; ms \<leftarrow> fraction_pad fraction; Some (seconds, ms) }
         | None \<Rightarrow> map_option (\<lambda>seconds. (seconds, 0)) (parse_i64 seconds_part));
        if hours > 23 \<or> minutes > 59 \<or> seconds > 59 then None
        else Some (hours * 3600000 + minutes * 60000 + seconds * 1000 + millis)
      })"

definition parse_time_with_offset :: "string \<Rightarrow> ((int \<times> int) option, cron_error) result" where
  "parse_time_with_offset s =
     try_bind (split_offset s) (\<lambda>parted. case parted of
       None \<Rightarrow> Ok None
     | Some (clock, offset) \<Rightarrow> Ok (map_option (\<lambda>ms. (ms, offset)) (parse_clock clock)))"

definition parse_date_days :: "string \<Rightarrow> int option" where
  "parse_date_days date =
     (case split_char (CHR ''-'') date of
        [year_text, month_text, day_text] \<Rightarrow> do {
          year \<leftarrow> parse_i64 year_text;
          month \<leftarrow> parse_u32 month_text;
          day \<leftarrow> parse_u32 day_text;
          if \<not> (1 \<le> month \<and> month \<le> 12) \<or> \<not> (1 \<le> day \<and> day \<le> 31) then None
          else
            (let y = (if month \<le> 2 then wrap_i64 (year - 1) else year);
                 era = y div 400;
                 yoe = y mod 400;
                 mp = int (if month > 2 then month - 3 else month + 9);
                 doy = (153 * mp + 2) div 5 + int day - 1;
                 doe = yoe * 365 + yoe div 4 - yoe div 100 + doy
             in Some (era * 146097 + doe - 719468))
        }
      | _ \<Rightarrow> None)"

definition parse_iso_millis :: "string \<Rightarrow> (nat option, cron_error) result" where
  "parse_iso_millis text0 = (case split_once ''T'' (trim text0) of
     None \<Rightarrow> Ok None
   | Some (date, clock) \<Rightarrow> (case parse_date_days date of
        None \<Rightarrow> Ok None
      | Some days \<Rightarrow>
          try_bind (parse_time_with_offset clock) (\<lambda>parsed. case parsed of
            None \<Rightarrow> Ok None
          | Some (ms, offset) \<Rightarrow> Ok (Some (as_u64 (days * 24 * 60 * 60 * 1000 + ms - offset))))))"

text \<open>\<open>format_iso\<close> of the session manager; the quotient of a negative number truncates.\<close>

definition format_iso :: "int \<Rightarrow> string" where
  "format_iso millis =
     (let days = millis div 86400000;
          time_ms = nat (millis mod 86400000);
          z = days + 719468;
          era = (if z \<ge> 0 then z div 146097 else - ((146096 - z) div 146097));
          doe = z - era * 146097;
          yoe = (doe - doe div 1460 + doe div 36524 - doe div 146096) div 365;
          y = yoe + era * 400;
          doy = doe - (365 * yoe + yoe div 4 - yoe div 100);
          mp = (5 * doy + 2) div 153;
          d = doy - (153 * mp + 2) div 5 + 1;
          m = (if mp < 10 then mp + 3 else mp - 9);
          year = (if m \<le> 2 then y + 1 else y);
          hour = time_ms div 3600000;
          minute = (time_ms div 60000) mod 60;
          second = (time_ms div 1000) mod 60;
          ms = time_ms mod 1000
      in show_int04 year @ ''-'' @ pad_zero 2 (show_nat (nat m)) @ ''-'' @ pad_zero 2 (show_nat (nat d))
         @ ''T'' @ pad_zero 2 (show_nat hour) @ '':'' @ pad_zero 2 (show_nat minute) @ '':''
         @ pad_zero 2 (show_nat second) @ ''.'' @ pad_zero 3 (show_nat ms) @ ''Z'')"

definition iso_from_millis :: "nat \<Rightarrow> string" where
  "iso_from_millis millis = format_iso (wrap_i64 (int millis))"

subsection \<open>Cron expressions\<close>

record cron_fields =
  minute_field :: "(nat, unit) btree"
  hour_field :: "(nat, unit) btree"
  day_of_month_field :: "(nat, unit) btree"
  month_field :: "(nat, unit) btree"
  day_of_week_field :: "(nat, unit) btree"

definition parse_cron_number :: "string \<Rightarrow> nat \<Rightarrow> nat \<Rightarrow> (nat, cron_error) result" where
  "parse_cron_number value lo hi =
     (if value = [] then Err (Bail ''Invalid cron number: '')
      else if \<not> list_all is_ascii_digit value then Err (Bail (''Invalid cron number: '' @ value))
      else case parse_u32 value of
        None \<Rightarrow> Err (Bail (''Invalid cron number: '' @ value))
      | Some parsed \<Rightarrow>
          if parsed < lo \<or> parsed > hi then Err (Bail (''Cron number out of range: '' @ value))
          else Ok parsed)"

text \<open>
  The loop that inserts every \<open>step\<close>-th value of a range. A step is at least one, which
  \<open>parse_cron_number\<close> guarantees; a step of zero, which never reaches the loop, ends it here.
\<close>

function insert_range :: "nat \<Rightarrow> nat \<Rightarrow> nat \<Rightarrow> (nat, unit) btree \<Rightarrow> (nat, unit) btree" where
  "insert_range value last_value step values =
     (if last_value < value \<or> step = 0 then values
      else insert_range (value + step) last_value step (bt_insert value () values))"
  by pat_completeness auto
termination
  by (relation "measure (\<lambda>(value, last_value, step, values). Suc last_value - value)") auto

declare insert_range.simps [simp del]

definition range_bounds :: "string \<Rightarrow> nat \<Rightarrow> nat \<Rightarrow> (nat \<times> nat, cron_error) result" where
  "range_bounds range_text lo hi =
     (if range_text = ''*'' then Ok (lo, hi)
      else case split_once ''-'' range_text of
        Some (start_text, end_text) \<Rightarrow>
          try_bind (parse_cron_number start_text lo hi) (\<lambda>start.
          try_bind (parse_cron_number end_text lo hi) (\<lambda>stop.
          if start > stop then Err (Bail (''Invalid cron range: '' @ range_text)) else Ok (start, stop)))
      | None \<Rightarrow> try_bind (parse_cron_number range_text lo hi) (\<lambda>value. Ok (value, value)))"

fun parse_cron_parts ::
  "string \<Rightarrow> nat \<Rightarrow> nat \<Rightarrow> string list \<Rightarrow> (nat, unit) btree \<Rightarrow> ((nat, unit) btree, cron_error) result" where
  "parse_cron_parts field lo hi [] values = Ok values"
| "parse_cron_parts field lo hi (part # parts) values =
     (if part = [] then Err (Bail (''Invalid cron field: '' @ field))
      else
        (let (range_text, step_text) = (case split_once ''/'' part of
               Some (range_text, step_text) \<Rightarrow> (range_text, Some step_text)
             | None \<Rightarrow> (part, None))
         in try_bind (case step_text of None \<Rightarrow> Ok 1 | Some step_text \<Rightarrow> parse_cron_number step_text 1 hi) (\<lambda>step.
            try_bind (range_bounds range_text lo hi) (\<lambda>(start, stop).
            parse_cron_parts field lo hi parts (insert_range start stop step values)))))"

definition parse_cron_field :: "string \<Rightarrow> nat \<Rightarrow> nat \<Rightarrow> ((nat, unit) btree, cron_error) result" where
  "parse_cron_field field lo hi = parse_cron_parts field lo hi (split_char (CHR '','') field) []"

definition parse_cron_expression :: "string \<Rightarrow> (cron_fields, cron_error) result" where
  "parse_cron_expression text0 = (case split_whitespace text0 of
     [minute_text, hour_text, day_text, month_text, weekday_text] \<Rightarrow>
       try_bind (parse_cron_field minute_text 0 59) (\<lambda>minutes.
       try_bind (parse_cron_field hour_text 0 23) (\<lambda>hours.
       try_bind (parse_cron_field day_text 1 31) (\<lambda>days.
       try_bind (parse_cron_field month_text 1 12) (\<lambda>months.
       try_bind (parse_cron_field weekday_text 0 7) (\<lambda>weekdays.
       Ok \<lparr>minute_field = minutes, hour_field = hours, day_of_month_field = days,
           month_field = months, day_of_week_field = weekdays\<rparr>)))))
   | _ \<Rightarrow> Err (Bail ''Unsupported cron schedule. Use 'in 10m', 'at <ISO date>', @hourly, or five fields: minute hour day month weekday''))"

definition civil_time :: "nat \<Rightarrow> nat \<times> nat \<times> nat \<times> nat \<times> nat" where
  "civil_time timestamp_ms =
     (let days = timestamp_ms div (24 * 60 * ONE_MINUTE_MS);
          seconds_of_day = (timestamp_ms mod (24 * 60 * ONE_MINUTE_MS)) div ONE_SECOND_MS;
          minute = (seconds_of_day div 60) mod 60;
          hour = seconds_of_day div 3600;
          z = int days + 719468;
          doe = z mod 146097;
          yoe = (doe - doe div 1460 + doe div 36524 - doe div 146096) div 365;
          doy = doe - (365 * yoe + yoe div 4 - yoe div 100);
          mp = (5 * doy + 2) div 153;
          day = doy - (153 * mp + 2) div 5 + 1;
          month = (if mp < 10 then mp + 3 else mp - 9);
          weekday = (days + 4) mod 7
      in (minute, hour, nat day, nat month, weekday))"

definition has_value :: "(nat, unit) btree \<Rightarrow> nat \<Rightarrow> bool" where
  "has_value values v \<longleftrightarrow> bt_get values v \<noteq> None"

definition matches_cron_fields :: "nat \<Rightarrow> cron_fields \<Rightarrow> bool" where
  "matches_cron_fields timestamp_ms cron =
     (case civil_time timestamp_ms of (minute, hour, day, month, weekday) \<Rightarrow>
        has_value (minute_field cron) minute
        \<and> has_value (hour_field cron) hour
        \<and> has_value (day_of_month_field cron) day
        \<and> has_value (month_field cron) month
        \<and> (has_value (day_of_week_field cron) weekday
           \<or> weekday = 0 \<and> has_value (day_of_week_field cron) 7))"

function cron_search :: "cron_fields \<Rightarrow> nat \<Rightarrow> nat \<Rightarrow> nat option" where
  "cron_search cron candidate deadline =
     (if deadline < candidate then None
      else if matches_cron_fields candidate cron then Some candidate
      else cron_search cron (candidate + ONE_MINUTE_MS) deadline)"
  by pat_completeness auto
termination
  by (relation "measure (\<lambda>(cron, candidate, deadline). Suc deadline - candidate)")
    (auto simp: ONE_MINUTE_MS_def ONE_SECOND_MS_def)

declare cron_search.simps [simp del]

definition next_cron_run_after :: "string \<Rightarrow> nat \<Rightarrow> (nat, cron_error) result" where
  "next_cron_run_after text0 after_millis =
     try_bind (parse_cron_expression text0) (\<lambda>cron.
       let candidate = (after_millis div ONE_MINUTE_MS + 1) * ONE_MINUTE_MS;
           deadline = candidate + 366 * 24 * 60 * ONE_MINUTE_MS
       in case cron_search cron candidate deadline of
            Some run \<Rightarrow> Ok run
          | None \<Rightarrow> Err (Bail (''Cron schedule did not match within one year: '' @ text0)))"

definition normalize_cron_alias :: "string \<Rightarrow> string" where
  "normalize_cron_alias s =
     (if s = ''@hourly'' then ''0 * * * *''
      else if s = ''@daily'' then ''0 0 * * *''
      else if s = ''@weekly'' then ''0 0 * * 0''
      else if s = ''@monthly'' then ''0 0 1 * *''
      else s)"

definition strip_matching_quotes :: "string \<Rightarrow> string" where
  "strip_matching_quotes value =
     (if length value \<ge> 2 \<and> (hd value = CHR 0x22 \<and> last value = CHR 0x22 \<or> hd value = CHR 0x27 \<and> last value = CHR 0x27)
      then butlast (tl value) else value)"

subsection \<open>Schedules\<close>

fun recurring_schedule ::
  "string list \<Rightarrow> string \<Rightarrow> string \<Rightarrow> nat \<Rightarrow> ((agent_cron_schedule \<times> nat) option, cron_error) result" where
  "recurring_schedule [] text0 lower now_millis = Ok None"
| "recurring_schedule (prefix # prefixes) text0 lower now_millis =
     (case strip_prefix prefix lower of
        None \<Rightarrow> recurring_schedule prefixes text0 lower now_millis
      | Some rest \<Rightarrow> try_bind (parse_every_delay rest now_millis) (\<lambda>found. case found of
           None \<Rightarrow> recurring_schedule prefixes text0 lower now_millis
         | Some run \<Rightarrow> Ok (Some
             (\<lparr>kind = Interval, expression = text0, interval_ms = Some (wrapping_sub64 run now_millis)\<rparr>, run))))"

definition one_shot_at :: "string \<Rightarrow> nat \<Rightarrow> (agent_cron_schedule \<times> nat, cron_error) result" where
  "one_shot_at text0 now_millis =
     try_bind (slice_from text0 3) (\<lambda>rest.
     try_bind (parse_iso_millis (trim rest)) (\<lambda>parsed. case parsed of
       None \<Rightarrow> Err (Bail ''Invalid one-shot schedule. Use: at <ISO date>'')
     | Some run \<Rightarrow>
         if run \<le> now_millis then Err (Bail ''One-shot schedule must be in the future'')
         else Ok (\<lparr>kind = Once, expression = text0, interval_ms = None\<rparr>, run)))"

definition parse_agent_cron_schedule ::
  "case_table \<Rightarrow> string \<Rightarrow> nat \<Rightarrow> (agent_cron_schedule \<times> nat, cron_error) result" where
  "parse_agent_cron_schedule table input now_millis =
     (let text0 = strip_matching_quotes (trim input); lower = to_lowercase table text0 in
      if text0 = [] then Err (Bail ''Cron schedule cannot be empty'')
      else case (case strip_prefix ''in '' lower of None \<Rightarrow> None | Some rest \<Rightarrow> parse_in_delay rest now_millis) of
        Some run \<Rightarrow> Ok (\<lparr>kind = Once, expression = text0, interval_ms = None\<rparr>, run)
      | None \<Rightarrow> try_bind (recurring_schedule [''every '', ''each ''] text0 lower now_millis) (\<lambda>found. case found of
           Some parsed \<Rightarrow> Ok parsed
         | None \<Rightarrow>
             if starts_with ''at '' lower then one_shot_at text0 now_millis
             else let cron_text = normalize_cron_alias text0 in
               try_bind (next_cron_run_after cron_text now_millis) (\<lambda>run.
               Ok (\<lparr>kind = Cron, expression = cron_text, interval_ms = None\<rparr>, run))))"

definition next_run_at_for_schedule :: "agent_cron_schedule \<Rightarrow> nat \<Rightarrow> (nat option, cron_error) result" where
  "next_run_at_for_schedule schedule after_millis = (case kind schedule of
     Once \<Rightarrow> Ok None
   | Interval \<Rightarrow> (case interval_ms schedule of
        None \<Rightarrow> Err (Bail (''Invalid interval schedule: '' @ expression schedule))
      | Some interval \<Rightarrow>
          if interval = 0 then Err (Bail (''Invalid interval schedule: '' @ expression schedule))
          else Ok (Some (wrapping_add64 after_millis interval)))
   | Cron \<Rightarrow> try_bind (next_cron_run_after (expression schedule) after_millis) (\<lambda>run. Ok (Some run)))"

definition is_due_job :: "agent_cron_job \<Rightarrow> nat \<Rightarrow> (bool, cron_error) result" where
  "is_due_job job now_millis =
     (if job_status job \<noteq> Active then Ok False
      else case job_next_run_at job of
        None \<Rightarrow> Ok False
      | Some stamp \<Rightarrow> try_bind (parse_iso_millis stamp) (\<lambda>parsed. Ok (case parsed of
          None \<Rightarrow> False | Some run \<Rightarrow> run \<le> now_millis)))"

subsection \<open>Heartbeats\<close>

definition normalize_heartbeat_schedule :: "string option \<Rightarrow> string" where
  "normalize_heartbeat_schedule input =
     (case input of
        None \<Rightarrow> DEFAULT_HEARTBEAT_SCHEDULE
      | Some raw \<Rightarrow>
          let s = trim raw in
          if s = [] then DEFAULT_HEARTBEAT_SCHEDULE
          else case split_amount_unit s of
            Some (_, unit_text) \<Rightarrow>
              if unit_text \<noteq> [] \<and> unit_multiplier unit_text True \<noteq> None then ''every '' @ s else s
          | None \<Rightarrow> s)"

definition normalize_heartbeat_delivery_mode :: "string option \<Rightarrow> (delivery_mode option, cron_error) result" where
  "normalize_heartbeat_delivery_mode value = (case value of
     None \<Rightarrow> Ok None
   | Some mode \<Rightarrow>
       if mode = ''steer'' then Ok (Some Steer)
       else if mode = ''follow_up'' then Ok (Some FollowUp)
       else Err (Bail ''Heartbeat delivery mode must be \"steer\" or \"follow_up\"''))"

definition resolve_heartbeat_streaming_behavior :: "delivery_mode option \<Rightarrow> string" where
  "resolve_heartbeat_streaming_behavior mode =
     (case (case mode of None \<Rightarrow> DEFAULT_HEARTBEAT_DELIVERY_MODE | Some m \<Rightarrow> m) of
        FollowUp \<Rightarrow> ''followUp''
      | Steer \<Rightarrow> ''steer'')"

definition is_heartbeat_cron_job :: "agent_cron_job \<Rightarrow> bool" where
  "is_heartbeat_cron_job job \<longleftrightarrow> job_source job \<in> {Some ''heartbeat'', Some ''rlm_heartbeat''}"

definition should_defer_heartbeat_cron_job :: "agent_cron_job \<Rightarrow> heartbeat_session_activity \<Rightarrow> bool" where
  "should_defer_heartbeat_cron_job job activity =
     (if \<not> is_heartbeat_cron_job job then False
      else if is_compacting activity \<or> is_retrying activity \<or> is_bash_running activity
           \<or> has_pending_session_work activity \<or> (\<not> is_streaming activity \<and> unfinished_action_count activity > 0)
      then True
      else if resolve_heartbeat_streaming_behavior (job_delivery_mode job) = ''steer'' then False
      else is_streaming activity)"

definition status_text :: "job_status \<Rightarrow> string" where
  "status_text status = (case status of
     Active \<Rightarrow> ''active'' | Paused \<Rightarrow> ''paused'' | Completed_Job \<Rightarrow> ''completed'' | Cancelled \<Rightarrow> ''cancelled'')"

definition format_agent_cron_job :: "agent_cron_job \<Rightarrow> string" where
  "format_agent_cron_job job =
     (let or_dash = (\<lambda>v. case v of None \<Rightarrow> ''-'' | Some s \<Rightarrow> s);
          shown = (\<lambda>before after v. case v of None \<Rightarrow> [] | Some s \<Rightarrow> before @ s @ after);
          preview = chars_take 80 (join_str '' '' (split_whitespace (job_prompt job)))
      in job_id job @ '' '' @ status_text (job_status job) @ shown '' label=\"'' ''\"'' (job_label job)
         @ '' next='' @ or_dash (job_next_run_at job) @ '' last='' @ or_dash (job_last_run_at job)
         @ shown '' skipped='' [] (job_last_skipped_at job)
         @ '' runs='' @ show_nat (unat (job_run_count job))
         @ '' schedule=\"'' @ expression (job_schedule job) @ ''\" prompt=\"'' @ preview @ ''\"''
         @ shown '' error='' [] (job_last_error job))"

end
