(* ===== verification/Cron_Times.thy ===== *)
theory Cron_Times
  imports Cron_Schedule
begin

text \<open>
  The scheduler's calendar: its timestamps are the daemon's, they are read back exactly, and the cron search
  finds the first matching minute of the calendar.
\<close>

subsection \<open>Printing\<close>

lemma wrap_i64_id: "- (2 ^ 63) \<le> z \<Longrightarrow> z < 2 ^ 63 \<Longrightarrow> wrap_i64 z = z"
  by (simp add: wrap_i64_def)

lemma as_u64_id: "0 \<le> z \<Longrightarrow> z < 2 ^ 64 \<Longrightarrow> as_u64 z = nat z"
  by (simp add: as_u64_def)

lemma clock_of_day:
  fixes ms :: nat
  defines "secs \<equiv> ms div 1000" and "tod \<equiv> ms mod 86400000"
  shows "secs div 86400 = ms div 86400000" "secs mod 86400 = tod div 1000"
    "secs mod 86400 div 3600 = tod div 3600000"
    "secs mod 86400 mod 3600 div 60 = tod div 60000 mod 60" "secs mod 86400 mod 60 = tod div 1000 mod 60"
    "ms mod 1000 = tod mod 1000"
proof -
  show days: "secs div 86400 = ms div 86400000" unfolding secs_def by (simp add: div_mult2_eq [symmetric])
  have tod: "ms = 86400000 * (ms div 86400000) + tod" "tod < 86400000" unfolding tod_def by simp_all
  then have "secs = 86400 * (ms div 86400000) + tod div 1000" unfolding secs_def by linarith
  then show sod: "secs mod 86400 = tod div 1000" using days by (simp add: minus_mult_div_eq_mod [symmetric])
  show "secs mod 86400 div 3600 = tod div 3600000" unfolding sod by (simp add: div_mult2_eq [symmetric])
  show "secs mod 86400 mod 3600 div 60 = tod div 60000 mod 60" unfolding sod
    by (simp add: mod_mult2_eq [of _ 60 60, simplified] div_mult2_eq [symmetric])
  show "secs mod 86400 mod 60 = tod div 1000 mod 60" unfolding sod ..
  show "ms mod 1000 = tod mod 1000" unfolding tod_def by (simp add: mod_mod_cancel)
qed

lemma format_iso_civil:
  assumes "0 \<le> millis"
  shows "format_iso millis = (case civil_from_days (millis div 86400000) of (year, month, day) \<Rightarrow>
     let tod = nat (millis mod 86400000) in
     show_int04 year @ ''-'' @ pad_zero 2 (show_nat (nat month)) @ ''-'' @ pad_zero 2 (show_nat (nat day))
       @ ''T'' @ pad_zero 2 (show_nat (tod div 3600000)) @ '':'' @ pad_zero 2 (show_nat (tod div 60000 mod 60)) @ '':''
       @ pad_zero 2 (show_nat (tod div 1000 mod 60)) @ ''.'' @ pad_zero 3 (show_nat (tod mod 1000)) @ ''Z'')"
proof -
  define z where "z = millis div 86400000 + 719468"
  have z: "0 \<le> z" "z - z div 146097 * 146097 = z mod 146097"
    using assms by (simp_all add: z_def minus_div_mult_eq_mod pos_imp_zdiv_nonneg_iff)
  show ?thesis
    unfolding format_iso_def civil_from_days_def z_def [symmetric] Let_def
    using z(1) by (simp only: z(2) if_True prod.case)
qed

lemma format_iso_eq: "format_iso (int ms) = iso_from_unix_ms ms"
proof -
  have days: "int ms div 86400000 = int (ms div 86400000)" "nat (int ms mod 86400000) = ms mod 86400000"
    by (simp_all add: zdiv_int zmod_int nat_mod_distrib)
  have "int (ms div 1000) div 86400 = int (ms div 86400000)" "nat (int (ms div 1000) mod 86400) = ms div 1000 mod 86400"
    using clock_of_day(1) [of ms] by (simp_all add: zdiv_int [symmetric] nat_mod_distrib)
  moreover have "0 \<le> int ms" by simp
  ultimately show ?thesis
    by (simp only: format_iso_civil iso_from_unix_ms_def Let_def days clock_of_day(3-6) [of ms])
qed

lemma iso_from_millis_eq: "ms < 2 ^ 63 \<Longrightarrow> iso_from_millis ms = iso_from_unix_ms ms"
  by (simp add: iso_from_millis_def wrap_i64_id format_iso_eq)

subsection \<open>Reading back\<close>

lemma try_bind_Ok:
  assumes "try_bind r f = Ok y"
  obtains x where "r = Ok x" "f x = Ok y"
  using assms by (cases r) auto

text \<open>Instants whose printed year has four digits.\<close>

definition printable :: "nat \<Rightarrow> bool" where
  "printable ms \<longleftrightarrow> ms < 253402300800000"

abbreviation padded :: "nat \<Rightarrow> nat \<Rightarrow> string" where
  "padded w n \<equiv> pad_zero w (show_nat n)"

lemma padded_no_mark: "\<not> is_ascii_digit c \<Longrightarrow> c \<notin> set (padded w n)"
  using pad_zero_digits [of w n] by (auto simp: list_all_iff)

lemma marks_not_digits:
  "\<not> is_ascii_digit (CHR ''-'')" "\<not> is_ascii_digit (CHR '':'')" "\<not> is_ascii_digit (CHR ''.'')"
  "\<not> is_ascii_digit (CHR ''T'')" "\<not> is_ascii_digit (CHR ''Z'')" "\<not> is_ascii_digit (CHR ''/'')" "\<not> is_ascii_digit (CHR '','')"
  by (simp_all add: is_ascii_digit_def)

lemmas padded_marks = padded_no_mark [OF marks_not_digits(1)] padded_no_mark [OF marks_not_digits(2)]
  padded_no_mark [OF marks_not_digits(3)] padded_no_mark [OF marks_not_digits(4)] padded_no_mark [OF marks_not_digits(5)]

lemma fraction_pad_padded: "n < 1000 \<Longrightarrow> fraction_pad (padded 3 n) = Some (int n)"
proof -
  assume n: "n < 1000"
  then have "length (padded 3 n) = 3" by (simp add: length_pad_zero)
  moreover from this have "padded 3 n \<noteq> []" by (metis list.size(3) zero_neq_numeral)
  ultimately show ?thesis
    using pad_zero_digits [of 3 n] n by (simp add: fraction_pad_def parse_i64_pad_zero)
qed

lemma split_clock:
  "split_char (CHR '':'') (padded a h @ '':'' @ padded b m @ '':'' @ padded c s @ ''.'' @ padded d f)
    = [padded a h, padded b m, padded c s @ ''.'' @ padded d f]"
  using padded_marks(2) by (simp add: split_char_append split_char_no_sep)

lemma parse_clock_padded:
  assumes "h \<le> 23" "m \<le> 59" "s \<le> 59" "f < 1000"
  shows "parse_clock (padded 2 h @ '':'' @ padded 2 m @ '':'' @ padded 2 s @ ''.'' @ padded 3 f)
    = Some (int h * 3600000 + int m * 60000 + int s * 1000 + int f)"
proof -
  have "split_once ''.'' (padded 2 s @ ''.'' @ padded 3 f) = Some (padded 2 s, padded 3 f)"
    using split_once_char [OF padded_marks(3) [of 2 s]] by simp
  then show ?thesis
    using assms unfolding parse_clock_def split_clock by (simp add: Let_def fraction_pad_padded parse_i64_pad_zero)
qed

lemma parse_date_padded:
  assumes "y < 2 ^ 62" "1 \<le> m" "m \<le> 12" "1 \<le> d" "d \<le> 31"
  shows "parse_date_days (padded 4 y @ ''-'' @ padded 2 m @ ''-'' @ padded 2 d) = Some (days_from_civil (int y) (int m) (int d))"
proof -
  have split: "split_char (CHR ''-'') (padded 4 y @ ''-'' @ padded 2 m @ ''-'' @ padded 2 d) = [padded 4 y, padded 2 m, padded 2 d]"
    using padded_marks(1) by (simp add: split_char_append split_char_no_sep)
  have year: "parse_i64 (padded 4 y) = Some (int y)" using assms(1) by (intro parse_i64_pad_zero) simp
  have "wrap_i64 (int y - 1) = int y - 1" using assms(1) by (intro wrap_i64_id) simp_all
  moreover have "int (if m > 2 then m - 3 else m + 9) = (int m + 9) mod 12"
  proof (cases "m > 2")
    case True
    then have "int m + 9 = int (m - 3) + 12" by linarith
    then have "(int m + 9) mod 12 = int (m - 3) mod 12" by (simp only: mod_add_self2)
    also have "\<dots> = int (m - 3)" using assms(3) by (intro mod_pos_pos_trivial) auto
    finally show ?thesis using True by simp
  qed simp
  moreover have "parse_u32 (padded 2 m) = Some m" "parse_u32 (padded 2 d) = Some d" using assms by (simp_all add: parse_padded)
  moreover have "\<not> (\<not> (1 \<le> m \<and> m \<le> 12) \<or> \<not> (1 \<le> d \<and> d \<le> 31))" "int m \<le> 2 \<longleftrightarrow> m \<le> 2" using assms by auto
  ultimately show ?thesis
    unfolding parse_date_days_def split days_from_civil_def
    by (simp only: year list.case bind.bind_lunit Let_def if_False)
qed

lemma parse_iso_iso:
  assumes "printable ms"
  shows "parse_iso_millis (iso_from_millis ms) = Ok (Some ms)"
proof -
  obtain y m d where ymd: "civil_from_days (int (ms div 86400000)) = (y, m, d)" by (metis prod_cases3)
  note V = civil_from_days_valid [OF ymd]
  have Y: "0 \<le> y" "y \<le> 9999" using civil_year_bounds [OF ymd] assms by (auto simp: printable_def)
  have d31: "d \<le> 31" using V(4) by (auto simp: days_in_month_def split: if_splits)
  define tod where "tod = ms mod 86400000"
  let ?h = "tod div 3600000" and ?m = "tod div 60000 mod 60" and ?s = "tod div 1000 mod 60" and ?f = "tod mod 1000"
  let ?date = "padded 4 (nat y) @ ''-'' @ padded 2 (nat m) @ ''-'' @ padded 2 (nat d)"
  let ?clock = "padded 2 ?h @ '':'' @ padded 2 ?m @ '':'' @ padded 2 ?s @ ''.'' @ padded 3 ?f"
  have tod: "tod < 86400000" unfolding tod_def by simp
  have ms: "int ms div 86400000 = int (ms div 86400000)" "nat (int ms mod 86400000) = tod" "0 \<le> int ms"
    by (simp_all add: zdiv_int zmod_int nat_mod_distrib tod_def)
  have iso: "iso_from_millis ms = format_iso (int ms)"
    using assms by (simp add: iso_from_millis_def wrap_i64_id printable_def)
  have stamp: "iso_from_millis ms = ?date @ CHR ''T'' # (?clock @ ''Z'')"
    using Y(1) iso by (simp only: format_iso_civil ms ymd show_int04_def Let_def prod.case if_True append_assoc append_Cons append_Nil)
  have "list_all (\<lambda>c. \<not> is_utf8_continuation c \<and> \<not> is_whitespace [c]) (padded w n)" for w n
    using pad_zero_digits [of w n] digit_solid by (auto simp: list_all_iff)
  then have trim: "trim (iso_from_millis ms) = iso_from_millis ms"
    unfolding stamp by (intro trim_solid) (simp add: is_utf8_continuation_def is_whitespace_def)
  have split: "split_once ''T'' (iso_from_millis ms) = Some (?date, ?clock @ ''Z'')"
    unfolding stamp by (rule split_once_char) (simp add: padded_marks)
  have date: "parse_date_days ?date = Some (int (ms div 86400000))"
    using parse_date_padded [of "nat y" "nat m" "nat d"] V Y d31 by simp
  have "strip_suffix ''Z'' (?clock @ ''Z'') = Some ?clock" by (simp add: strip_suffix_Some_iff)
  moreover have "parse_clock ?clock = Some (int tod)"
  proof -
    have "tod div 1000 div 60 = tod div 60000" "tod div 60000 div 60 = ?h" by (simp_all add: div_mult2_eq [symmetric])
    then have "tod = ?h * 3600000 + ?m * 60000 + ?s * 1000 + ?f"
      using div_mult_mod_eq [of tod 1000] div_mult_mod_eq [of "tod div 1000" 60] div_mult_mod_eq [of "tod div 60000" 60]
      by linarith
    then have "int tod = int ?h * 3600000 + int ?m * 60000 + int ?s * 1000 + int ?f" by linarith
    moreover have "?h \<le> 23" "?m \<le> 59" "?s \<le> 59" "?f < 1000" using tod by (simp_all add: less_Suc_eq_le [symmetric] less_mult_imp_div_less)
    ultimately show ?thesis by (simp only: parse_clock_padded)
  qed
  ultimately have clock: "parse_time_with_offset (?clock @ ''Z'') = Ok (Some (int tod, 0))"
    by (simp add: parse_time_with_offset_def split_offset_def)
  have "int (ms div 86400000) * 24 * 60 * 60 * 1000 + int tod - 0 = int ms"
    using div_mult_mod_eq [of ms 86400000] unfolding tod_def by linarith
  moreover have "as_u64 (int ms) = ms" using assms by (simp add: as_u64_id printable_def)
  ultimately show ?thesis by (simp only: parse_iso_millis_def trim split option.case prod.case date clock try_bind.simps)
qed

subsection \<open>The cron search\<close>

lemma civil_time_civil:
  assumes "civil_from_days (int (t div 86400000)) = (y, m, d)"
  shows "civil_time t = (t div 60000 mod 60, t div 3600000 mod 24, nat d, nat m, (t div 86400000 + 4) mod 7)"
proof -
  have "t mod 86400000 div 1000 div 60 mod 60 = t div 60000 mod 60"
  proof -
    have "t mod 86400000 div 1000 div 60 = t div 60000 mod 1440"
      using mod_mult2_eq [of t 60000 1440] by (simp add: div_mult2_eq [symmetric])
    then show ?thesis by (simp add: mod_mod_cancel)
  qed
  moreover have "t mod 86400000 div 1000 div 3600 = t div 3600000 mod 24"
    using mod_mult2_eq [of t 3600000 24] by (simp add: div_mult2_eq [symmetric])
  moreover have "24 * 60 * ONE_MINUTE_MS = 86400000" "ONE_SECOND_MS = 1000" by (simp_all add: ONE_MINUTE_MS_def ONE_SECOND_MS_def)
  ultimately show ?thesis
    using assms unfolding civil_time_def civil_from_days_def Let_def by (simp only: prod.inject)
qed

text \<open>
  When an expression fires, said with the calendar: at the minute and hour of the day, on the date whose day
  number the instant has, on its day of the week counted from Thursday 1 January 1970 (day 0); Sunday is 0 or 7.
\<close>

definition fires :: "cron_fields \<Rightarrow> nat \<Rightarrow> bool" where
  "fires cron t \<longleftrightarrow> (\<exists>y m d. valid_date y m d \<and> days_from_civil y m d = int (t div 86400000)
     \<and> has_value (month_field cron) (nat m) \<and> has_value (day_of_month_field cron) (nat d)
     \<and> has_value (hour_field cron) (t div 3600000 mod 24) \<and> has_value (minute_field cron) (t div 60000 mod 60)
     \<and> (\<exists>w. has_value (day_of_week_field cron) w \<and> w mod 7 = (t div 86400000 + 4) mod 7 \<and> w \<le> 7))"

lemma matches_iff_fires: "matches_cron_fields t cron \<longleftrightarrow> fires cron t"
proof -
  obtain y m d where ymd: "civil_from_days (int (t div 86400000)) = (y, m, d)" by (metis prod_cases3)
  note V = civil_from_days_valid [OF ymd]
  have valid: "valid_date y m d" using V by (simp add: valid_date_def)
  have unique: "y' = y \<and> m' = m \<and> d' = d"
    if "valid_date y' m' d'" "days_from_civil y' m' d' = int (t div 86400000)" for y' m' d'
    using civil_from_days_from_civil [of m' d' y'] that ymd by (auto simp: valid_date_def)
  define wd where "wd = (t div 86400000 + 4) mod 7"
  have "wd < 7" unfolding wd_def by simp
  then have seven: "w mod 7 = wd \<and> w \<le> 7 \<longleftrightarrow> w = wd \<or> w = 7 \<and> wd = 0" for w
    by (cases "w = 7") auto
  have week: "(\<exists>w. has_value (day_of_week_field cron) w \<and> w mod 7 = wd \<and> w \<le> 7)
      \<longleftrightarrow> has_value (day_of_week_field cron) wd \<or> wd = 0 \<and> has_value (day_of_week_field cron) 7" unfolding seven by blast
  show ?thesis
    unfolding matches_cron_fields_def fires_def civil_time_civil [OF ymd] prod.case wd_def [symmetric] week
    using valid V(5) unique by blast
qed

lemma cron_search_first:
  "case cron_search cron candidate deadline of
     Some run \<Rightarrow> candidate \<le> run \<and> run \<le> deadline \<and> run mod 60000 = candidate mod 60000 \<and> fires cron run
       \<and> (\<forall>t. t mod 60000 = candidate mod 60000 \<and> candidate \<le> t \<and> t < run \<longrightarrow> \<not> fires cron t)
   | None \<Rightarrow> \<forall>t. t mod 60000 = candidate mod 60000 \<and> candidate \<le> t \<and> t \<le> deadline \<longrightarrow> \<not> fires cron t"
proof (induction cron candidate deadline rule: cron_search.induct)
  case (1 cron candidate deadline)
  have minute: "ONE_MINUTE_MS = 60000" by (simp add: ONE_MINUTE_MS_def ONE_SECOND_MS_def)
  have ahead: "t = candidate \<or> candidate + 60000 \<le> t" if "t mod 60000 = candidate mod 60000" "candidate \<le> t" for t
  proof -
    have "60000 dvd t - candidate" using that by (simp add: mod_eq_dvd_iff_nat)
    then have "t - candidate = 0 \<or> 60000 \<le> t - candidate" using dvd_imp_le by blast
    then show ?thesis using that(2) by linarith
  qed
  show ?case
  proof (cases "deadline < candidate \<or> matches_cron_fields candidate cron")
    case True
    then show ?thesis
      by (cases "deadline < candidate") (auto simp: matches_iff_fires cron_search.simps [of cron candidate])
  next
    case False
    then have here: "\<not> fires cron candidate" and step: "cron_search cron candidate deadline = cron_search cron (candidate + 60000) deadline"
      by (auto simp: matches_iff_fires minute cron_search.simps [of cron candidate])
    have IH: "case cron_search cron (candidate + 60000) deadline of
        Some run \<Rightarrow> candidate + 60000 \<le> run \<and> run \<le> deadline \<and> run mod 60000 = candidate mod 60000 \<and> fires cron run
          \<and> (\<forall>t. t mod 60000 = candidate mod 60000 \<and> candidate + 60000 \<le> t \<and> t < run \<longrightarrow> \<not> fires cron t)
      | None \<Rightarrow> \<forall>t. t mod 60000 = candidate mod 60000 \<and> candidate + 60000 \<le> t \<and> t \<le> deadline \<longrightarrow> \<not> fires cron t"
      using "1.IH" False by (simp only: minute mod_add_self2 not_False_eq_True de_Morgan_disj)
    show ?thesis
    proof (cases "cron_search cron (candidate + 60000) deadline")
      case None
      with IH here ahead show ?thesis unfolding step by auto
    next
      case (Some run)
      with IH here ahead show ?thesis unfolding step by auto
    qed
  qed
qed

lemma run_window:
  "(after div 60000 + 1) * 60000 \<le> t \<longleftrightarrow> after < t" if "t mod 60000 = 0" for after t :: nat
proof -
  obtain k where t: "t = k * 60000" using \<open>t mod 60000 = 0\<close> by (metis mod_eq_0_iff_dvd dvd_def mult.commute)
  have "(after div 60000 + 1) * 60000 \<le> k * 60000 \<longleftrightarrow> after div 60000 < k" by (simp only: mult_le_cancel2 Suc_eq_plus1 [symmetric] Suc_le_eq) simp
  then show ?thesis unfolding t by (simp only: div_less_iff_less_mult zero_less_numeral)
qed

definition year_of_minutes :: nat where
  "year_of_minutes = 366 * 24 * 60 * 60000"

lemma next_cron_run_first:
  assumes "parse_cron_expression source = Ok cron"
  shows "case next_cron_run_after source after of
     Ok run \<Rightarrow> run mod 60000 = 0 \<and> after < run \<and> fires cron run
       \<and> (\<forall>t. t mod 60000 = 0 \<and> after < t \<and> t < run \<longrightarrow> \<not> fires cron t)
   | Err e \<Rightarrow> \<forall>t. t mod 60000 = 0 \<and> after < t \<and> t \<le> after + year_of_minutes \<longrightarrow> \<not> fires cron t"
proof -
  let ?candidate = "(after div 60000 + 1) * 60000"
  let ?deadline = "?candidate + year_of_minutes"
  have sizes: "ONE_MINUTE_MS = 60000" "366 * 24 * 60 * (60000 :: nat) = year_of_minutes"
    by (simp_all add: ONE_MINUTE_MS_def ONE_SECOND_MS_def year_of_minutes_def)
  have run: "next_cron_run_after source after = (case cron_search cron ?candidate ?deadline of
      Some run \<Rightarrow> Ok run | None \<Rightarrow> Err (Bail (''Cron schedule did not match within one year: '' @ source)))"
    by (simp only: next_cron_run_after_def assms try_bind.simps Let_def sizes)
  have zero: "?candidate mod 60000 = 0" by simp
  have window: "?candidate \<le> t \<longleftrightarrow> after < t" if "t mod 60000 = 0" for t by (rule run_window [OF that])
  have late: "after < ?candidate" using window [OF zero] by simp
  show ?thesis
  proof (cases "cron_search cron ?candidate ?deadline")
    case None
    then show ?thesis
      using cron_search_first [where cron = cron and candidate = ?candidate and deadline = ?deadline] window late unfolding run zero by force
  next
    case (Some first)
    then show ?thesis
      using cron_search_first [where cron = cron and candidate = ?candidate and deadline = ?deadline] window late unfolding run zero by force
  qed
qed

text \<open>
  C36. The next run of a cron schedule is the first one: where the search answers, the expression fires at that
  whole minute of the calendar, the minute lies after the given instant, and no earlier minute after the instant
  fires; where it refuses a well-formed expression, no minute of the following 366 days fires.
\<close>

theorem next_cron_run_is_first:
  assumes "parse_cron_expression source = Ok cron"
  shows "case next_cron_run_after source after of
     Ok run \<Rightarrow> run mod 60000 = 0 \<and> after < run \<and> fires cron run
       \<and> (\<forall>t. t mod 60000 = 0 \<and> after < t \<and> t < run \<longrightarrow> \<not> fires cron t)
   | Err e \<Rightarrow> \<forall>t. t mod 60000 = 0 \<and> after < t \<and> t \<le> after + year_of_minutes \<longrightarrow> \<not> fires cron t"
  using assms by (rule next_cron_run_first)

lemma insert_range_single: "insert_range v v (Suc 0) vals = bt_insert v () vals"
  by (simp add: insert_range.simps [of v] insert_range.simps [of "Suc v"])

lemma sample_cron_fields:
  "parse_cron_expression ''2 0 1 1 4'' = Ok \<lparr>minute_field = [(2, ())], hour_field = [(0, ())],
     day_of_month_field = [(1, ())], month_field = [(1, ())], day_of_week_field = [(4, ())]\<rparr>"
  by (simp add: parse_cron_expression_def split_whitespace_def is_utf8_continuation_def is_whitespace_def
      parse_cron_field_def range_bounds_def parse_cron_number_def parse_u32_def parse_unsigned_def parse_digits_def
      is_ascii_digit_def digit_value_def insert_range_single)

lemma sample_civil_time: "civil_time 60000 = (1, 0, 1, 1, 4)" "civil_time 120000 = (2, 0, 1, 1, 4)"
  by (simp_all only: civil_time_def ONE_MINUTE_MS_def ONE_SECOND_MS_def Let_def) simp_all

lemma sample_cron_search: "next_cron_run_after ''2 0 1 1 4'' 0 = Ok 120000"
proof -
  have "cron_search c 60000 d = Some 120000" if "c = \<lparr>minute_field = [(2, ())], hour_field = [(0, ())],
     day_of_month_field = [(1, ())], month_field = [(1, ())], day_of_week_field = [(4, ())]\<rparr>" "120000 \<le> d" for c d
    using that by (simp add: cron_search.simps [of _ 60000] cron_search.simps [of _ 120000] ONE_MINUTE_MS_def ONE_SECOND_MS_def
      matches_cron_fields_def sample_civil_time has_value_def)
  then show ?thesis by (simp add: next_cron_run_after_def sample_cron_fields Let_def ONE_MINUTE_MS_def ONE_SECOND_MS_def)
qed

theorem next_cron_run_is_first_witness:
  "\<exists>cron. parse_cron_expression ''2 0 1 1 4'' = Ok cron \<and> fires cron 120000 \<and> \<not> fires cron 60000"
  using next_cron_run_is_first [OF sample_cron_fields, of 0] unfolding sample_cron_search
  by (auto simp: sample_cron_fields)

subsection \<open>What a field of an expression denotes\<close>

text \<open>
  The items of a field: all values, a range, or one value, each with an optional step. A step counts from the
  first value of the item.
\<close>

datatype cron_range = AllValues | Span nat nat | Value nat

type_synonym cron_item = "cron_range \<times> nat option"

fun cron_range_text :: "cron_range \<Rightarrow> string" where
  "cron_range_text AllValues = ''*''"
| "cron_range_text (Span a b) = show_nat a @ ''-'' @ show_nat b"
| "cron_range_text (Value a) = show_nat a"

fun item_text :: "cron_item \<Rightarrow> string" where
  "item_text (r, None) = cron_range_text r"
| "item_text (r, Some step) = cron_range_text r @ ''/'' @ show_nat step"

fun range_limits :: "nat \<Rightarrow> nat \<Rightarrow> cron_range \<Rightarrow> nat \<times> nat" where
  "range_limits lo hi AllValues = (lo, hi)"
| "range_limits lo hi (Span a b) = (a, b)"
| "range_limits lo hi (Value a) = (a, a)"

definition item_step :: "cron_item \<Rightarrow> nat" where
  "item_step item = (case snd item of None \<Rightarrow> 1 | Some step \<Rightarrow> step)"

definition item_values :: "nat \<Rightarrow> nat \<Rightarrow> cron_item \<Rightarrow> nat set" where
  "item_values lo hi item = (case range_limits lo hi (fst item) of (a, b) \<Rightarrow>
     {a + k * item_step item |k. a + k * item_step item \<le> b})"

definition item_ok :: "nat \<Rightarrow> nat \<Rightarrow> cron_item \<Rightarrow> bool" where
  "item_ok lo hi item \<longleftrightarrow> (case range_limits lo hi (fst item) of (a, b) \<Rightarrow> lo \<le> a \<and> a \<le> b \<and> b \<le> hi)
     \<and> (case snd item of None \<Rightarrow> True | Some step \<Rightarrow> 1 \<le> step \<and> step \<le> hi)"

lemma has_value_bt_insert: "has_value (bt_insert v () vals) w \<longleftrightarrow> w = v \<or> has_value vals w"
  by (simp add: has_value_def bt.lookup_insert)

lemma insert_range_values:
  "0 < step \<Longrightarrow> has_value (insert_range a b step vals) v
     \<longleftrightarrow> has_value vals v \<or> (\<exists>k. v = a + k * step \<and> a + k * step \<le> b)"
proof (induction a b step vals rule: insert_range.induct)
  case (1 a b step vals)
  show ?case
  proof (cases "b < a")
    case True
    then show ?thesis by (subst insert_range.simps) auto
  next
    case False
    have shift: "(\<exists>k. v = a + step + k * step \<and> a + step + k * step \<le> b) \<longleftrightarrow> (\<exists>k. v = a + Suc k * step \<and> a + Suc k * step \<le> b)"
      by (simp add: add.assoc)
    have "(\<exists>k. v = a + k * step \<and> a + k * step \<le> b) \<longleftrightarrow> v = a \<or> (\<exists>k. v = a + Suc k * step \<and> a + Suc k * step \<le> b)"
      using False by (metis add.right_neutral mult_is_0 not0_implies_Suc not_less)
    then show ?thesis
      using False 1 by (simp add: insert_range.simps [of a] has_value_bt_insert shift) blast
  qed
qed

lemma show_nat_no_mark: "\<not> is_ascii_digit c \<Longrightarrow> c \<notin> set (show_nat n)"
  using show_nat_digits [of n] by (auto simp: list_all_iff)

lemmas show_nat_marks = show_nat_no_mark [OF marks_not_digits(1)] show_nat_no_mark [OF marks_not_digits(6)]
  show_nat_no_mark [OF marks_not_digits(7)]

lemma parse_cron_number_shown:
  assumes "lo \<le> n" "n \<le> hi" "hi < 2 ^ 32" shows "parse_cron_number (show_nat n) lo hi = Ok n"
proof -
  have "parse_u32 (show_nat n) = Some n"
    using parse_unsigned_pad_zero [of n "2 ^ 32 - 1" 0] assms by (simp add: parse_u32_def pad_zero_def)
  then show ?thesis using assms show_nat_digits by (simp add: parse_cron_number_def)
qed

lemma range_bounds_text:
  assumes "range_limits lo hi r = (a, b)" "lo \<le> a" "a \<le> b" "b \<le> hi" "hi < 2 ^ 32"
  shows "range_bounds (cron_range_text r) lo hi = Ok (a, b)"
proof (cases r)
  case AllValues
  then show ?thesis using assms(1) by (simp add: range_bounds_def)
next
  case (Span c d)
  then have "split_once ''-'' (cron_range_text r) = Some (show_nat a, show_nat b)"
    using split_once_char [OF show_nat_marks(1) [of a]] assms(1) by simp
  moreover have "cron_range_text r \<noteq> ''*''" using Span show_nat_nonempty [of c] by (cases "show_nat c") auto
  ultimately show ?thesis using assms by (simp add: range_bounds_def parse_cron_number_shown)
next
  case (Value c)
  then have "split_once ''-'' (cron_range_text r) = None" using show_nat_marks(1) split_once_char_None by simp
  moreover have "cron_range_text r \<noteq> ''*''" using Value show_nat_no_mark [of "CHR ''*''" c] by (auto simp: is_ascii_digit_def)
  ultimately show ?thesis using assms Value by (simp add: range_bounds_def parse_cron_number_shown)
qed

lemma range_text_marks: "CHR ''/'' \<notin> set (cron_range_text r)" "CHR '','' \<notin> set (cron_range_text r)" "cron_range_text r \<noteq> []"
  using show_nat_marks by (cases r; simp)+

lemma item_text_marks: "CHR '','' \<notin> set (item_text item)" "item_text item \<noteq> []"
  using range_text_marks show_nat_marks(3) by (cases item rule: item_text.cases; simp)+

lemma split_item_text:
  "split_once ''/'' (item_text (r, step)) = (case step of None \<Rightarrow> None | Some n \<Rightarrow> Some (cron_range_text r, show_nat n))"
  using range_text_marks(1) [of r] split_once_char [of "CHR ''/''" "cron_range_text r"] split_once_char_None
  by (cases step) auto

lemma parse_cron_parts_items:
  assumes "list_all (item_ok lo hi) items" "hi < 2 ^ 32"
  shows "\<exists>result. parse_cron_parts field lo hi (map item_text items) vals = Ok result
    \<and> (\<forall>v. has_value result v \<longleftrightarrow> has_value vals v \<or> (\<exists>item \<in> set items. v \<in> item_values lo hi item))"
  using assms(1)
proof (induction items arbitrary: vals)
  case (Cons item items)
  obtain r step where item: "item = (r, step)" by (cases item)
  obtain a b where limits: "range_limits lo hi r = (a, b)" by (cases "range_limits lo hi r")
  have ok: "lo \<le> a" "a \<le> b" "b \<le> hi" "\<And>n. step = Some n \<Longrightarrow> 1 \<le> n \<and> n \<le> hi"
    using Cons.prems limits by (auto simp: item item_ok_def)
  have step: "(case step of None \<Rightarrow> Ok 1 | Some n \<Rightarrow> parse_cron_number (show_nat n) 1 hi) = Ok (item_step item)"
    using ok(4) assms(2) by (cases step) (auto simp: item item_step_def parse_cron_number_shown)
  have pos: "0 < item_step item" using ok(4) by (cases step) (auto simp: item item_step_def)
  have "parse_cron_parts field lo hi (map item_text (item # items)) vals
      = parse_cron_parts field lo hi (map item_text items) (insert_range a b (item_step item) vals)"
    using item_text_marks(2) [of item] step range_bounds_text [OF limits ok(1-3) assms(2)]
    by (cases step) (simp_all add: item split_item_text del: item_text.simps, simp_all)
  moreover have "has_value (insert_range a b (item_step item) vals) v \<longleftrightarrow> has_value vals v \<or> v \<in> item_values lo hi item" for v
    using insert_range_values [OF pos] limits by (auto simp: item_values_def item)
  ultimately show ?case using Cons.IH Cons.prems by fastforce
qed simp

lemma split_char_joined:
  "parts \<noteq> [] \<Longrightarrow> list_all (\<lambda>part. c \<notin> set part) parts \<Longrightarrow> split_char c (join_str [c] parts) = parts"
  by (induction "[c]" parts rule: join_str.induct) (auto simp: split_char_no_sep split_char_append)

text \<open>
  C39. A field of a cron expression denotes the union of its items: printing any list of well-formed items and
  parsing the text yields exactly the values of the items, stepped ranges included.
\<close>

theorem cron_field_denotes_items:
  assumes "items \<noteq> []" "list_all (item_ok lo hi) items" "hi < 2 ^ 32"
  shows "\<exists>vals. parse_cron_field (join_str '','' (map item_text items)) lo hi = Ok vals
    \<and> (\<forall>v. has_value vals v \<longleftrightarrow> (\<exists>item \<in> set items. v \<in> item_values lo hi item))"
proof -
  have "split_char (CHR '','') (join_str '','' (map item_text items)) = map item_text items"
    using assms(1) item_text_marks(1) by (intro split_char_joined) (auto simp: list_all_iff)
  then show ?thesis
    using parse_cron_parts_items [OF assms(2,3), of "join_str '','' (map item_text items)" "[]"]
    by (simp add: parse_cron_field_def has_value_def)
qed

theorem cron_field_denotes_items_witness:
  "\<exists>vals. parse_cron_field ''*/15,7'' 0 59 = Ok vals \<and> has_value vals 45 \<and> has_value vals 7 \<and> \<not> has_value vals 50"
proof -
  let ?items = "[(AllValues, Some 15), (Value 7, None)] :: cron_item list"
  have shown: "show_nat 15 = ''15''" "show_nat 7 = ''7''" by code_simp+
  have "list_all (item_ok 0 59) ?items" by (simp add: item_ok_def)
  from cron_field_denotes_items [OF _ this] obtain vals where vals: "parse_cron_field ''*/15,7'' 0 59 = Ok vals"
    "\<And>v. has_value vals v \<longleftrightarrow> (\<exists>item \<in> set ?items. v \<in> item_values 0 59 item)" by (auto simp: shown)
  have "45 \<in> item_values 0 59 (AllValues, Some 15)" by (simp add: item_values_def item_step_def exI [of _ 3])
  moreover have "7 \<in> item_values 0 59 (Value 7, None)" by (simp add: item_values_def)
  moreover have "50 \<notin> item_values 0 59 (AllValues, Some 15)" by (simp add: item_values_def item_step_def) presburger
  moreover have "50 \<notin> item_values 0 59 (Value 7, None)" by (simp add: item_values_def item_step_def)
  ultimately show ?thesis using vals by auto
qed

subsection \<open>Schedules\<close>

text \<open>
  C40. The scheduler's timestamps are the daemon's, character for character, and the scheduler reads each of them
  back to the very millisecond it was printed from.
\<close>

theorem cron_timestamps_roundtrip:
  assumes "printable ms"
  shows "iso_from_millis ms = iso_from_unix_ms ms \<and> parse_iso_millis (iso_from_millis ms) = Ok (Some ms)"
  using assms parse_iso_iso iso_from_millis_eq by (simp add: printable_def)

theorem cron_timestamps_roundtrip_witness:
  "parse_iso_millis (iso_from_millis 1709251199999) = Ok (Some 1709251199999)"
proof -
  have "printable 1709251199999" by (simp add: printable_def)
  from cron_timestamps_roundtrip [OF this] show ?thesis ..
qed

lemma parse_every_delay_Some:
  assumes "parse_every_delay rest now = Ok (Some run)"
  obtains i where "10000 \<le> i" "i < 2 ^ 64" "run = wrapping_add64 now i"
proof -
  from assms obtain i where "\<not> i < 10000" "run = wrapping_add64 now i" "\<exists>a b. i = saturating_mul64 a b"
    by (auto simp: parse_every_delay_def Let_def ONE_SECOND_MS_def split: option.splits prod.splits if_splits)
  then show thesis using that [of i] by (auto simp: saturating_mul64_def)
qed

lemma wrapping_sub_add: "now < 2 ^ 64 \<Longrightarrow> i < 2 ^ 64 \<Longrightarrow> wrapping_sub64 (wrapping_add64 now i) now = i"
  by (simp add: wrapping_sub64_def wrapping_add64_def zmod_int mod_diff_left_eq)

lemma recurring_schedule_Some:
  assumes "recurring_schedule prefixes source lower now = Ok (Some (schedule, run))"
  obtains i where "10000 \<le> i" "i < 2 ^ 64" "run = wrapping_add64 now i"
    "schedule = \<lparr>kind = Interval, expression = source, interval_ms = Some (wrapping_sub64 run now)\<rparr>"
  using assms
proof (induction prefixes source lower now rule: recurring_schedule.induct)
  case (2 prefix prefixes source lower now)
  show ?case
  proof (cases "strip_prefix prefix lower")
    case None
    with 2 show ?thesis by simp
  next
    case (Some rest)
    note stripped = this
    show ?thesis
    proof (cases "parse_every_delay rest now")
      case (Ok found)
      with 2 stripped show ?thesis by (cases found) (auto elim: parse_every_delay_Some)
    qed (use 2 stripped in simp)
  qed
qed simp

text \<open>
  C37. What a schedule text promises is what the schedule does: the first run announced for a recurring schedule
  is the run its own next-run computation gives from the same instant, an interval is at least ten seconds, a
  cron run lies in the future, and a one-shot schedule has no further run.
\<close>

theorem schedule_first_run_consistent:
  assumes "parse_agent_cron_schedule table source now = Ok (schedule, run)" "now < 2 ^ 64"
  shows "case kind schedule of
      Once \<Rightarrow> next_run_at_for_schedule schedule now = Ok None
    | Interval \<Rightarrow> next_run_at_for_schedule schedule now = Ok (Some run) \<and> (\<exists>i \<ge> 10000. interval_ms schedule = Some i)
    | Cron \<Rightarrow> next_run_at_for_schedule schedule now = Ok (Some run) \<and> now < run"
proof -
  let ?s = "strip_matching_quotes (trim source)"
  let ?lower = "to_lowercase table ?s"
  have "?s \<noteq> []" using assms(1) by (auto simp: parse_agent_cron_schedule_def Let_def)
  then consider
      (once) "kind schedule = Once"
    | (every) "recurring_schedule [''every '', ''each ''] ?s ?lower now = Ok (Some (schedule, run))"
    | (cron) cron_text where "next_cron_run_after cron_text now = Ok run"
        "schedule = \<lparr>kind = Cron, expression = cron_text, interval_ms = None\<rparr>"
    using assms(1) by (auto simp: parse_agent_cron_schedule_def one_shot_at_def Let_def split: option.splits if_splits
        elim!: try_bind_Ok)
  then show ?thesis
  proof cases
    case once
    then show ?thesis by (simp add: next_run_at_for_schedule_def)
  next
    case every
    then show ?thesis
      by (rule recurring_schedule_Some) (use assms(2) in \<open>auto simp: next_run_at_for_schedule_def wrapping_sub_add\<close>)
  next
    case cron
    then obtain c where "parse_cron_expression cron_text = Ok c" by (auto simp: next_cron_run_after_def elim!: try_bind_Ok)
    from next_cron_run_first [OF this, of now] cron show ?thesis by (simp add: next_run_at_for_schedule_def)
  qed
qed

lemmas schedule_eval = parse_agent_cron_schedule_def strip_matching_quotes_def to_lowercase_def to_ascii_lowercase_char_def
  is_ascii_uppercase_def is_ascii_lowercase_def is_ascii_digit_def is_ascii_alphabetic_def trim_def is_utf8_continuation_def
  is_whitespace_def Let_def

lemma sample_interval:
  "parse_agent_cron_schedule table ''every 5m'' 0
    = Ok (\<lparr>kind = Interval, expression = ''every 5m'', interval_ms = Some 300000\<rparr>, 300000)"
  by (simp add: schedule_eval parse_every_delay_def split_amount_unit_def parse_unsigned_def parse_digits_def digit_value_def
      starts_with_whitespace_def unit_multiplier_def ONE_MINUTE_MS_def ONE_SECOND_MS_def saturating_mul64_def
      wrapping_add64_def wrapping_sub64_def)

theorem schedule_first_run_consistent_witness:
  "next_run_at_for_schedule \<lparr>kind = Interval, expression = ''every 5m'', interval_ms = Some 300000\<rparr> 0 = Ok (Some 300000)"
  using schedule_first_run_consistent [OF sample_interval] by simp

subsection \<open>Where the parser departs from its intent\<close>

text \<open>
  A one-shot date before 1970 is negative as \<open>i64\<close> and becomes a huge instant as \<open>u64\<close>: the check that the date
  lies in the future lets it pass, for a job that never becomes due.
\<close>

theorem at_before_epoch_is_accepted:
  "parse_agent_cron_schedule table ''at 1960-01-01T00:00:00Z'' 1700000000000
    = Ok (\<lparr>kind = Once, expression = ''at 1960-01-01T00:00:00Z'', interval_ms = None\<rparr>, 2 ^ 64 - 315619200000)"
proof -
  have "parse_iso_millis ''1960-01-01T00:00:00Z'' = Ok (Some (2 ^ 64 - 315619200000))"
    by (simp add: parse_iso_millis_def trim_def is_utf8_continuation_def is_whitespace_def parse_date_days_def parse_i64_def
        parse_u32_def parse_unsigned_def parse_digits_def is_ascii_digit_def digit_value_def wrap_i64_def Let_def
        parse_time_with_offset_def split_offset_def strip_suffix_def parse_clock_def as_u64_def)
  then show ?thesis
    by (simp add: schedule_eval starts_with_def one_shot_at_def slice_from_def is_char_boundary_def)
qed

text \<open>
  A delay too long for \<open>u64\<close> saturates, and adding the clock then wraps: the job is due at once, a millisecond
  before it was made.
\<close>

theorem long_delay_is_due_at_once:
  "parse_agent_cron_schedule table ''in 18446744073709551615d'' 1700000000000
    = Ok (\<lparr>kind = Once, expression = ''in 18446744073709551615d'', interval_ms = None\<rparr>, 1699999999999)"
  by (simp add: schedule_eval parse_in_delay_def split_amount_unit_def parse_unsigned_def parse_digits_def digit_value_def
      starts_with_whitespace_def unit_multiplier_def ONE_MINUTE_MS_def ONE_SECOND_MS_def saturating_mul64_def
      wrapping_add64_def)

text \<open>A date that ends at its \<open>T\<close> makes the offset search slice an empty string from its second byte, which panics.\<close>

theorem at_without_time_panics:
  "\<exists>msg. parse_agent_cron_schedule table ''at 2026-01-01T'' now = Err (Panic msg)"
proof -
  have "\<exists>msg. parse_iso_millis ''2026-01-01T'' = Err (Panic msg)"
    by (simp add: parse_iso_millis_def trim_def is_utf8_continuation_def is_whitespace_def parse_date_days_def parse_i64_def
        parse_u32_def parse_unsigned_def parse_digits_def is_ascii_digit_def digit_value_def wrap_i64_def Let_def
        parse_time_with_offset_def split_offset_def strip_suffix_def rfind_str_def slice_from_def is_char_boundary_def)
  then show ?thesis
    by (auto simp: schedule_eval starts_with_def one_shot_at_def slice_from_def is_char_boundary_def)
qed

end
