(* ===== verification/Heartbeat_Command.thy ===== *)
theory Heartbeat_Command
  imports Cron_Times
begin

text \<open>
  The \<open>/heartbeat\<close> command of \<open>crates/pa-core/src/cron/mod.rs\<close>: the flags that choose a delivery mode, before and
  after the instruction, the interval, and the command as a whole. Offsets found in the lowercased text are used
  in the text itself, as in the code, so a slice may panic where lowercasing changed the length of the text.
\<close>

datatype parsed_heartbeat_command =
    Status_Command
  | Pause_Command
  | Resume_Command
  | Clear_Command
  | Set_Command string string "delivery_mode option"

definition delivery_mode_error :: cron_error where
  "delivery_mode_error = Bail ''Heartbeat delivery mode must be \"steer\" or \"follow_up\"''"

definition usage_error :: cron_error where
  "usage_error = Bail ''Usage: /heartbeat [--every <interval>] [--steer|--follow-up] <instruction>''"

definition split_first_token :: "string \<Rightarrow> string \<times> string" where
  "split_first_token value =
     (let cs = utf8_chars value in
      if list_ex is_whitespace cs
      then (concat (takeWhile (\<lambda>c. \<not> is_whitespace c) cs), trim_start (concat (dropWhile (\<lambda>c. \<not> is_whitespace c) cs)))
      else (value, []))"

definition parse_delivery_mode_token :: "case_table \<Rightarrow> string \<Rightarrow> (delivery_mode, cron_error) result" where
  "parse_delivery_mode_token table token =
     (let normalized = replace_char (CHR ''-'') (CHR ''_'') (to_lowercase table token) in
      if normalized = ''steer'' then Ok Steer
      else if normalized = ''follow_up'' then Ok FollowUp
      else Err delivery_mode_error)"

definition check_standalone :: "string \<Rightarrow> string \<Rightarrow> (unit, cron_error) result" where
  "check_standalone rest token =
     (let after = drop (length token) rest in
      if after \<noteq> [] \<and> \<not> starts_with_whitespace after then Err delivery_mode_error else Ok ())"

fun leading_mode_flag :: "string \<Rightarrow> (string \<times> delivery_mode) list \<Rightarrow> ((delivery_mode \<times> string) option, cron_error) result" where
  "leading_mode_flag after_dash [] = Ok None"
| "leading_mode_flag after_dash ((token, mode) # tokens) = (case strip_prefix token after_dash of
     Some rest \<Rightarrow> try_bind (check_standalone after_dash token) (\<lambda>_. Ok (Some (mode, rest)))
   | None \<Rightarrow> leading_mode_flag after_dash tokens)"

definition consume_leading_delivery_flag ::
  "case_table \<Rightarrow> string \<Rightarrow> ((delivery_mode \<times> string) option, cron_error) result" where
  "consume_leading_delivery_flag table s = (case strip_prefix ''--'' (trim_start s) of
     None \<Rightarrow> Ok None
   | Some after_dash \<Rightarrow> (case strip_prefix ''deliver'' after_dash of
        Some raw \<Rightarrow>
          let value = (case strip_prefix ''='' raw of
                Some v \<Rightarrow> v
              | None \<Rightarrow> (case strip_whitespace_char raw of Some v \<Rightarrow> v | None \<Rightarrow> []))
          in if value = [] then Err delivery_mode_error
             else let (token, remainder) = split_first_token value in
               try_bind (parse_delivery_mode_token table token) (\<lambda>mode. Ok (Some (mode, remainder)))
      | None \<Rightarrow> leading_mode_flag after_dash [(''steer'', Steer), (''follow-up'', FollowUp), (''follow_up'', FollowUp)]))"

text \<open>The two spellings of a trailing \<open>--deliver\<close>, and the short flags at the very end of the text.\<close>

definition trailing_deliver ::
  "case_table \<Rightarrow> string \<Rightarrow> string \<Rightarrow> string \<Rightarrow> ((delivery_mode \<times> string) option, cron_error) result" where
  "trailing_deliver table s lower marker = (case rfind_str marker lower of
     None \<Rightarrow> Ok None
   | Some index \<Rightarrow>
       try_bind (slice_from s (index + length marker)) (\<lambda>tail.
       let token = trim tail in
       if token \<noteq> [] \<and> \<not> contains_whitespace token then
         try_bind (parse_delivery_mode_token table token) (\<lambda>mode.
         try_bind (slice_to s index) (\<lambda>front. Ok (Some (mode, front))))
       else Ok None))"

fun trailing_mode_flag ::
  "case_table \<Rightarrow> string \<Rightarrow> string \<Rightarrow> string list \<Rightarrow> ((delivery_mode \<times> string) option, cron_error) result" where
  "trailing_mode_flag table s lower [] = Ok None"
| "trailing_mode_flag table s lower (token # tokens) = (case rfind_str ('' '' @ token) lower of
     Some index \<Rightarrow>
       if index + length token + 1 = length s then
         try_bind (parse_delivery_mode_token table (drop 2 token)) (\<lambda>mode.
         try_bind (slice_to s index) (\<lambda>front. Ok (Some (mode, front))))
       else trailing_mode_flag table s lower tokens
   | None \<Rightarrow> trailing_mode_flag table s lower tokens)"

definition consume_trailing_delivery_flag ::
  "case_table \<Rightarrow> string \<Rightarrow> ((delivery_mode \<times> string) option, cron_error) result" where
  "consume_trailing_delivery_flag table s =
     (let lower = to_lowercase table s in
      try_bind (trailing_deliver table s lower '' --deliver '') (\<lambda>found. case found of
        Some hit \<Rightarrow> Ok (Some hit)
      | None \<Rightarrow> try_bind (trailing_deliver table s lower '' --deliver='') (\<lambda>found'. case found' of
          Some hit \<Rightarrow> Ok (Some hit)
        | None \<Rightarrow> trailing_mode_flag table s lower [''--follow-up'', ''--follow_up'', ''--steer''])))"

subsection \<open>The flag loops end\<close>

lemma length_concat_dropWhile: "length (concat (dropWhile P xs)) \<le> length (concat xs)"
  by (induction xs) auto

lemma length_trim: "length (trim s) \<le> length s"
proof -
  have "length (trim s) = length (concat (dropWhile is_whitespace (rev (dropWhile is_whitespace (utf8_chars s)))))"
    by (simp add: trim_def length_concat rev_map [symmetric])
  also have "\<dots> \<le> length (concat (rev (dropWhile is_whitespace (utf8_chars s))))" by (rule length_concat_dropWhile)
  also have "\<dots> = length (concat (dropWhile is_whitespace (utf8_chars s)))" by (simp add: length_concat rev_map [symmetric])
  also have "\<dots> \<le> length s" using length_concat_dropWhile [of is_whitespace "utf8_chars s"] by simp
  finally show ?thesis .
qed

lemma length_trim_start: "length (trim_start s) \<le> length s"
  using length_concat_dropWhile [of is_whitespace "utf8_chars s"] by (simp add: trim_start_def)

lemma strip_prefix_length: "strip_prefix p s = Some r \<Longrightarrow> length s = length p + length r"
  by (induction p s rule: strip_prefix.induct) (auto split: if_splits)

lemma split_first_token_length: "length (snd (split_first_token value)) \<le> length value"
  using length_trim_start [of "concat (dropWhile (\<lambda>c. \<not> is_whitespace c) (utf8_chars value))"]
    length_concat_dropWhile [of "\<lambda>c. \<not> is_whitespace c" "utf8_chars value"]
  by (simp add: split_first_token_def Let_def)

lemma leading_mode_flag_length:
  "leading_mode_flag after_dash tokens = Ok (Some (mode, rest)) \<Longrightarrow> length rest \<le> length after_dash"
  by (induction after_dash tokens rule: leading_mode_flag.induct)
    (auto elim!: try_bind_Ok dest: strip_prefix_length split: option.splits)

lemma strip_whitespace_char_length: "strip_whitespace_char s = Some r \<Longrightarrow> length r \<le> length s"
proof -
  assume strip: "strip_whitespace_char s = Some r"
  then obtain c cs where "utf8_chars s = c # cs" "r = concat cs"
    by (auto simp: strip_whitespace_char_def split: list.splits if_splits)
  with concat_utf8_chars [of s] show ?thesis by (metis concat.simps(2) length_append le_add2)
qed

lemma leading_flag_shortens:
  assumes "consume_leading_delivery_flag table s = Ok (Some (mode, rest))"
  shows "length rest < length s"
proof -
  obtain after_dash where dash: "strip_prefix ''--'' (trim_start s) = Some after_dash"
    using assms by (auto simp: consume_leading_delivery_flag_def split: option.splits)
  have "length rest \<le> length after_dash"
  proof (cases "strip_prefix ''deliver'' after_dash")
    case None
    with assms dash have "leading_mode_flag after_dash [(''steer'', Steer), (''follow-up'', FollowUp), (''follow_up'', FollowUp)] = Ok (Some (mode, rest))"
      by (simp add: consume_leading_delivery_flag_def del: leading_mode_flag.simps)
    then show ?thesis by (rule leading_mode_flag_length)
  next
    case (Some raw)
    define given where "given = (case strip_prefix ''='' raw of Some v \<Rightarrow> v
      | None \<Rightarrow> (case strip_whitespace_char raw of Some v \<Rightarrow> v | None \<Rightarrow> []))"
    have "length given \<le> length raw"
      by (auto simp: given_def dest: strip_prefix_length strip_whitespace_char_length split: option.splits)
    moreover have "rest = snd (split_first_token given)"
      using assms dash Some
      by (auto simp: consume_leading_delivery_flag_def given_def [symmetric] Let_def elim!: try_bind_Ok split: if_splits prod.splits)
    ultimately show ?thesis using split_first_token_length [of given] strip_prefix_length [OF Some] by simp
  qed
  with strip_prefix_length [OF dash] length_trim_start [of s] show ?thesis by simp
qed

lemma trailing_deliver_shortens:
  assumes "trailing_deliver table s lower marker = Ok (Some (mode, front))" "marker \<noteq> []"
  shows "length front < length s"
proof -
  obtain index where "is_char_boundary s (index + length marker)" "front = take index s"
    using assms(1) by (auto simp: trailing_deliver_def slice_from_def slice_to_def Let_def elim!: try_bind_Ok split: option.splits if_splits)
  moreover have "0 < length marker" using assms(2) by simp
  ultimately show ?thesis unfolding is_char_boundary_def by (elim conjE disjE) (simp_all del: length_greater_0_conv)
qed

lemma trailing_mode_flag_shortens:
  "trailing_mode_flag table s lower tokens = Ok (Some (mode, front)) \<Longrightarrow> length front < length s"
  by (induction table s lower tokens rule: trailing_mode_flag.induct)
    (auto simp: slice_to_def elim!: try_bind_Ok split: option.splits if_splits)

lemmas blank_deliver = trailing_deliver_shortens [of _ _ _ "'' --deliver ''", rotated, simplified]
  and equals_deliver = trailing_deliver_shortens [of _ _ _ "'' --deliver=''", rotated, simplified]

lemma trailing_flag_shortens:
  assumes "consume_trailing_delivery_flag table s = Ok (Some (mode, front))"
  shows "length front < length s"
  using assms
  by (auto simp: consume_trailing_delivery_flag_def Let_def simp del: trailing_mode_flag.simps elim!: try_bind_Ok
      dest!: trailing_mode_flag_shortens blank_deliver equals_deliver split: option.splits)

function leading_flags ::
  "case_table \<Rightarrow> delivery_mode option \<Rightarrow> string \<Rightarrow> (delivery_mode option \<times> string, cron_error) result" where
  "leading_flags table mode rest = (case consume_leading_delivery_flag table rest of
     Err e \<Rightarrow> Err e
   | Ok None \<Rightarrow> Ok (mode, rest)
   | Ok (Some (found, remaining)) \<Rightarrow> leading_flags table (Some found) (trim remaining))"
  by pat_completeness auto
termination
  by (relation "measure (\<lambda>(_, _, rest). length rest)")
    (auto dest!: leading_flag_shortens intro: le_less_trans [OF length_trim])

text \<open>All trailing flags are consumed; the first one found, the latest in the text, counts.\<close>

function trailing_flags ::
  "case_table \<Rightarrow> delivery_mode option \<Rightarrow> string \<Rightarrow> (delivery_mode option \<times> string, cron_error) result" where
  "trailing_flags table mode rest = (case consume_trailing_delivery_flag table rest of
     Err e \<Rightarrow> Err e
   | Ok None \<Rightarrow> Ok (mode, rest)
   | Ok (Some (found, remaining)) \<Rightarrow>
       trailing_flags table (case mode of None \<Rightarrow> Some found | Some m \<Rightarrow> Some m) (trim remaining))"
  by pat_completeness auto
termination
  by (relation "measure (\<lambda>(_, _, rest). length rest)")
    (auto dest!: trailing_flag_shortens intro: le_less_trans [OF length_trim])

declare leading_flags.simps [simp del] trailing_flags.simps [simp del]

definition consume_delivery_option :: "case_table \<Rightarrow> string \<Rightarrow> (delivery_mode option \<times> string, cron_error) result" where
  "consume_delivery_option table s =
     (let rest = trim s; lower = to_lowercase table rest in
      if lower = ''--deliver'' \<or> strip_suffix '' --deliver'' lower \<noteq> None then Err delivery_mode_error
      else
        try_bind (leading_flags table None rest) (\<lambda>(mode, rest').
        try_bind (trailing_flags table None rest') (\<lambda>(trailing, rest'').
        Ok (case trailing of None \<Rightarrow> mode | Some m \<Rightarrow> Some m, rest''))))"

subsection \<open>The interval\<close>

definition quoted_interval :: "char \<Rightarrow> string \<Rightarrow> string \<times> string" where
  "quoted_interval quote stripped = (case find_char quote stripped of
     Some index \<Rightarrow> (take index stripped, drop (Suc index) stripped)
   | None \<Rightarrow> (stripped, []))"

text \<open>What follows the flag, \<open>None\<close> where a longer word begins with it.\<close>

definition after_separator :: "string \<Rightarrow> string option" where
  "after_separator raw = (case strip_prefix ''='' raw of
     Some v \<Rightarrow> Some v
   | None \<Rightarrow> (case strip_whitespace_char raw of
        Some v \<Rightarrow> Some v
      | None \<Rightarrow> if raw \<noteq> [] then None else Some []))"

definition take_interval :: "string \<Rightarrow> string \<times> string" where
  "take_interval rest = (case strip_prefix [CHR 0x22] rest of
     Some stripped \<Rightarrow> quoted_interval (CHR 0x22) stripped
   | None \<Rightarrow> (case strip_prefix [CHR 0x27] rest of
        Some stripped \<Rightarrow> quoted_interval (CHR 0x27) stripped
      | None \<Rightarrow> split_first_token rest))"

definition consume_every_option :: "string \<Rightarrow> ((string \<times> string) option, cron_error) result" where
  "consume_every_option s = (case strip_prefix ''--every'' (trim_start s) of
     None \<Rightarrow> Ok None
   | Some raw \<Rightarrow> (case after_separator raw of
        None \<Rightarrow> Ok None
      | Some rest \<Rightarrow>
          let (interval, remainder) = take_interval rest
          in if interval = [] then Err usage_error else Ok (Some (interval, trim_start remainder))))"

definition strip_separator :: "string \<Rightarrow> string" where
  "strip_separator remainder = trim (case strip_prefix ''--'' remainder of
     Some after \<Rightarrow> if after = [] \<or> starts_with_whitespace after then trim after else remainder
   | None \<Rightarrow> remainder)"

fun leading_every_from ::
  "string \<Rightarrow> string \<Rightarrow> string list \<Rightarrow> ((string \<times> string) option, cron_error) result" where
  "leading_every_from s lower [] = Ok None"
| "leading_every_from s lower (prefix # prefixes) = (case strip_prefix prefix lower of
     None \<Rightarrow> leading_every_from s lower prefixes
   | Some rest \<Rightarrow> (case split_whitespace rest of
        [] \<Rightarrow> Ok None
      | first_token # _ \<Rightarrow>
          if (case split_amount_unit first_token of
                None \<Rightarrow> True
              | Some (_, unit_text) \<Rightarrow> unit_text = [] \<or> unit_multiplier unit_text True = None)
          then leading_every_from s lower prefixes
          else try_bind (slice_from s (min (length prefix + length first_token) (length s))) (\<lambda>tail.
               Ok (Some (trim prefix @ '' '' @ first_token, strip_separator (trim tail))))))"

definition consume_leading_every_schedule ::
  "case_table \<Rightarrow> string \<Rightarrow> ((string \<times> string) option, cron_error) result" where
  "consume_leading_every_schedule table s = leading_every_from s (to_lowercase table s) [''every '', ''each '']"

subsection \<open>The command\<close>

definition heartbeat_body :: "string \<Rightarrow> string" where
  "heartbeat_body input = (case strip_prefix ''/heartbeat'' input of
     Some rest \<Rightarrow> if rest = [] \<or> starts_with_whitespace rest then trim_start rest else trim input
   | None \<Rightarrow> trim input)"

text \<open>A command with an interval: flags may follow it, and an instruction must.\<close>

definition set_with_interval ::
  "case_table \<Rightarrow> delivery_mode option \<Rightarrow> string \<times> string \<Rightarrow> (parsed_heartbeat_command, cron_error) result" where
  "set_with_interval table mode found =
     try_bind (consume_delivery_option table (snd found)) (\<lambda>(trailing, instruction).
     if instruction = [] then Err usage_error
     else Ok (Set_Command (normalize_heartbeat_schedule (Some (fst found))) instruction
        (case trailing of None \<Rightarrow> mode | Some m \<Rightarrow> Some m)))"

definition parse_heartbeat_command :: "case_table \<Rightarrow> string \<Rightarrow> (parsed_heartbeat_command, cron_error) result" where
  "parse_heartbeat_command table input =
     (let s = heartbeat_body input in
      if s = [] \<or> s = ''status'' then Ok Status_Command
      else if s = ''pause'' then Ok Pause_Command
      else if s = ''resume'' then Ok Resume_Command
      else if s = ''clear'' \<or> s = ''stop'' then Ok Clear_Command
      else try_bind (consume_delivery_option table s) (\<lambda>(mode, rest).
        try_bind (consume_every_option rest) (\<lambda>every_option. case every_option of
          Some found \<Rightarrow> set_with_interval table mode found
        | None \<Rightarrow> try_bind (consume_leading_every_schedule table rest) (\<lambda>leading. case leading of
            Some found \<Rightarrow> set_with_interval table mode found
          | None \<Rightarrow>
              if trim rest = [] then Err usage_error
              else Ok (Set_Command DEFAULT_HEARTBEAT_SCHEDULE (trim rest) mode)))))"

subsection \<open>ASCII commands never panic\<close>

definition no_panic :: "('a, cron_error) result \<Rightarrow> bool" where
  "no_panic r \<longleftrightarrow> (\<forall>msg. r \<noteq> Err (Panic msg))"

named_theorems calm_rules

lemma no_panic_simps [simp]: "no_panic (Ok x)" "no_panic (Err (Bail msg))" "no_panic (Err delivery_mode_error)" "no_panic (Err usage_error)"
  by (simp_all add: no_panic_def delivery_mode_error_def usage_error_def)

lemma no_panic_try_bind [calm_rules]: "no_panic r \<Longrightarrow> (\<And>x. r = Ok x \<Longrightarrow> no_panic (f x)) \<Longrightarrow> no_panic (try_bind r f)"
  by (cases r) (auto simp: no_panic_def)

lemma is_ascii_subset: "set t \<subseteq> set s \<Longrightarrow> is_ascii s \<Longrightarrow> is_ascii t"
  by (auto simp: is_ascii_def list_all_iff)

lemma set_utf8: "x \<in> set (utf8_chars s) \<Longrightarrow> set x \<subseteq> set s"
  by (metis UN_upper concat_utf8_chars set_concat)

lemma ascii_parts:
  assumes "is_ascii s"
  shows "is_ascii (trim s)" "is_ascii (trim_start s)" "is_ascii (take n s)" "is_ascii (drop n s)"
    "strip_prefix p s = Some r \<Longrightarrow> is_ascii r" "strip_whitespace_char s = Some r \<Longrightarrow> is_ascii r"
    "is_ascii (fst (split_first_token s))" "is_ascii (snd (split_first_token s))"
proof -
  have chars: "is_ascii (concat cs)" if "set cs \<subseteq> set (utf8_chars s)" for cs
    using that set_utf8 by (intro is_ascii_subset [OF _ assms]) fastforce
  show start: "is_ascii (trim_start s)" unfolding trim_start_def by (rule chars) (auto dest: set_dropWhileD)
  show "is_ascii (trim s)" unfolding trim_def by (rule chars) (auto dest!: set_dropWhileD)
  show "is_ascii (take n s)" "is_ascii (drop n s)"
    by (rule is_ascii_subset [OF _ assms], simp add: set_take_subset set_drop_subset)+
  show "is_ascii r" if "strip_prefix p s = Some r"
    using that assms by (induction p s rule: strip_prefix.induct) (auto simp: is_ascii_def split: if_splits)
  show "is_ascii r" if "strip_whitespace_char s = Some r"
    using that chars by (auto simp: strip_whitespace_char_def split: list.splits if_splits)
  show "is_ascii (fst (split_first_token s))"
    using assms chars by (auto simp: split_first_token_def Let_def dest: set_takeWhileD)
  have "is_ascii (trim_start (concat cs))" if "set cs \<subseteq> set (utf8_chars s)" for cs
  proof -
    have "set (trim_start (concat cs)) \<subseteq> set (concat cs)"
      unfolding trim_start_def using set_utf8 [of _ "concat cs"] by (fastforce dest: set_dropWhileD)
    with chars [OF that] show ?thesis by (rule is_ascii_subset [rotated])
  qed
  then show "is_ascii (snd (split_first_token s))"
    by (auto simp: split_first_token_def Let_def is_ascii_def dest: set_dropWhileD)
qed

lemmas ascii_simps = ascii_parts(1-4)

lemma is_ascii_Nil [simp]: "is_ascii []"
  by (simp add: is_ascii_def)

lemma ascii_slices:
  assumes "is_ascii s" "i \<le> length s"
  shows "slice_from s i = Ok (drop i s)" "slice_to s i = Ok (take i s)"
proof -
  have "is_char_boundary s i"
    using assms by (cases "i = length s") (auto simp: is_char_boundary_def is_ascii_def list_all_length ascii_not_continuation)
  then show "slice_from s i = Ok (drop i s)" "slice_to s i = Ok (take i s)" by (simp_all add: slice_from_def slice_to_def)
qed

lemma length_lower_ascii: "is_ascii s \<Longrightarrow> length (to_lowercase table s) = length s"
  by (simp add: to_lowercase_ascii to_ascii_lowercase_def)

lemma rfind_str_bound: "rfind_str p s = Some i \<Longrightarrow> i + length p \<le> length s"
  by (auto simp: rfind_str_def find_Some_iff rev_nth split: if_splits)

lemma mode_token_calm: "no_panic (parse_delivery_mode_token table token)"
  by (simp add: parse_delivery_mode_token_def Let_def)

lemma leading_mode_flag_calm: "no_panic (leading_mode_flag after_dash tokens)"
  by (induction after_dash tokens rule: leading_mode_flag.induct)
    (auto simp: check_standalone_def Let_def split: option.split)

lemma leading_flag_calm: "no_panic (consume_leading_delivery_flag table s)"
  by (auto simp: consume_leading_delivery_flag_def Let_def mode_token_calm leading_mode_flag_calm
      simp del: leading_mode_flag.simps split: option.split prod.split intro!: calm_rules)

lemma trailing_deliver_calm:
  assumes "is_ascii s"
  shows "no_panic (trailing_deliver table s (to_lowercase table s) marker)"
proof (cases "rfind_str marker (to_lowercase table s)")
  case (Some index)
  then have "index + length marker \<le> length s" using rfind_str_bound length_lower_ascii [OF assms] by metis
  with Some ascii_slices [OF assms] show ?thesis
    by (auto simp: trailing_deliver_def Let_def mode_token_calm intro!: calm_rules)
qed (simp add: trailing_deliver_def)

lemma trailing_mode_flag_calm:
  assumes "is_ascii s"
  shows "no_panic (trailing_mode_flag table s (to_lowercase table s) tokens)"
proof (induction tokens)
  case (Cons token tokens)
  with ascii_slices(2) [OF assms] show ?case by (auto simp: mode_token_calm intro!: calm_rules split: option.split)
qed simp

lemma trailing_flag_calm: "is_ascii s \<Longrightarrow> no_panic (consume_trailing_delivery_flag table s)"
  by (auto simp: consume_trailing_delivery_flag_def Let_def trailing_deliver_calm trailing_mode_flag_calm
      simp del: trailing_mode_flag.simps split: option.split intro!: calm_rules)

lemma leading_mode_flag_ascii:
  "leading_mode_flag after_dash tokens = Ok (Some (mode, rest)) \<Longrightarrow> is_ascii after_dash \<Longrightarrow> is_ascii rest"
  by (induction after_dash tokens rule: leading_mode_flag.induct)
    (auto elim!: try_bind_Ok dest: ascii_parts(5) split: option.splits)

lemma leading_flag_ascii:
  assumes "consume_leading_delivery_flag table s = Ok (Some (mode, rest))" "is_ascii s"
  shows "is_ascii rest"
proof -
  obtain after_dash where dash: "strip_prefix ''--'' (trim_start s) = Some after_dash"
    using assms(1) by (auto simp: consume_leading_delivery_flag_def split: option.splits)
  have ascii: "is_ascii after_dash" using ascii_parts(5) [OF ascii_parts(2) [OF assms(2)] dash] .
  show ?thesis
  proof (cases "strip_prefix ''deliver'' after_dash")
    case None
    with assms(1) dash ascii show ?thesis
      by (auto simp: consume_leading_delivery_flag_def simp del: leading_mode_flag.simps intro: leading_mode_flag_ascii)
  next
    case (Some raw)
    define given where "given = (case strip_prefix ''='' raw of Some v \<Rightarrow> v
      | None \<Rightarrow> (case strip_whitespace_char raw of Some v \<Rightarrow> v | None \<Rightarrow> []))"
    have "is_ascii given"
      using ascii_parts(5,6) [OF ascii_parts(5) [OF ascii Some]]
      by (auto simp: given_def is_ascii_def split: option.splits)
    moreover have "rest = snd (split_first_token given)"
      using assms(1) dash Some
      by (auto simp: consume_leading_delivery_flag_def given_def [symmetric] Let_def elim!: try_bind_Ok split: if_splits prod.splits)
    ultimately show ?thesis using ascii_parts(8) by simp
  qed
qed

lemma trailing_deliver_ascii:
  "trailing_deliver table s lower marker = Ok (Some (mode, front)) \<Longrightarrow> is_ascii s \<Longrightarrow> is_ascii front"
  by (auto simp: trailing_deliver_def slice_to_def Let_def ascii_simps elim!: try_bind_Ok split: option.splits if_splits)

lemma trailing_mode_flag_ascii:
  "trailing_mode_flag table s lower tokens = Ok (Some (mode, front)) \<Longrightarrow> is_ascii s \<Longrightarrow> is_ascii front"
  by (induction table s lower tokens rule: trailing_mode_flag.induct)
    (auto simp: slice_to_def ascii_simps elim!: try_bind_Ok split: option.splits if_splits)

lemma trailing_flag_ascii:
  assumes "consume_trailing_delivery_flag table s = Ok (Some (mode, front))" "is_ascii s"
  shows "is_ascii front"
  using assms
  by (auto simp: consume_trailing_delivery_flag_def Let_def simp del: trailing_mode_flag.simps elim!: try_bind_Ok
      dest!: trailing_mode_flag_ascii trailing_deliver_ascii split: option.splits)

lemma leading_flags_calm:
  "is_ascii rest \<Longrightarrow> no_panic (leading_flags table mode rest)
    \<and> (\<forall>m r. leading_flags table mode rest = Ok (m, r) \<longrightarrow> is_ascii r)"
proof (induction table mode rest rule: leading_flags.induct)
  case (1 table mode rest)
  show ?case
  proof (cases "consume_leading_delivery_flag table rest")
    case (Err e)
    with leading_flag_calm [of table rest] show ?thesis by (simp add: leading_flags.simps [of table mode rest] no_panic_def)
  next
    case (Ok found)
    show ?thesis
    proof (cases found)
      case None
      with Ok 1(2) show ?thesis by (simp add: leading_flags.simps [of table mode rest])
    next
      case (Some hit)
      obtain m remaining where hit: "hit = (m, remaining)" by (cases hit)
      have "is_ascii (trim remaining)" using leading_flag_ascii [of table rest m remaining] Ok Some hit 1(2) by (simp add: ascii_simps)
      with 1(1) [OF Ok Some hit [symmetric]] Ok Some hit show ?thesis by (simp add: leading_flags.simps [of table mode rest])
    qed
  qed
qed

lemma trailing_flags_calm:
  "is_ascii rest \<Longrightarrow> no_panic (trailing_flags table mode rest)
    \<and> (\<forall>m r. trailing_flags table mode rest = Ok (m, r) \<longrightarrow> is_ascii r)"
proof (induction table mode rest rule: trailing_flags.induct)
  case (1 table mode rest)
  show ?case
  proof (cases "consume_trailing_delivery_flag table rest")
    case (Err e)
    with trailing_flag_calm [OF 1(2), of table] show ?thesis by (simp add: trailing_flags.simps [of table mode rest] no_panic_def)
  next
    case (Ok found)
    show ?thesis
    proof (cases found)
      case None
      with Ok 1(2) show ?thesis by (simp add: trailing_flags.simps [of table mode rest])
    next
      case (Some hit)
      obtain m remaining where hit: "hit = (m, remaining)" by (cases hit)
      have "is_ascii (trim remaining)" using trailing_flag_ascii [of table rest m remaining] Ok Some hit 1(2) by (simp add: ascii_simps)
      with 1(1) [OF Ok Some hit [symmetric]] Ok Some hit show ?thesis by (simp add: trailing_flags.simps [of table mode rest])
    qed
  qed
qed

lemma delivery_option_calm:
  assumes "is_ascii s"
  shows "no_panic (consume_delivery_option table s)"
    "consume_delivery_option table s = Ok (mode, rest) \<Longrightarrow> is_ascii rest"
proof -
  have trimmed: "is_ascii (trim s)" using assms by (rule ascii_parts)
  show "no_panic (consume_delivery_option table s)"
    using leading_flags_calm [OF trimmed] trailing_flags_calm
    by (auto simp: consume_delivery_option_def Let_def intro!: calm_rules split: prod.split)
  show "is_ascii rest" if opt: "consume_delivery_option table s = Ok (mode, rest)"
  proof -
    obtain m r t where "leading_flags table None (trim s) = Ok (m, r)" "trailing_flags table None r = Ok (t, rest)"
      using opt by (auto simp: consume_delivery_option_def Let_def elim!: try_bind_Ok split: if_splits prod.splits)
    with leading_flags_calm [OF trimmed] trailing_flags_calm show ?thesis by metis
  qed
qed

lemma quoted_interval_ascii: "is_ascii s \<Longrightarrow> is_ascii (snd (quoted_interval quote s))"
  by (simp add: quoted_interval_def ascii_simps split: option.split)

lemma after_separator_ascii: "after_separator raw = Some v \<Longrightarrow> is_ascii raw \<Longrightarrow> is_ascii v"
  using ascii_parts(5) [of raw "''=''" v] ascii_parts(6) [of raw v]
  by (auto simp: after_separator_def split: option.splits if_splits)

lemma take_interval_ascii:
  assumes "is_ascii v"
  shows "is_ascii (snd (take_interval v))"
proof (cases "strip_prefix [CHR 0x22] v")
  case (Some stripped)
  with quoted_interval_ascii [OF ascii_parts(5) [OF assms Some]] show ?thesis by (simp add: take_interval_def)
next
  case none: None
  show ?thesis
  proof (cases "strip_prefix [CHR 0x27] v")
    case None
    with none ascii_parts(8) [OF assms] show ?thesis by (simp add: take_interval_def)
  next
    case (Some stripped)
    with none quoted_interval_ascii [OF ascii_parts(5) [OF assms Some]] show ?thesis by (simp add: take_interval_def)
  qed
qed

lemma every_option_calm:
  assumes "is_ascii s"
  shows "no_panic (consume_every_option s)"
    "consume_every_option s = Ok (Some (interval, rest)) \<Longrightarrow> is_ascii rest"
proof -
  show "no_panic (consume_every_option s)"
    by (simp add: consume_every_option_def case_prod_beta split: option.split)
  assume found: "consume_every_option s = Ok (Some (interval, rest))"
  then obtain raw v where raw: "strip_prefix ''--every'' (trim_start s) = Some raw" and v: "after_separator raw = Some v"
    and "rest = trim_start (snd (take_interval v))"
    by (auto simp: consume_every_option_def case_prod_beta split: option.splits if_splits)
  moreover have "is_ascii v" using after_separator_ascii [OF v] ascii_parts(5) [OF ascii_parts(2) [OF assms] raw] by simp
  ultimately show "is_ascii rest" using take_interval_ascii by (simp add: ascii_simps)
qed

lemma strip_separator_ascii: "is_ascii s \<Longrightarrow> is_ascii (strip_separator s)"
  using ascii_parts(5) [of s "''--''"] by (auto simp: strip_separator_def ascii_simps split: option.split)

lemma leading_every_calm:
  assumes "is_ascii s"
  shows "no_panic (leading_every_from s lower prefixes)
    \<and> (\<forall>interval rest. leading_every_from s lower prefixes = Ok (Some (interval, rest)) \<longrightarrow> is_ascii rest)"
proof (induction prefixes)
  case (Cons prefix prefixes)
  show ?case
  proof (cases "strip_prefix prefix lower")
    case None
    with Cons show ?thesis by simp
  next
    case (Some rest)
    show ?thesis
    proof (cases "split_whitespace rest")
      case Nil
      with Some show ?thesis by simp
    next
      case words: (Cons first_token others)
      have "is_ascii (strip_separator (trim (drop (min (length prefix + length first_token) (length s)) s)))"
        using assms by (simp add: ascii_simps strip_separator_ascii)
      with Cons.IH Some words ascii_slices(1) [OF assms, of "min (length prefix + length first_token) (length s)"] show ?thesis
        by (cases "case split_amount_unit first_token of None \<Rightarrow> True
          | Some (_, unit_text) \<Rightarrow> unit_text = [] \<or> unit_multiplier unit_text True = None") simp_all
    qed
  qed
qed simp

lemma set_with_interval_calm: "is_ascii (snd found) \<Longrightarrow> no_panic (set_with_interval table mode found)"
  unfolding set_with_interval_def
  by (rule no_panic_try_bind [OF delivery_option_calm(1)]) (simp_all add: case_prod_beta)

lemma parse_heartbeat_calm:
  assumes "is_ascii input"
  shows "no_panic (parse_heartbeat_command table input)"
proof -
  let ?s = "heartbeat_body input"
  have "is_ascii ?s"
    using assms ascii_parts(5) [OF assms] by (auto simp: heartbeat_body_def ascii_simps split: option.split)
  note option = delivery_option_calm [OF this]
  have rest: "no_panic (try_bind (consume_every_option rest) (\<lambda>every_option. case every_option of
      Some found \<Rightarrow> set_with_interval table mode found
    | None \<Rightarrow> try_bind (consume_leading_every_schedule table rest) (\<lambda>leading. case leading of
        Some found \<Rightarrow> set_with_interval table mode found
      | None \<Rightarrow> if trim rest = [] then Err usage_error else Ok (Set_Command DEFAULT_HEARTBEAT_SCHEDULE (trim rest) mode))))"
    if "is_ascii rest" for rest mode
    using every_option_calm [OF that] leading_every_calm [OF that]
    by (auto simp: consume_leading_every_schedule_def set_with_interval_calm simp del: leading_every_from.simps
        intro!: calm_rules split: option.split)
  have "no_panic (case found of (mode, rest) \<Rightarrow> try_bind (consume_every_option rest) (\<lambda>every_option. case every_option of
      Some found \<Rightarrow> set_with_interval table mode found
    | None \<Rightarrow> try_bind (consume_leading_every_schedule table rest) (\<lambda>leading. case leading of
        Some found \<Rightarrow> set_with_interval table mode found
      | None \<Rightarrow> if trim rest = [] then Err usage_error else Ok (Set_Command DEFAULT_HEARTBEAT_SCHEDULE (trim rest) mode))))"
    if "consume_delivery_option table ?s = Ok found" for found
    using that option(2) rest by (cases found) simp
  from no_panic_try_bind [OF option(1) this] show ?thesis
    by (simp add: parse_heartbeat_command_def Let_def)
qed

text \<open>C38. The command parser is total on ASCII texts: no slice it takes can panic, so every ASCII command is
  parsed or refused with an error value, whatever the case table.\<close>

theorem ascii_command_never_panics:
  assumes "is_ascii input"
  shows "(\<exists>command. parse_heartbeat_command table input = Ok command) \<or> (\<exists>msg. parse_heartbeat_command table input = Err (Bail msg))"
proof (cases "parse_heartbeat_command table input")
  case (Err e)
  with parse_heartbeat_calm [OF assms, of table] show ?thesis by (cases e) (simp_all add: no_panic_def)
qed simp

theorem ascii_command_never_panics_witness:
  "is_ascii ''/heartbeat --deliver now''
   \<and> ((\<exists>command. parse_heartbeat_command (\<lambda>_ _. []) ''/heartbeat --deliver now'' = Ok command)
      \<or> (\<exists>msg. parse_heartbeat_command (\<lambda>_ _. []) ''/heartbeat --deliver now'' = Err (Bail msg)))"
proof -
  have "is_ascii ''/heartbeat --deliver now''" by (simp add: is_ascii_def)
  with ascii_command_never_panics [OF this] show ?thesis by blast
qed

subsection \<open>Where the parser departs from its intent\<close>

lemmas text_eval = trim_def trim_start_def is_utf8_continuation_def is_whitespace_def split_whitespace_def to_lowercase_def
  to_ascii_lowercase_char_def is_ascii_uppercase_def starts_with_whitespace_def

lemma sample_texts:
  "trim ''10m'' = ''10m''" "trim ''m'' = ''m''" "trim ''m look'' = ''m look''" "trim ''every '' = ''every''"
  "split_whitespace '' 10m look'' = [''10m'', ''look'']" "to_lowercase (\<lambda>_ _. []) ''every  10m look'' = ''every  10m look''"
  by (simp_all add: text_eval)

lemma sample_digits: "parse_unsigned 18446744073709551615 ''10'' = Some 10" "list_all is_ascii_alphabetic ''m''"
  by (simp_all add: parse_unsigned_def parse_digits_def is_ascii_digit_def digit_value_def is_ascii_alphabetic_def is_ascii_lowercase_def)

lemma sample_unit: "unit_multiplier ''m'' True = Some 60000"
  by (simp add: unit_multiplier_def sample_texts ONE_MINUTE_MS_def ONE_SECOND_MS_def)

lemma sample_amount: "split_amount_unit ''10m'' = Some (10, ''m'')"
  using sample_digits by (simp add: split_amount_unit_def sample_texts is_ascii_digit_def Let_def)

lemma sample_body: "heartbeat_body ''/heartbeat pause '' = ''pause ''" "trim ''pause '' = ''pause''" "trim ''pause'' = ''pause''"
  "trim_start ''pause'' = ''pause''" "to_lowercase (\<lambda>_ _. []) ''pause'' = ''pause''"
  by (simp_all add: heartbeat_body_def text_eval)

lemma sample_no_flags: "consume_leading_delivery_flag (\<lambda>_ _. []) ''pause'' = Ok None"
  "consume_trailing_delivery_flag (\<lambda>_ _. []) ''pause'' = Ok None"
  by (simp_all add: consume_leading_delivery_flag_def consume_trailing_delivery_flag_def trailing_deliver_def rfind_str_def sample_body)

text \<open>
  Behind \<open>/heartbeat\<close> only leading blanks are removed, so a word with a trailing blank is no longer the command
  and becomes the instruction of a new heartbeat.
\<close>

theorem trailing_blank_sets_a_heartbeat:
  "parse_heartbeat_command (\<lambda>_ _. []) ''/heartbeat pause '' = Ok (Set_Command ''every 5m'' ''pause'' None)"
  by (simp add: parse_heartbeat_command_def sample_body consume_delivery_option_def strip_suffix_def leading_flags.simps [of _ _ "''pause''"]
      trailing_flags.simps [of _ _ "''pause''"] sample_no_flags consume_every_option_def consume_leading_every_schedule_def
      DEFAULT_HEARTBEAT_SCHEDULE_def)

text \<open>
  The length of a leading interval is computed from its words, not from the text: with a second blank before the
  amount the end of the amount stays in the instruction.
\<close>

theorem second_blank_leaks_the_unit:
  "consume_leading_every_schedule (\<lambda>_ _. []) ''every  10m look'' = Ok (Some (''every 10m'', ''m look''))"
  by (simp add: consume_leading_every_schedule_def sample_texts sample_amount sample_unit slice_from_def is_char_boundary_def
      is_utf8_continuation_def strip_separator_def)

end
