(* ===== verification/Cron_Store.thy ===== *)
theory Cron_Store
  imports Cron_Times Json
begin

text \<open>
  The file-backed job store of \<open>crates/pa-core/src/cron/store\<close>: state files, locks and the merge of concurrent
  writers (\<open>state.rs\<close>), the partition by session (\<open>session_artifacts.rs\<close>) and the job operations (\<open>jobs.rs\<close>).
  Serialization is the parameter \<open>codec\<close>; the environment decides which file-system calls fail, which state locks
  are granted (\<open>state_lock\<close>, the outcome of \<open>LockDir::acquire_retrying\<close>), what other processes wrote between an
  operation's first read and its lock (\<open>meanwhile\<close>), which identifiers are drawn (\<open>uuid\<close>), and in which order
  Rust's hash maps iterate (\<open>job_order\<close>, \<open>dispatch_order\<close>, \<open>file_order\<close>).
\<close>

subsection \<open>State\<close>

record agent_cron_dispatch_record =
  dispatch_id :: string
  dispatch_job_id :: string
  claimed_at :: string
  scheduled_for :: string

record cron_jobs_state =
  state_jobs :: "agent_cron_job list"
  state_dispatches :: "agent_cron_dispatch_record list"

type_synonym agent_cron_dispatch = "string \<times> agent_cron_job"

record 'b cron_codec =
  document :: "cron_jobs_state \<Rightarrow> 'b"
  compact :: "cron_jobs_state \<Rightarrow> 'b"
  parse_document :: "'b \<Rightarrow> json option"
  job_from_json :: "json \<Rightarrow> agent_cron_job option"
  dispatch_from_json :: "json \<Rightarrow> agent_cron_dispatch_record option"

record 'b cron_env = "'b env" +
  sync_fault :: "path \<Rightarrow> string option"
  process_id :: nat
  state_lock :: "path \<Rightarrow> (unit, io_error) result"
  meanwhile :: "'b disk \<Rightarrow> 'b disk"
  uuid :: "nat \<Rightarrow> string"
  job_order :: "agent_cron_job list \<Rightarrow> agent_cron_job list"
  dispatch_order :: "agent_cron_dispatch_record list \<Rightarrow> agent_cron_dispatch_record list"
  file_order :: "(string \<times> path) list \<Rightarrow> (string \<times> path) list"

record 'b cron_store =
  file_path :: "path option"
  session_artifact_mode :: bool
  session_artifact_files :: "(string \<times> path) list"
  cron_disk :: "'b disk"
  heartbeat_notices :: nat

type_synonym ('b, 'a) store_action = "('b cron_store, 'a, cron_error) action"

definition SESSION_SCHEDULED_JOBS_FILENAME :: string where
  "SESSION_SCHEDULED_JOBS_FILENAME = ''scheduled-jobs.json''"

definition new_cron_store :: "path \<Rightarrow> 'b disk \<Rightarrow> 'b cron_store" where
  "new_cron_store p disk = \<lparr>file_path = Some p, session_artifact_mode = False, session_artifact_files = [],
     cron_disk = disk, heartbeat_notices = 0\<rparr>"

definition for_session_artifacts :: "'b disk \<Rightarrow> 'b cron_store" where
  "for_session_artifacts disk = \<lparr>file_path = None, session_artifact_mode = True, session_artifact_files = [],
     cron_disk = disk, heartbeat_notices = 0\<rparr>"

definition default_jobs_state :: cron_jobs_state where
  "default_jobs_state = \<lparr>state_jobs = [], state_dispatches = []\<rparr>"

subsection \<open>Reading\<close>

definition read_jobs_state :: "('b, 'z) env_scheme \<Rightarrow> 'b cron_codec \<Rightarrow> 'b disk \<Rightarrow> path \<Rightarrow> cron_jobs_state" where
  "read_jobs_state env codec disk p = (case fs_read env disk p of
     Err _ \<Rightarrow> default_jobs_state
   | Ok raw \<Rightarrow> (case parse_document codec raw of
        None \<Rightarrow> default_jobs_state
      | Some parsed \<Rightarrow>
          \<lparr>state_jobs = (case get_array parsed ''jobs'' of
              None \<Rightarrow> [] | Some rows \<Rightarrow> List.map_filter (job_from_json codec) rows),
           state_dispatches = (case get_array parsed ''dispatches'' of
              None \<Rightarrow> [] | Some rows \<Rightarrow> List.map_filter (dispatch_from_json codec) rows)\<rparr>))"

definition require_file_path :: "'b cron_store \<Rightarrow> (path, cron_error) result" where
  "require_file_path store = (case file_path store of
     None \<Rightarrow> Err (Panic ''Cron job store requires a file path'')
   | Some p \<Rightarrow> Ok p)"

definition state_paths :: "'b cron_store \<Rightarrow> (path list, cron_error) result" where
  "state_paths store =
     (if session_artifact_mode store then Ok (map snd (session_artifact_files store))
      else try_bind (require_file_path store) (\<lambda>p. Ok [p]))"

definition read_states :: "'b cron_env \<Rightarrow> 'b cron_codec \<Rightarrow> ('b, cron_jobs_state list) store_action" where
  "read_states env codec store =
     (try_bind (state_paths store) (\<lambda>paths. Ok (map (read_jobs_state env codec (cron_disk store)) paths)), store)"

definition read_jobs :: "'b cron_env \<Rightarrow> 'b cron_codec \<Rightarrow> ('b, agent_cron_job list) store_action" where
  "read_jobs env codec = and_then (read_states env codec) (\<lambda>states. return (concat (map state_jobs states)))"

subsection \<open>Writing\<close>

definition from_io :: "io_error \<Rightarrow> cron_error" where
  "from_io e = (case e of IoError _ msg \<Rightarrow> Bail msg)"

definition on_disk :: "('b disk, 'a, io_error) action \<Rightarrow> ('b, 'a) store_action" where
  "on_disk m store = (case m (cron_disk store) of (r, disk) \<Rightarrow> (map_err from_io r, store\<lparr>cron_disk := disk\<rparr>))"

text \<open>
  \<open>atomic_write_with\<close> with \<open>fsync\<close>: the temporary file is written and renamed over the target, then the
  directory is flushed; that last step can fail when the new contents are already in place.
\<close>

definition cron_temp_path :: "'b cron_env \<Rightarrow> path \<Rightarrow> path" where
  "cron_temp_path env p = path_of_string (path_string p @ ''.tmp'' @ show_nat (process_id env))"

definition atomic_write_with :: "'b cron_env \<Rightarrow> path \<Rightarrow> 'b \<Rightarrow> ('b disk, unit, io_error) action" where
  "atomic_write_with env p content =
     and_then (fs_write env (cron_temp_path env p) content) (\<lambda>_.
     and_then (fs_rename env (cron_temp_path env p) p) (\<lambda>_.
     case sync_fault env (case path_parent p of None \<Rightarrow> [''.''] | Some q \<Rightarrow> q) of
       None \<Rightarrow> return ()
     | Some msg \<Rightarrow> throw (IoError OtherKind msg)))"

definition write_jobs_state :: "'b cron_env \<Rightarrow> 'b cron_codec \<Rightarrow> path \<Rightarrow> cron_jobs_state \<Rightarrow> ('b, unit) store_action" where
  "write_jobs_state env codec p state =
     and_then (lift_result (case path_parent p of
         None \<Rightarrow> Ok () | Some parent \<Rightarrow> map_err from_io (fs_create_dir_all env parent))) (\<lambda>_.
     on_disk (atomic_write_with env p (document codec state)))"

text \<open>The locks are taken in path order, each once; the first that is refused skips the operation.\<close>

fun take_locks :: "'b cron_env \<Rightarrow> path list \<Rightarrow> bool" where
  "take_locks env [] = True"
| "take_locks env (p # ps) = (case state_lock env p of Ok _ \<Rightarrow> take_locks env ps | Err _ \<Rightarrow> False)"

definition with_state_locks :: "'b cron_env \<Rightarrow> path list \<Rightarrow> ('b, 'a) store_action \<Rightarrow> ('b, 'a) store_action" where
  "with_state_locks env paths body store =
     (let store' = store\<lparr>cron_disk := meanwhile env (cron_disk store)\<rparr> in
      if take_locks env (remdups (sort paths)) then body store'
      else (Err (Bail ''cron jobs state lock not acquired; skipped''), store'))"

subsection \<open>Heartbeat notices\<close>

text \<open>
  The catalog signature is the JSON text of the active and paused heartbeats, ordered by identifier, without
  their run times and counters. It is only compared, so the entries themselves stand for their text.
\<close>

definition catalog_entry :: "agent_cron_job \<Rightarrow> agent_cron_job" where
  "catalog_entry job = job\<lparr>job_updated_at := [], job_next_run_at := None, job_last_run_at := None,
     job_last_skipped_at := None, job_last_error := None, job_run_count := 0\<rparr>"

definition heartbeat_catalog_signature :: "agent_cron_job list \<Rightarrow> agent_cron_job list" where
  "heartbeat_catalog_signature jobs =
     map catalog_entry (sort_key job_id
       (filter (\<lambda>job. is_heartbeat_cron_job job \<and> job_status job \<in> {Active, Paused}) jobs))"

definition notify_heartbeat_change :: "('b, unit) store_action" where
  "notify_heartbeat_change store = (Ok (), store\<lparr>heartbeat_notices := Suc (heartbeat_notices store)\<rparr>)"

definition notify_if_changed ::
  "'b cron_env \<Rightarrow> 'b cron_codec \<Rightarrow> agent_cron_job list \<Rightarrow> ('b, unit) store_action" where
  "notify_if_changed env codec previous =
     and_then (read_jobs env codec) (\<lambda>jobs.
     if heartbeat_catalog_signature jobs \<noteq> previous then notify_heartbeat_change else return ())"

subsection \<open>Locked state changes\<close>

text \<open>A mutator sees one state file at a time and carries what the closure of the code captured.\<close>

type_synonym 'acc mutator =
  "'acc \<Rightarrow> cron_jobs_state \<Rightarrow> ('acc \<times> cron_jobs_state \<times> agent_cron_dispatch list, cron_error) result"

fun mutate_files ::
  "'b cron_env \<Rightarrow> 'b cron_codec \<Rightarrow> 'acc mutator \<Rightarrow> path list \<Rightarrow> 'acc \<times> bool \<times> agent_cron_dispatch list
   \<Rightarrow> ('b, 'acc \<times> bool \<times> agent_cron_dispatch list) store_action" where
  "mutate_files env codec mutator [] (acc, changed, dispatches) store = (Ok (acc, changed, dispatches), store)"
| "mutate_files env codec mutator (p # ps) (acc, changed, dispatches) store =
     (let state = read_jobs_state env codec (cron_disk store) p in
      case mutator acc state of
        Err e \<Rightarrow> (Err e, store)
      | Ok (acc', state', claimed) \<Rightarrow>
          if compact codec state' \<noteq> compact codec state then
            and_then (write_jobs_state env codec p state')
              (\<lambda>_. mutate_files env codec mutator ps (acc', True, dispatches @ claimed)) store
          else mutate_files env codec mutator ps (acc', changed, dispatches @ claimed) store)"

definition mutate_states ::
  "'b cron_env \<Rightarrow> 'b cron_codec \<Rightarrow> 'acc mutator \<Rightarrow> 'acc \<Rightarrow> ('b, 'acc \<times> agent_cron_dispatch list) store_action" where
  "mutate_states env codec mutator acc =
     and_then (\<lambda>store. (state_paths store, store)) (\<lambda>paths.
     and_then (read_jobs env codec) (\<lambda>before.
     and_then (with_state_locks env paths (mutate_files env codec mutator paths (acc, False, [])))
       (\<lambda>(acc', changed, dispatches).
     and_then (if changed then notify_if_changed env codec (heartbeat_catalog_signature before) else return ()) (\<lambda>_.
     return (acc', dispatches)))))"

subsection \<open>Merging concurrent writers\<close>

definition is_at_least_as_fresh :: "agent_cron_job \<Rightarrow> agent_cron_job \<Rightarrow> (bool, cron_error) result" where
  "is_at_least_as_fresh candidate current =
     try_bind (parse_iso_millis (job_updated_at current)) (\<lambda>current_time. case current_time of
       None \<Rightarrow> Ok True
     | Some current_ms \<Rightarrow>
         try_bind (parse_iso_millis (job_updated_at candidate)) (\<lambda>candidate_time. case candidate_time of
           None \<Rightarrow> Ok False
         | Some candidate_ms \<Rightarrow> Ok (candidate_ms \<ge> current_ms)))"

fun merge_next ::
  "agent_cron_job list \<Rightarrow> (string, agent_cron_job) btree \<Rightarrow> ((string, agent_cron_job) btree, cron_error) result" where
  "merge_next [] merged = Ok merged"
| "merge_next (job # jobs) merged =
     try_bind (case bt_get merged (job_id job) of
         None \<Rightarrow> Ok True
       | Some current \<Rightarrow> is_at_least_as_fresh job current)
       (\<lambda>fresh. merge_next jobs (if fresh then bt_insert (job_id job) job merged else merged))"

definition merge_fresh_jobs ::
  "'b cron_env \<Rightarrow> agent_cron_job list \<Rightarrow> agent_cron_job list \<Rightarrow> (agent_cron_job list, cron_error) result" where
  "merge_fresh_jobs env current_jobs next_jobs =
     try_bind (merge_next next_jobs (fold (\<lambda>job. bt_insert (job_id job) job) current_jobs []))
       (\<lambda>merged. Ok (job_order env (map snd merged)))"

definition write_jobs_file ::
  "'b cron_env \<Rightarrow> 'b cron_codec \<Rightarrow> path \<Rightarrow> agent_cron_job list \<Rightarrow> bool \<Rightarrow> ('b, unit) store_action" where
  "write_jobs_file env codec p jobs merge_current store =
     (let current = read_jobs_state env codec (cron_disk store) p in
      and_then (lift_result (if merge_current then merge_fresh_jobs env (state_jobs current) jobs else Ok jobs)) (\<lambda>jobs'.
      write_jobs_state env codec p \<lparr>state_jobs = jobs', state_dispatches = state_dispatches current\<rparr>) store)"

subsection \<open>The partition by session\<close>

definition register_session_artifact :: "'b cron_env \<Rightarrow> string \<Rightarrow> path \<Rightarrow> ('b, bool) store_action" where
  "register_session_artifact env session_id artifact_dir store =
     (let p = path_join artifact_dir SESSION_SCHEDULED_JOBS_FILENAME;
          files = session_artifact_files store
      in if \<not> session_artifact_mode store then (Ok False, store)
         else if map_of files session_id = Some p then (Ok False, store)
         else (Ok True, store\<lparr>session_artifact_files :=
                 file_order env ((session_id, p) # filter (\<lambda>(other, _). other \<noteq> session_id) files)\<rparr>))"

fun merge_sessions ::
  "'b cron_env \<Rightarrow> agent_cron_job list \<Rightarrow> (string \<times> cron_jobs_state) list
   \<Rightarrow> ((string \<times> agent_cron_job list) list, cron_error) result" where
  "merge_sessions env jobs [] = Ok []"
| "merge_sessions env jobs ((session_id, current) # sessions) =
     (let incoming = map_of (rev (map (\<lambda>job. (job_id job, job)) jobs));
          retained = filter (\<lambda>job. case incoming (job_id job) of
              None \<Rightarrow> True | Some newer \<Rightarrow> job_session_id newer = session_id) (state_jobs current);
          session_jobs = filter (\<lambda>job. job_session_id job = session_id) jobs
      in try_bind (merge_fresh_jobs env retained session_jobs) (\<lambda>merged.
         try_bind (merge_sessions env jobs sessions) (\<lambda>rest. Ok ((session_id, merged) # rest))))"

fun write_sessions ::
  "'b cron_env \<Rightarrow> 'b cron_codec \<Rightarrow> (path \<times> cron_jobs_state \<times> cron_jobs_state) list \<Rightarrow> ('b, unit) store_action" where
  "write_sessions env codec [] store = (Ok (), store)"
| "write_sessions env codec ((p, current, next_state) # rest) store =
     (if compact codec current \<noteq> compact codec next_state then
        and_then (write_jobs_state env codec p next_state) (\<lambda>_. write_sessions env codec rest) store
      else write_sessions env codec rest store)"

definition partition_write ::
  "'b cron_env \<Rightarrow> 'b cron_codec \<Rightarrow> (string \<times> path) list \<Rightarrow> agent_cron_job list \<Rightarrow> ('b, unit) store_action" where
  "partition_write env codec files jobs store =
     (let current = map (\<lambda>(session_id, p). (session_id, read_jobs_state env codec (cron_disk store) p)) files in
      and_then (lift_result (merge_sessions env jobs current)) (\<lambda>merged.
        let owner = map_of (rev (concat (map (\<lambda>(session_id, session_jobs).
                map (\<lambda>job. (job_id job, session_id)) session_jobs) merged)));
            all_dispatches = dispatch_order env (concat (map (\<lambda>(_, state). state_dispatches state) current))
        in write_sessions env codec (map (\<lambda>(session_id, p).
             (p, case map_of current session_id of None \<Rightarrow> default_jobs_state | Some state \<Rightarrow> state,
              \<lparr>state_jobs = (case map_of merged session_id of None \<Rightarrow> [] | Some session_jobs \<Rightarrow> session_jobs),
               state_dispatches = filter (\<lambda>dispatch. owner (dispatch_job_id dispatch) = Some session_id) all_dispatches\<rparr>))
             files)) store)"

definition write_jobs_session_artifacts ::
  "'b cron_env \<Rightarrow> 'b cron_codec \<Rightarrow> agent_cron_job list \<Rightarrow> ('b, unit) store_action" where
  "write_jobs_session_artifacts env codec jobs store =
     (let files = session_artifact_files store in
      case find (\<lambda>job. job_session_id job \<notin> fst ` set files) jobs of
        Some job \<Rightarrow> (Err (Bail (''cron job session artifact not registered: '' @ job_session_id job)), store)
      | None \<Rightarrow> with_state_locks env (map snd files) (partition_write env codec files jobs) store)"

definition write_jobs :: "'b cron_env \<Rightarrow> 'b cron_codec \<Rightarrow> agent_cron_job list \<Rightarrow> ('b, unit) store_action" where
  "write_jobs env codec jobs =
     and_then (read_jobs env codec) (\<lambda>before.
     and_then (\<lambda>store. if session_artifact_mode store then write_jobs_session_artifacts env codec jobs store
        else and_then (lift_result (require_file_path store))
          (\<lambda>p. with_state_locks env [p] (write_jobs_file env codec p jobs True)) store) (\<lambda>_.
     notify_if_changed env codec (heartbeat_catalog_signature before)))"

end
