(* ===== verification/Cron_Jobs.thy ===== *)
theory Cron_Jobs
  imports Cron_Store
begin

text \<open>
  The operations of the job store: creation, cancellation, rebinding, the recording of runs and the claiming of
  due jobs (\<open>jobs.rs\<close> and the in-state transitions of \<open>state.rs\<close>). An operation that maps over the jobs is given
  by what it makes of one job, \<open>None\<close> where the closure returns the job as it was and remembers nothing.
\<close>

subsection \<open>Operations that read, change and write back\<close>

type_synonym job_change = "agent_cron_job \<Rightarrow> agent_cron_job option"

definition changed_jobs :: "job_change \<Rightarrow> agent_cron_job list \<Rightarrow> agent_cron_job list" where
  "changed_jobs change jobs = map (\<lambda>job. case change job of None \<Rightarrow> job | Some job' \<Rightarrow> job') jobs"

text \<open>The clones a closure collected: all of them, or the last one where it overwrites a variable.\<close>

definition collected :: "job_change \<Rightarrow> agent_cron_job list \<Rightarrow> agent_cron_job list" where
  "collected change jobs = List.map_filter change jobs"

definition last_of :: "'a list \<Rightarrow> 'a option" where
  "last_of xs = (if xs = [] then None else Some (last xs))"

definition change_and_collect ::
  "'b cron_env \<Rightarrow> 'b cron_codec \<Rightarrow> job_change \<Rightarrow> ('b, agent_cron_job list) store_action" where
  "change_and_collect env codec change =
     and_then (read_jobs env codec) (\<lambda>jobs.
     let changed = collected change jobs in
     if changed = [] then return []
     else and_then (write_jobs env codec (changed_jobs change jobs)) (\<lambda>_. return changed))"

definition change_one ::
  "'b cron_env \<Rightarrow> 'b cron_codec \<Rightarrow> job_change \<Rightarrow> ('b, agent_cron_job option) store_action" where
  "change_one env codec change = and_then (change_and_collect env codec change) (\<lambda>changed. return (last_of changed))"

text \<open>\<open>next_run_at_for_schedule(..).ok().flatten().map(iso_from_millis)\<close>; that computation never panics.\<close>

definition next_stamp :: "agent_cron_schedule \<Rightarrow> nat \<Rightarrow> string option" where
  "next_stamp schedule after_millis = (case next_run_at_for_schedule schedule after_millis of
     Ok (Some run) \<Rightarrow> Some (iso_from_millis run)
   | _ \<Rightarrow> None)"

definition cancelled_job :: "nat \<Rightarrow> agent_cron_job \<Rightarrow> agent_cron_job" where
  "cancelled_job now job = job\<lparr>job_status := Cancelled, job_next_run_at := None, job_updated_at := iso_from_millis now\<rparr>"

definition resolve_now :: "'b cron_env \<Rightarrow> nat option \<Rightarrow> nat" where
  "resolve_now env now = (case now of None \<Rightarrow> clock_ms env 0 | Some ms \<Rightarrow> ms)"

record create_job_input =
  input_active_session_id :: string
  input_session_id :: string
  input_session_file :: string
  input_cwd :: string
  input_label :: "string option"
  input_prompt :: string
  input_schedule_text :: string
  input_source :: "string option"
  input_runtime_kind :: "string option"
  input_delivery_mode :: "delivery_mode option"
  input_now :: "nat option"

definition normalize_optional_label :: "string option \<Rightarrow> string option" where
  "normalize_optional_label label = (case label of
     None \<Rightarrow> None
   | Some raw \<Rightarrow> if trim raw = [] then None else Some (trim raw))"

definition new_job ::
  "create_job_input \<Rightarrow> string \<Rightarrow> string \<Rightarrow> delivery_mode option \<Rightarrow> nat \<Rightarrow> agent_cron_schedule \<Rightarrow> nat \<Rightarrow> agent_cron_job" where
  "new_job input ident source mode now schedule run =
     \<lparr>job_id = ident, job_status = Active, job_source = Some source, job_runtime_kind = input_runtime_kind input,
      job_delivery_mode = mode, job_active_session_id = input_active_session_id input,
      job_session_id = input_session_id input, job_session_file = input_session_file input, job_cwd = input_cwd input,
      job_label = normalize_optional_label (input_label input), job_prompt = trim (input_prompt input),
      job_schedule = schedule, job_created_at = iso_from_millis now, job_updated_at = iso_from_millis now,
      job_next_run_at = Some (iso_from_millis run), job_last_run_at = None, job_last_skipped_at = None,
      job_last_error = None, job_run_count = 0\<rparr>"

definition create_job ::
  "case_table \<Rightarrow> 'b cron_env \<Rightarrow> 'b cron_codec \<Rightarrow> create_job_input \<Rightarrow> ('b, agent_cron_job) store_action" where
  "create_job table env codec input =
     (if trim (input_prompt input) = [] then throw (Bail ''Cron job prompt cannot be empty'')
      else
        let now = resolve_now env (input_now input) in
        and_then (lift_result (parse_agent_cron_schedule table (input_schedule_text input) now)) (\<lambda>(schedule, run).
        let job = new_job input (uuid env 0) (case input_source input of None \<Rightarrow> ''cron'' | Some source \<Rightarrow> source) None now schedule run in
        and_then (read_jobs env codec) (\<lambda>jobs.
        and_then (write_jobs env codec (jobs @ [job])) (\<lambda>_. return job))))"

fun resolve_components :: "string list \<Rightarrow> string list \<Rightarrow> string list" where
  "resolve_components [] acc = acc"
| "resolve_components (c # cs) acc =
     (if c = ''.'' then resolve_components cs acc
      else if c = ''..'' then resolve_components cs (butlast acc)
      else resolve_components cs (acc @ [c]))"

definition resolve_path :: "string \<Rightarrow> string" where
  "resolve_path p =
     path_string (''/'' # filter (\<lambda>c. c \<noteq> ''/'') (resolve_components (path_of_string p) []))"

record session_binding =
  bind_active_session_id :: string
  bind_session_id :: string
  bind_session_file :: string
  bind_cwd :: string

definition rebind_change :: "session_binding \<Rightarrow> job_change" where
  "rebind_change input job =
     (let target = resolve_path (bind_session_file input) in
      if job_active_session_id job \<noteq> bind_active_session_id input \<and> resolve_path (job_session_file job) \<noteq> target then None
      else if job_active_session_id job = bind_active_session_id input \<and> job_session_id job = bind_session_id input
           \<and> resolve_path (job_session_file job) = target \<and> job_cwd job = bind_cwd input then None
      else Some (job\<lparr>job_active_session_id := bind_active_session_id input, job_session_id := bind_session_id input,
                    job_session_file := bind_session_file input, job_cwd := bind_cwd input\<rparr>))"

definition rebind_session_jobs ::
  "'b cron_env \<Rightarrow> 'b cron_codec \<Rightarrow> session_binding \<Rightarrow> ('b, agent_cron_job list) store_action" where
  "rebind_session_jobs env codec input = change_and_collect env codec (rebind_change input)"

record cancel_jobs_filter =
  filter_active_session_id :: "string option"
  filter_session_id :: "string option"
  filter_session_file :: "string option"

definition filter_matches :: "cancel_jobs_filter \<Rightarrow> agent_cron_job \<Rightarrow> bool" where
  "filter_matches input job \<longleftrightarrow>
     filter_active_session_id input = Some (job_active_session_id job)
     \<or> filter_session_id input = Some (job_session_id job)
     \<or> map_option resolve_path (filter_session_file input) = Some (resolve_path (job_session_file job))"

definition cancel_jobs_for_session ::
  "'b cron_env \<Rightarrow> 'b cron_codec \<Rightarrow> cancel_jobs_filter \<Rightarrow> nat \<Rightarrow> ('b, agent_cron_job list) store_action" where
  "cancel_jobs_for_session env codec input now = change_and_collect env codec (\<lambda>job.
     if \<not> filter_matches input job \<or> job_status job \<notin> {Active, Paused} then None else Some (cancelled_job now job))"

definition cancel_job :: "'b cron_env \<Rightarrow> 'b cron_codec \<Rightarrow> string \<Rightarrow> nat \<Rightarrow> ('b, agent_cron_job option) store_action" where
  "cancel_job env codec ident now = change_one env codec (\<lambda>job.
     if job_id job \<noteq> ident \<or> job_status job = Cancelled then None else Some (cancelled_job now job))"

definition record_run_result ::
  "'b cron_env \<Rightarrow> 'b cron_codec \<Rightarrow> string \<Rightarrow> nat option \<Rightarrow> string option \<Rightarrow> ('b, agent_cron_job option) store_action" where
  "record_run_result env codec ident now_option error =
     (let now = resolve_now env now_option in
      change_one env codec (\<lambda>job.
        if job_id job \<noteq> ident then None
        else if job_status job \<noteq> Active then Some job
        else Some (job
          \<lparr>job_status := if kind (job_schedule job) = Once then Completed_Job else Active,
           job_next_run_at := (case kind (job_schedule job) of
              Cron \<Rightarrow> next_stamp (job_schedule job) (wrapping_add64 now 1)
            | Interval \<Rightarrow> next_stamp (job_schedule job) now
            | Once \<Rightarrow> None),
           job_last_run_at := Some (iso_from_millis now), job_last_error := error,
           job_run_count := job_run_count job + 1, job_updated_at := iso_from_millis now\<rparr>)))"

definition record_skip_result ::
  "'b cron_env \<Rightarrow> 'b cron_codec \<Rightarrow> string \<Rightarrow> nat \<Rightarrow> ('b, agent_cron_job option) store_action" where
  "record_skip_result env codec ident now = change_one env codec (\<lambda>job.
     if job_id job \<noteq> ident then None
     else if job_status job \<noteq> Active then Some job
     else Some (job\<lparr>job_next_run_at := next_stamp (job_schedule job) now,
       job_last_skipped_at := Some (iso_from_millis now), job_updated_at := iso_from_millis now\<rparr>))"

subsection \<open>Deferring\<close>

definition defer_change :: "string \<Rightarrow> nat \<Rightarrow> string \<Rightarrow> agent_cron_job \<Rightarrow> (agent_cron_job option, cron_error) result" where
  "defer_change ident until_ms stamp job =
     (if job_id job \<noteq> ident \<or> job_status job \<noteq> Active then Ok None
      else try_bind (case job_next_run_at job of None \<Rightarrow> Ok None | Some run \<Rightarrow> parse_iso_millis run) (\<lambda>current.
        if (case current of None \<Rightarrow> False | Some ms \<Rightarrow> ms \<ge> until_ms) then Ok None
        else Ok (Some (job\<lparr>job_next_run_at := Some (iso_from_millis until_ms), job_updated_at := stamp\<rparr>))))"

fun defer_jobs ::
  "string \<Rightarrow> nat \<Rightarrow> string \<Rightarrow> agent_cron_job list \<Rightarrow> (agent_cron_job list \<times> agent_cron_job list, cron_error) result" where
  "defer_jobs ident until_ms stamp [] = Ok ([], [])"
| "defer_jobs ident until_ms stamp (job # jobs) =
     try_bind (defer_change ident until_ms stamp job) (\<lambda>changed.
     try_bind (defer_jobs ident until_ms stamp jobs) (\<lambda>(jobs', updated).
     Ok (case changed of None \<Rightarrow> (job # jobs', updated) | Some job' \<Rightarrow> (job' # jobs', job' # updated))))"

definition defer_next_run ::
  "'b cron_env \<Rightarrow> 'b cron_codec \<Rightarrow> string \<Rightarrow> nat \<Rightarrow> ('b, agent_cron_job option) store_action" where
  "defer_next_run env codec ident until_ms =
     and_then (mutate_states env codec (\<lambda>updated state.
        try_bind (defer_jobs ident until_ms (iso_from_millis (clock_ms env 0)) (state_jobs state)) (\<lambda>(jobs, deferred).
        Ok (updated @ deferred, state\<lparr>state_jobs := jobs\<rparr>, []))) [])
       (\<lambda>(updated, _). return (last_of updated))"

subsection \<open>Claiming due jobs\<close>

text \<open>
  One pass over the jobs of a state: \<open>claimed_ids\<close> are the jobs with a dispatch before the pass, \<open>k\<close> counts
  the identifiers drawn.
\<close>

definition claimed_job :: "nat \<Rightarrow> agent_cron_job \<Rightarrow> agent_cron_job" where
  "claimed_job claimed_ms job =
     job\<lparr>job_next_run_at := next_stamp (job_schedule job) claimed_ms, job_updated_at := iso_from_millis claimed_ms\<rparr>"

fun claim_jobs ::
  "'b cron_env \<Rightarrow> nat \<Rightarrow> nat \<Rightarrow> string set \<Rightarrow> nat \<Rightarrow> agent_cron_job list
   \<Rightarrow> (nat \<times> agent_cron_job list \<times> agent_cron_dispatch_record list \<times> agent_cron_dispatch list, cron_error) result" where
  "claim_jobs env due_at claimed_ms claimed_ids k [] = Ok (k, [], [], [])"
| "claim_jobs env due_at claimed_ms claimed_ids k (job # jobs) =
     try_bind (is_due_job job due_at) (\<lambda>due.
     if \<not> due then
       try_bind (claim_jobs env due_at claimed_ms claimed_ids k jobs) (\<lambda>(k', jobs', entries, dispatches).
       Ok (k', job # jobs', entries, dispatches))
     else
       let job' = claimed_job claimed_ms job in
       if job_id job \<in> claimed_ids then
         try_bind (claim_jobs env due_at claimed_ms claimed_ids k jobs) (\<lambda>(k', jobs', entries, dispatches).
         Ok (k', job'\<lparr>job_last_skipped_at := Some (iso_from_millis claimed_ms)\<rparr> # jobs', entries, dispatches))
       else
         let entry = \<lparr>dispatch_id = uuid env k, dispatch_job_id = job_id job, claimed_at = iso_from_millis claimed_ms,
                      scheduled_for = (case job_next_run_at job of None \<Rightarrow> [] | Some stamp \<Rightarrow> stamp)\<rparr> in
         try_bind (claim_jobs env due_at claimed_ms claimed_ids (Suc k) jobs) (\<lambda>(k', jobs', entries, dispatches).
         Ok (k', job' # jobs', entry # entries, (dispatch_id entry, job') # dispatches)))"

definition claim_due_in_state :: "'b cron_env \<Rightarrow> nat \<Rightarrow> nat \<Rightarrow> nat mutator" where
  "claim_due_in_state env due_at claimed_ms k state =
     try_bind (claim_jobs env due_at claimed_ms (set (map dispatch_job_id (state_dispatches state))) k (state_jobs state))
       (\<lambda>(k', jobs, entries, dispatches).
     Ok (k', \<lparr>state_jobs = jobs, state_dispatches = state_dispatches state @ entries\<rparr>, dispatches))"

definition claim_due :: "'b cron_env \<Rightarrow> 'b cron_codec \<Rightarrow> nat \<Rightarrow> nat \<Rightarrow> ('b, agent_cron_dispatch list) store_action" where
  "claim_due env codec due_at claimed_ms =
     and_then (mutate_states env codec (claim_due_in_state env due_at claimed_ms) 0) (\<lambda>(_, dispatches). return dispatches)"

fun claimed_in :: "string \<Rightarrow> cron_jobs_state list \<Rightarrow> agent_cron_job option" where
  "claimed_in ident [] = None"
| "claimed_in ident (state # states) =
     (if ident \<notin> set (map dispatch_job_id (state_dispatches state)) then claimed_in ident states
      else find (\<lambda>job. job_id job = ident \<and> job_status job = Active) (state_jobs state))"

definition get_claimed_job :: "'b cron_env \<Rightarrow> 'b cron_codec \<Rightarrow> string \<Rightarrow> ('b, agent_cron_job option) store_action" where
  "get_claimed_job env codec ident = and_then (read_states env codec) (\<lambda>states. return (claimed_in ident states))"

subsection \<open>Recording dispatch results\<close>

definition settled_job :: "nat \<Rightarrow> string \<Rightarrow> string option \<Rightarrow> agent_cron_job \<Rightarrow> agent_cron_job" where
  "settled_job now outcome error job =
     (let job' = job\<lparr>job_status := if kind (job_schedule job) = Once then Completed_Job else job_status job\<rparr> in
      if outcome = ''skipped'' \<and> error = None then
        job'\<lparr>job_next_run_at := next_stamp (job_schedule job) now, job_last_skipped_at := Some (iso_from_millis now),
             job_updated_at := iso_from_millis now\<rparr>
      else
        job'\<lparr>job_last_run_at := Some (iso_from_millis now), job_last_error := error,
             job_run_count := job_run_count job + 1, job_updated_at := iso_from_millis now\<rparr>)"

definition settle_change :: "string \<Rightarrow> nat \<Rightarrow> string \<Rightarrow> string option \<Rightarrow> job_change" where
  "settle_change ident now outcome error job =
     (if job_id job \<noteq> ident \<or> job_status job \<noteq> Active then None else Some (settled_job now outcome error job))"

definition settle_in_state ::
  "string \<Rightarrow> nat \<Rightarrow> string \<Rightarrow> string option \<Rightarrow> agent_cron_job list mutator" where
  "settle_in_state ident now outcome error updated state =
     (case find (\<lambda>candidate. dispatch_id candidate = ident) (state_dispatches state) of
        None \<Rightarrow> Ok (updated, state, [])
      | Some dispatch \<Rightarrow>
          let change = settle_change (dispatch_job_id dispatch) now outcome error in
          Ok (updated @ collected change (state_jobs state),
              \<lparr>state_jobs = changed_jobs change (state_jobs state),
               state_dispatches = filter (\<lambda>candidate. dispatch_id candidate \<noteq> ident) (state_dispatches state)\<rparr>, []))"

definition record_dispatch_result ::
  "'b cron_env \<Rightarrow> 'b cron_codec \<Rightarrow> string \<Rightarrow> nat option \<Rightarrow> string \<Rightarrow> string option
   \<Rightarrow> ('b, agent_cron_job option) store_action" where
  "record_dispatch_result env codec ident now_option outcome error =
     and_then (mutate_states env codec (settle_in_state ident (resolve_now env now_option) outcome error) [])
       (\<lambda>(updated, _). return (last_of updated))"

subsection \<open>Recovery of interrupted dispatches\<close>

definition interrupted_change :: "string set \<Rightarrow> nat \<Rightarrow> job_change" where
  "interrupted_change job_ids now job =
     (if job_id job \<notin> job_ids \<or> job_status job \<noteq> Active then None
      else Some (job\<lparr>job_status := if kind (job_schedule job) = Once then Completed_Job else job_status job,
        job_last_error := Some ''Interrupted before scheduled operation completion'',
        job_updated_at := iso_from_millis now\<rparr>))"

definition recover_interrupted_in_state :: "nat \<Rightarrow> string set option \<Rightarrow> agent_cron_job list mutator" where
  "recover_interrupted_in_state now dispatch_ids recovered state =
     (let selected = (\<lambda>dispatch. case dispatch_ids of None \<Rightarrow> True | Some ids \<Rightarrow> dispatch_id dispatch \<in> ids);
          interrupted = filter selected (state_dispatches state);
          change = interrupted_change (set (map dispatch_job_id interrupted)) now
      in if interrupted = [] then Ok (recovered, state, [])
         else Ok (recovered @ collected change (state_jobs state),
            \<lparr>state_jobs = changed_jobs change (state_jobs state),
             state_dispatches = filter (\<lambda>dispatch. \<not> selected dispatch) (state_dispatches state)\<rparr>, []))"

definition recover_interrupted_dispatches ::
  "'b cron_env \<Rightarrow> 'b cron_codec \<Rightarrow> nat \<Rightarrow> ('b, agent_cron_job list) store_action" where
  "recover_interrupted_dispatches env codec now =
     and_then (mutate_states env codec (recover_interrupted_in_state now None) []) (\<lambda>(recovered, _). return recovered)"

definition recover_interrupted_dispatches_by_id ::
  "'b cron_env \<Rightarrow> 'b cron_codec \<Rightarrow> string list \<Rightarrow> nat \<Rightarrow> ('b, agent_cron_job list) store_action" where
  "recover_interrupted_dispatches_by_id env codec dispatch_ids now =
     and_then (mutate_states env codec (recover_interrupted_in_state now (Some (set dispatch_ids))) [])
       (\<lambda>(recovered, _). return recovered)"

definition recover_session_artifact ::
  "'b cron_env \<Rightarrow> 'b cron_codec \<Rightarrow> string \<Rightarrow> nat \<Rightarrow> ('b, agent_cron_job list) store_action" where
  "recover_session_artifact env codec session_id now store =
     (case map_of (session_artifact_files store) session_id of
        None \<Rightarrow> (Ok [], store)
      | Some p \<Rightarrow> with_state_locks env [p] (\<lambda>locked.
          let state = read_jobs_state env codec (cron_disk locked) p in
          if state_dispatches state = [] then (Ok [], locked)
          else and_then (lift_result (recover_interrupted_in_state now None [] state)) (\<lambda>(recovered, state', _).
               and_then (write_jobs_state env codec p state') (\<lambda>_. return recovered)) locked) store)"

subsection \<open>What is due\<close>

fun due_jobs :: "nat \<Rightarrow> agent_cron_job list \<Rightarrow> (agent_cron_job list, cron_error) result" where
  "due_jobs now [] = Ok []"
| "due_jobs now (job # jobs) =
     try_bind (is_due_job job now) (\<lambda>due.
     try_bind (due_jobs now jobs) (\<lambda>rest. Ok (if due then job # rest else rest)))"

definition due :: "'b cron_env \<Rightarrow> 'b cron_codec \<Rightarrow> nat \<Rightarrow> ('b, agent_cron_job list) store_action" where
  "due env codec now = and_then (read_jobs env codec) (\<lambda>jobs. lift_result (due_jobs now jobs))"

fun first_due :: "string \<Rightarrow> nat \<Rightarrow> agent_cron_job list \<Rightarrow> (agent_cron_job option, cron_error) result" where
  "first_due ident now [] = Ok None"
| "first_due ident now (job # jobs) =
     (if job_id job \<noteq> ident then first_due ident now jobs
      else try_bind (is_due_job job now) (\<lambda>due. if due then Ok (Some job) else first_due ident now jobs))"

definition get_due_job :: "'b cron_env \<Rightarrow> 'b cron_codec \<Rightarrow> string \<Rightarrow> nat \<Rightarrow> ('b, agent_cron_job option) store_action" where
  "get_due_job env codec ident now = and_then (read_jobs env codec) (\<lambda>jobs. lift_result (first_due ident now jobs))"

fun active_runs :: "agent_cron_job list \<Rightarrow> (nat list, cron_error) result" where
  "active_runs [] = Ok []"
| "active_runs (job # jobs) =
     try_bind (if job_status job \<noteq> Active then Ok None
        else case job_next_run_at job of None \<Rightarrow> Ok None | Some stamp \<Rightarrow> parse_iso_millis stamp) (\<lambda>run.
     try_bind (active_runs jobs) (\<lambda>runs. Ok (case run of None \<Rightarrow> runs | Some ms \<Rightarrow> ms # runs)))"

definition next_active_run_at :: "'b cron_env \<Rightarrow> 'b cron_codec \<Rightarrow> ('b, nat option) store_action" where
  "next_active_run_at env codec =
     and_then (read_jobs env codec) (\<lambda>jobs.
     and_then (lift_result (active_runs jobs)) (\<lambda>runs.
     return (if runs = [] then None else Some (Min (set runs)))))"

end
