(* ===== verification/Cron_Heartbeats.thy ===== *)
theory Cron_Heartbeats
  imports Cron_Jobs
begin

text \<open>
  Heartbeat jobs: the \<open>/heartbeat\<close> lifecycle (\<open>heartbeat.rs\<close>) and the heartbeats an agent manages itself
  (\<open>rlm_heartbeat.rs\<close>) in \<open>crates/pa-core/src/cron/store\<close>.
\<close>

datatype heartbeat_management_action = PauseAction | ResumeAction | StopAction

datatype rlm_heartbeat_status_update = PauseStatus | ResumeStatus

record rlm_heartbeat_update =
  update_label :: "string option"
  update_prompt :: "string option"
  update_schedule_text :: "string option"
  update_status :: "rlm_heartbeat_status_update option"
  update_delivery_mode :: "delivery_mode option"
  update_now :: "nat option"

subsection \<open>The session's heartbeat\<close>

text \<open>\<open>max_by_key\<close> over the update times, an unreadable one counting as 0; of equal maxima the last is taken.\<close>

fun latest_updated :: "agent_cron_job list \<Rightarrow> (nat \<times> agent_cron_job) option \<Rightarrow> (agent_cron_job option, cron_error) result" where
  "latest_updated [] best = Ok (map_option snd best)"
| "latest_updated (job # jobs) best =
     try_bind (parse_iso_millis (job_updated_at job)) (\<lambda>parsed.
     let ms = (case parsed of None \<Rightarrow> 0 | Some ms \<Rightarrow> ms) in
     latest_updated jobs (case best of
         None \<Rightarrow> Some (ms, job)
       | Some (best_ms, best_job) \<Rightarrow> if best_ms \<le> ms then Some (ms, job) else best))"

definition open_heartbeat :: "string \<Rightarrow> agent_cron_job \<Rightarrow> bool" where
  "open_heartbeat session job \<longleftrightarrow> job_active_session_id job = session \<and> job_source job = Some ''heartbeat''
     \<and> job_status job \<in> {Active, Paused}"

definition get_heartbeat :: "'b cron_env \<Rightarrow> 'b cron_codec \<Rightarrow> string \<Rightarrow> ('b, agent_cron_job option) store_action" where
  "get_heartbeat env codec session =
     and_then (read_jobs env codec) (\<lambda>jobs. lift_result (latest_updated (filter (open_heartbeat session) jobs) None))"

definition get_latest_heartbeat :: "'b cron_env \<Rightarrow> 'b cron_codec \<Rightarrow> string \<Rightarrow> ('b, agent_cron_job option) store_action" where
  "get_latest_heartbeat env codec session =
     and_then (read_jobs env codec) (\<lambda>jobs. lift_result (latest_updated
       (filter (\<lambda>job. job_active_session_id job = session \<and> job_source job = Some ''heartbeat'') jobs) None))"

definition heartbeat_mode :: "create_job_input \<Rightarrow> delivery_mode option" where
  "heartbeat_mode input = Some (case input_delivery_mode input of
     None \<Rightarrow> DEFAULT_HEARTBEAT_DELIVERY_MODE | Some mode \<Rightarrow> mode)"

definition create_heartbeat ::
  "case_table \<Rightarrow> 'b cron_env \<Rightarrow> 'b cron_codec \<Rightarrow> create_job_input \<Rightarrow> ('b, agent_cron_job) store_action" where
  "create_heartbeat table env codec input =
     (let now = resolve_now env (input_now input) in
      and_then (lift_result (parse_agent_cron_schedule table (input_schedule_text input) now)) (\<lambda>(schedule, run).
      if kind schedule = Once then throw (Bail ''Heartbeat schedule must be recurring'')
      else if trim (input_prompt input) = [] then throw (Bail ''Heartbeat instruction cannot be empty'')
      else and_then (read_jobs env codec) (\<lambda>jobs.
        let existing = map (\<lambda>job. if open_heartbeat (input_active_session_id input) job then cancelled_job now job else job) jobs;
            job = new_job input (uuid env 0) ''heartbeat'' (heartbeat_mode input) now schedule run
        in and_then (write_jobs env codec (existing @ [job])) (\<lambda>_. return job))))"

text \<open>
  The shape \<open>pause_heartbeat\<close>, \<open>resume_heartbeat\<close> and \<open>clear_heartbeat\<close> share: every job with the identifier of
  the current heartbeat is changed, and the jobs are written whether or not one was found.
\<close>

definition change_heartbeat ::
  "'b cron_env \<Rightarrow> 'b cron_codec \<Rightarrow> string \<Rightarrow> (agent_cron_job \<Rightarrow> agent_cron_job) \<Rightarrow> ('b, agent_cron_job option) store_action" where
  "change_heartbeat env codec ident change =
     and_then (read_jobs env codec) (\<lambda>jobs.
     let selected = (\<lambda>job. if job_id job \<noteq> ident then None else Some (change job)) in
     and_then (write_jobs env codec (changed_jobs selected jobs)) (\<lambda>_. return (last_of (collected selected jobs))))"

definition pause_heartbeat :: "'b cron_env \<Rightarrow> 'b cron_codec \<Rightarrow> string \<Rightarrow> nat \<Rightarrow> ('b, agent_cron_job option) store_action" where
  "pause_heartbeat env codec session now =
     and_then (get_heartbeat env codec session) (\<lambda>found. case found of
       None \<Rightarrow> return None
     | Some current \<Rightarrow> change_heartbeat env codec (job_id current) (\<lambda>job.
         job\<lparr>job_status := Paused, job_next_run_at := None, job_updated_at := iso_from_millis now\<rparr>))"

definition resume_heartbeat :: "'b cron_env \<Rightarrow> 'b cron_codec \<Rightarrow> string \<Rightarrow> nat \<Rightarrow> ('b, agent_cron_job option) store_action" where
  "resume_heartbeat env codec session now =
     and_then (get_heartbeat env codec session) (\<lambda>found. case found of
       None \<Rightarrow> return None
     | Some current \<Rightarrow> and_then (lift_result (next_run_at_for_schedule (job_schedule current) now)) (\<lambda>next. case next of
         None \<Rightarrow> throw (Bail ''Heartbeat schedule must be recurring'')
       | Some run \<Rightarrow> change_heartbeat env codec (job_id current) (\<lambda>job.
           job\<lparr>job_status := Active, job_next_run_at := Some (iso_from_millis run), job_updated_at := iso_from_millis now\<rparr>)))"

definition clear_heartbeat :: "'b cron_env \<Rightarrow> 'b cron_codec \<Rightarrow> string \<Rightarrow> nat \<Rightarrow> ('b, agent_cron_job option) store_action" where
  "clear_heartbeat env codec session now =
     and_then (get_heartbeat env codec session) (\<lambda>found. case found of
       None \<Rightarrow> return None
     | Some current \<Rightarrow> change_heartbeat env codec (job_id current) (cancelled_job now))"

definition managed_change :: "string \<Rightarrow> string \<Rightarrow> heartbeat_management_action \<Rightarrow> nat \<Rightarrow> job_change" where
  "managed_change session ident action now job =
     (if job_id job \<noteq> ident \<or> job_active_session_id job \<noteq> session \<or> \<not> is_heartbeat_cron_job job
         \<or> job_status job \<in> {Cancelled, Completed_Job} then None
      else Some (case action of
        PauseAction \<Rightarrow> job\<lparr>job_status := Paused, job_next_run_at := None, job_updated_at := iso_from_millis now\<rparr>
      | StopAction \<Rightarrow> cancelled_job now job
      | ResumeAction \<Rightarrow> job\<lparr>job_status := Active, job_updated_at := iso_from_millis now\<rparr>))"

definition manage_heartbeat ::
  "'b cron_env \<Rightarrow> 'b cron_codec \<Rightarrow> string \<Rightarrow> string \<Rightarrow> heartbeat_management_action \<Rightarrow> nat
   \<Rightarrow> ('b, agent_cron_job option) store_action" where
  "manage_heartbeat env codec session ident action now =
     and_then (read_jobs env codec) (\<lambda>before.
     let change = managed_change session ident action now; jobs = changed_jobs change before in
     case last_of (collected change before) of
       None \<Rightarrow> return None
     | Some updated \<Rightarrow>
         if action = ResumeAction then
           and_then (lift_result (next_run_at_for_schedule (job_schedule updated) now)) (\<lambda>next. case next of
             None \<Rightarrow> throw (Bail ''Heartbeat schedule must be recurring'')
           | Some run \<Rightarrow>
               let resumed = updated\<lparr>job_next_run_at := Some (iso_from_millis run)\<rparr> in
               and_then (write_jobs env codec (map (\<lambda>job. if job_id job = job_id resumed then resumed else job) jobs))
                 (\<lambda>_. return (Some resumed)))
         else and_then (write_jobs env codec jobs) (\<lambda>_. return (Some updated)))"

subsection \<open>Heartbeats of the agent\<close>

definition rlm_heartbeat :: "string \<Rightarrow> agent_cron_job \<Rightarrow> bool" where
  "rlm_heartbeat session job \<longleftrightarrow> job_active_session_id job = session \<and> job_source job = Some ''rlm_heartbeat''"

definition create_rlm_heartbeat ::
  "case_table \<Rightarrow> 'b cron_env \<Rightarrow> 'b cron_codec \<Rightarrow> create_job_input \<Rightarrow> ('b, agent_cron_job) store_action" where
  "create_rlm_heartbeat table env codec input =
     (let now = resolve_now env (input_now input) in
      and_then (lift_result (parse_agent_cron_schedule table (input_schedule_text input) now)) (\<lambda>(schedule, run).
      if kind schedule = Once then throw (Bail ''RLM heartbeat schedule must be recurring'')
      else if trim (input_prompt input) = [] then throw (Bail ''RLM heartbeat instruction cannot be empty'')
      else
        let job = new_job input (uuid env 0) ''rlm_heartbeat'' (heartbeat_mode input) now schedule run in
        and_then (read_jobs env codec) (\<lambda>jobs.
        and_then (write_jobs env codec (jobs @ [job])) (\<lambda>_. return job))))"

definition reschedule :: "case_table \<Rightarrow> nat \<Rightarrow> string option \<Rightarrow> agent_cron_job \<Rightarrow> (agent_cron_job option, cron_error) result" where
  "reschedule table now schedule_text job = (case schedule_text of
     None \<Rightarrow> Ok (Some job)
   | Some source \<Rightarrow> (case parse_agent_cron_schedule table source now of
        Err (Panic msg) \<Rightarrow> Err (Panic msg)
      | Err (Bail msg) \<Rightarrow> Ok None
      | Ok (schedule, run) \<Rightarrow>
          if kind schedule = Once then Ok None
          else Ok (Some (job\<lparr>job_schedule := schedule,
                 job_next_run_at := if job_status job = Paused then None else Some (iso_from_millis run)\<rparr>))))"

definition update_rlm_job ::
  "case_table \<Rightarrow> nat \<Rightarrow> rlm_heartbeat_update \<Rightarrow> agent_cron_job \<Rightarrow> (agent_cron_job option, cron_error) result" where
  "update_rlm_job table now update job =
     (if job_status job \<in> {Cancelled, Completed_Job} then Ok None
      else
        let labelled = (case update_label update of None \<Rightarrow> job | Some label \<Rightarrow> job\<lparr>job_label := normalize_optional_label (Some label)\<rparr>);
            moded = (case update_delivery_mode update of None \<Rightarrow> labelled | Some mode \<Rightarrow> labelled\<lparr>job_delivery_mode := Some mode\<rparr>)
        in if map_option trim (update_prompt update) = Some [] then Ok None
           else
             let prompted = (case update_prompt update of None \<Rightarrow> moded | Some prompt \<Rightarrow> moded\<lparr>job_prompt := trim prompt\<rparr>) in
             try_bind (reschedule table now (update_schedule_text update) prompted) (\<lambda>rescheduled. Ok (case rescheduled of
               None \<Rightarrow> None
             | Some next \<Rightarrow> Some ((case update_status update of
                   Some PauseStatus \<Rightarrow> next\<lparr>job_status := Paused, job_next_run_at := None\<rparr>
                 | Some ResumeStatus \<Rightarrow> next\<lparr>job_status := Active, job_next_run_at := next_stamp (job_schedule next) now\<rparr>
                 | None \<Rightarrow> next)\<lparr>job_updated_at := iso_from_millis now\<rparr>))))"

text \<open>The pass over the jobs: whether one matched, the jobs after it, and the updated ones.\<close>

fun update_rlm_jobs ::
  "case_table \<Rightarrow> nat \<Rightarrow> rlm_heartbeat_update \<Rightarrow> string \<Rightarrow> string \<Rightarrow> agent_cron_job list
   \<Rightarrow> (bool \<times> agent_cron_job list \<times> agent_cron_job list, cron_error) result" where
  "update_rlm_jobs table now update session ident [] = Ok (False, [], [])"
| "update_rlm_jobs table now update session ident (job # jobs) =
     (if job_id job \<noteq> ident \<or> \<not> rlm_heartbeat session job then
        try_bind (update_rlm_jobs table now update session ident jobs) (\<lambda>(matched, jobs', updated).
        Ok (matched, job # jobs', updated))
      else
        try_bind (update_rlm_job table now update job) (\<lambda>changed.
        try_bind (update_rlm_jobs table now update session ident jobs) (\<lambda>(matched, jobs', updated).
        Ok (True, (case changed of None \<Rightarrow> job | Some job' \<Rightarrow> job') # jobs',
            (case changed of None \<Rightarrow> updated | Some job' \<Rightarrow> job' # updated)))))"

definition update_rlm_heartbeat ::
  "case_table \<Rightarrow> 'b cron_env \<Rightarrow> 'b cron_codec \<Rightarrow> string \<Rightarrow> string \<Rightarrow> rlm_heartbeat_update
   \<Rightarrow> ('b, agent_cron_job option) store_action" where
  "update_rlm_heartbeat table env codec session ident update =
     (let now = resolve_now env (update_now update) in
      and_then (read_jobs env codec) (\<lambda>jobs.
      and_then (lift_result (update_rlm_jobs table now update session ident jobs)) (\<lambda>(matched, jobs', updated).
      if \<not> matched then return None
      else case last_of updated of
        None \<Rightarrow> throw (Bail ''RLM heartbeat update rejected (empty instruction or non-recurring schedule)'')
      | Some job \<Rightarrow> and_then (write_jobs env codec jobs') (\<lambda>_. return (Some job)))))"

definition delete_rlm_heartbeat ::
  "'b cron_env \<Rightarrow> 'b cron_codec \<Rightarrow> string \<Rightarrow> string \<Rightarrow> nat \<Rightarrow> ('b, agent_cron_job option) store_action" where
  "delete_rlm_heartbeat env codec session ident now = change_one env codec (\<lambda>job.
     if job_id job \<noteq> ident \<or> \<not> rlm_heartbeat session job then None else Some (cancelled_job now job))"

definition cancel_rlm_heartbeats_for_session ::
  "'b cron_env \<Rightarrow> 'b cron_codec \<Rightarrow> string \<Rightarrow> nat \<Rightarrow> ('b, agent_cron_job list) store_action" where
  "cancel_rlm_heartbeats_for_session env codec session now = change_and_collect env codec (\<lambda>job.
     if \<not> rlm_heartbeat session job \<or> job_status job \<notin> {Active, Paused} then None else Some (cancelled_job now job))"

end
