(* ===== verification/Cron_Codec.thy ===== *)
theory Cron_Codec
  imports Cron_Jobs
begin

text \<open>
  What the job store relies on of its serialization: a state that was written is read back as it was, and the
  compact texts it compares differ for different states. \<open>json_cron_codec\<close> has these properties.
\<close>

definition faithful_codec :: "'b cron_codec \<Rightarrow> bool" where
  "faithful_codec codec \<longleftrightarrow>
     (\<forall>state. \<exists>parsed rows entries. parse_document codec (document codec state) = Some parsed
        \<and> get_array parsed ''jobs'' = Some rows \<and> List.map_filter (job_from_json codec) rows = state_jobs state
        \<and> get_array parsed ''dispatches'' = Some entries
        \<and> List.map_filter (dispatch_from_json codec) entries = state_dispatches state)
     \<and> inj (compact codec)"

lemma faithful_codec_compact: "faithful_codec codec \<Longrightarrow> compact codec s = compact codec t \<longleftrightarrow> s = t"
  by (auto simp: faithful_codec_def dest: injD)

lemma read_document:
  assumes "faithful_codec codec" "bt_get disk p = Some (document codec state)" "io_fault env (ReadFile p) = None"
  shows "read_jobs_state env codec disk p = state"
proof -
  obtain parsed rows entries where "parse_document codec (document codec state) = Some parsed"
    "get_array parsed ''jobs'' = Some rows" "List.map_filter (job_from_json codec) rows = state_jobs state"
    "get_array parsed ''dispatches'' = Some entries"
    "List.map_filter (dispatch_from_json codec) entries = state_dispatches state"
    using assms(1) unfolding faithful_codec_def by blast
  with assms(2,3) show ?thesis by (simp add: read_jobs_state_def fs_read_def)
qed

subsection \<open>A faithful codec\<close>

fun option_json :: "string option \<Rightarrow> json" where
  "option_json None = Null"
| "option_json (Some s) = String s"

fun option_of_json :: "json \<Rightarrow> string option" where
  "option_of_json (String s) = Some s"
| "option_of_json _ = None"

definition status_json :: "job_status \<Rightarrow> json" where
  "status_json st = String (case st of Active \<Rightarrow> ''active'' | Paused \<Rightarrow> ''paused'' | Completed_Job \<Rightarrow> ''completed'' | Cancelled \<Rightarrow> ''cancelled'')"

definition status_of_json :: "json \<Rightarrow> job_status" where
  "status_of_json j = (if j = String ''active'' then Active else if j = String ''paused'' then Paused
     else if j = String ''completed'' then Completed_Job else Cancelled)"

definition kind_json :: "schedule_kind \<Rightarrow> json" where
  "kind_json k = String (case k of Once \<Rightarrow> ''once'' | Cron \<Rightarrow> ''cron'' | Interval \<Rightarrow> ''interval'')"

definition kind_of_json :: "json \<Rightarrow> schedule_kind" where
  "kind_of_json j = (if j = String ''once'' then Once else if j = String ''cron'' then Cron else Interval)"

definition mode_json :: "delivery_mode option \<Rightarrow> json" where
  "mode_json m = (case m of None \<Rightarrow> Null | Some Steer \<Rightarrow> String ''steer'' | Some FollowUp \<Rightarrow> String ''follow_up'')"

definition mode_of_json :: "json \<Rightarrow> delivery_mode option" where
  "mode_of_json j = (if j = String ''steer'' then Some Steer else if j = String ''follow_up'' then Some FollowUp else None)"

definition span_json :: "nat option \<Rightarrow> json" where
  "span_json span = (case span of None \<Rightarrow> Null | Some ms \<Rightarrow> Integer (int ms))"

definition span_of_json :: "json \<Rightarrow> nat option" where
  "span_of_json j = (case j of Integer ms \<Rightarrow> Some (nat ms) | _ \<Rightarrow> None)"

lemma codec_parts [simp]: "option_of_json (option_json s) = s" "status_of_json (status_json st) = st"
  "kind_of_json (kind_json k) = k" "mode_of_json (mode_json m) = m" "span_of_json (span_json span) = span"
proof -
  show "option_of_json (option_json s) = s" by (cases s) simp_all
  show "status_of_json (status_json st) = st" by (cases st) (simp_all add: status_json_def status_of_json_def)
  show "kind_of_json (kind_json k) = k" by (cases k) (simp_all add: kind_json_def kind_of_json_def)
  show "mode_of_json (mode_json m) = m" by (simp add: mode_json_def mode_of_json_def split: option.split delivery_mode.split)
  show "span_of_json (span_json span) = span" by (cases span) (simp_all add: span_json_def span_of_json_def)
qed

definition job_json :: "agent_cron_job \<Rightarrow> json" where
  "job_json job = Array
     [String (job_id job), status_json (job_status job), option_json (job_source job), option_json (job_runtime_kind job),
      mode_json (job_delivery_mode job), String (job_active_session_id job), String (job_session_id job),
      String (job_session_file job), String (job_cwd job), option_json (job_label job), String (job_prompt job),
      Array [kind_json (kind (job_schedule job)), String (expression (job_schedule job)), span_json (interval_ms (job_schedule job))],
      String (job_created_at job), String (job_updated_at job), option_json (job_next_run_at job), option_json (job_last_run_at job),
      option_json (job_last_skipped_at job), option_json (job_last_error job), Integer (uint (job_run_count job))]"

definition string_of_json :: "json \<Rightarrow> string" where
  "string_of_json j = (case j of String s \<Rightarrow> s | _ \<Rightarrow> [])"

definition items_of_json :: "json \<Rightarrow> json list" where
  "items_of_json j = (case j of Array xs \<Rightarrow> xs | _ \<Rightarrow> [])"

definition schedule_of_json :: "json list \<Rightarrow> agent_cron_schedule" where
  "schedule_of_json xs = \<lparr>kind = kind_of_json (xs ! 0), expression = string_of_json (xs ! 1), interval_ms = span_of_json (xs ! 2)\<rparr>"

definition job_of_json :: "json \<Rightarrow> agent_cron_job option" where
  "job_of_json j = (let xs = items_of_json j in if length xs \<noteq> 19 then None else
     Some \<lparr>job_id = string_of_json (xs ! 0), job_status = status_of_json (xs ! 1), job_source = option_of_json (xs ! 2),
       job_runtime_kind = option_of_json (xs ! 3), job_delivery_mode = mode_of_json (xs ! 4),
       job_active_session_id = string_of_json (xs ! 5), job_session_id = string_of_json (xs ! 6),
       job_session_file = string_of_json (xs ! 7), job_cwd = string_of_json (xs ! 8), job_label = option_of_json (xs ! 9),
       job_prompt = string_of_json (xs ! 10), job_schedule = schedule_of_json (items_of_json (xs ! 11)),
       job_created_at = string_of_json (xs ! 12), job_updated_at = string_of_json (xs ! 13),
       job_next_run_at = option_of_json (xs ! 14), job_last_run_at = option_of_json (xs ! 15),
       job_last_skipped_at = option_of_json (xs ! 16), job_last_error = option_of_json (xs ! 17),
       job_run_count = (case xs ! 18 of Integer n \<Rightarrow> word_of_int n | _ \<Rightarrow> 0)\<rparr>)"

definition dispatch_json :: "agent_cron_dispatch_record \<Rightarrow> json" where
  "dispatch_json d = Array [String (dispatch_id d), String (dispatch_job_id d), String (claimed_at d), String (scheduled_for d)]"

definition dispatch_of_json :: "json \<Rightarrow> agent_cron_dispatch_record option" where
  "dispatch_of_json j = (let xs = items_of_json j in if length xs \<noteq> 4 then None else
     Some \<lparr>dispatch_id = string_of_json (xs ! 0), dispatch_job_id = string_of_json (xs ! 1),
       claimed_at = string_of_json (xs ! 2), scheduled_for = string_of_json (xs ! 3)\<rparr>)"

lemma json_reads [simp]: "string_of_json (String s) = s" "items_of_json (Array xs) = xs"
  by (simp_all add: string_of_json_def items_of_json_def)

lemma job_of_job_json [simp]: "job_of_json (job_json job) = Some job"
  by (cases job) (simp add: job_of_json_def job_json_def schedule_of_json_def Let_def)

lemma dispatch_of_dispatch_json [simp]: "dispatch_of_json (dispatch_json d) = Some d"
  by (cases d) (simp add: dispatch_of_json_def dispatch_json_def Let_def)

definition state_json :: "cron_jobs_state \<Rightarrow> json" where
  "state_json state = Object [(''jobs'', Array (map job_json (state_jobs state))),
     (''dispatches'', Array (map dispatch_json (state_dispatches state)))]"

definition json_cron_codec :: "json cron_codec" where
  "json_cron_codec = \<lparr>document = state_json, compact = state_json, parse_document = Some,
     job_from_json = job_of_json, dispatch_from_json = dispatch_of_json\<rparr>"

lemma map_filter_inverse: "(\<And>x. f (g x) = Some x) \<Longrightarrow> List.map_filter f (map g xs) = xs"
  by (induction xs) (simp_all add: List.map_filter_simps)

lemma json_cron_codec_faithful: "faithful_codec json_cron_codec"
  unfolding faithful_codec_def
proof (intro conjI allI)
  show "inj (compact json_cron_codec)"
  proof (rule injI)
    fix s t :: cron_jobs_state
    assume "compact json_cron_codec s = compact json_cron_codec t"
    then have "map job_json (state_jobs s) = map job_json (state_jobs t)"
      "map dispatch_json (state_dispatches s) = map dispatch_json (state_dispatches t)"
      by (simp_all add: json_cron_codec_def state_json_def)
    then have "state_jobs s = state_jobs t" "state_dispatches s = state_dispatches t"
      by (metis map_filter_inverse job_of_job_json, metis map_filter_inverse dispatch_of_dispatch_json)
    then show "s = t" by simp
  qed
qed (simp add: json_cron_codec_def state_json_def get_array_def map_filter_inverse)

end
