(* ===== verification/Cron_Files.thy ===== *)
theory Cron_Files
  imports Cron_Codec
begin

text \<open>
  The files of the job store refine a list of states: an operation that locks, reads, changes and rewrites the
  files (\<open>mutate_states\<close>) and succeeds has done to the stored states what its mutator does to a list of states
  (\<open>mutate_all\<close>), provided the files are readable and the temporary files are no state files. A write is atomic.
\<close>

definition jobs_on_disk :: "'b cron_codec \<Rightarrow> 'b disk \<Rightarrow> path \<Rightarrow> cron_jobs_state" where
  "jobs_on_disk codec disk p = (case bt_get disk p of
     None \<Rightarrow> default_jobs_state
   | Some raw \<Rightarrow> (case parse_document codec raw of
        None \<Rightarrow> default_jobs_state
      | Some parsed \<Rightarrow>
          \<lparr>state_jobs = (case get_array parsed ''jobs'' of
              None \<Rightarrow> [] | Some rows \<Rightarrow> List.map_filter (job_from_json codec) rows),
           state_dispatches = (case get_array parsed ''dispatches'' of
              None \<Rightarrow> [] | Some rows \<Rightarrow> List.map_filter (dispatch_from_json codec) rows)\<rparr>))"

fun mutate_all ::
  "'acc mutator \<Rightarrow> 'acc \<Rightarrow> cron_jobs_state list
   \<Rightarrow> ('acc \<times> cron_jobs_state list \<times> agent_cron_dispatch list, cron_error) result" where
  "mutate_all mutator acc [] = Ok (acc, [], [])"
| "mutate_all mutator acc (state # states) =
     try_bind (mutator acc state) (\<lambda>(acc', state', claimed).
     try_bind (mutate_all mutator acc' states) (\<lambda>(acc'', states', dispatches).
     Ok (acc'', state' # states', claimed @ dispatches)))"

text \<open>The state files of a store, and what an environment must leave alone for the refinement.\<close>

definition store_files :: "'b cron_store \<Rightarrow> path list" where
  "store_files store = (case state_paths store of Ok paths \<Rightarrow> paths | Err _ \<Rightarrow> [])"

definition orderly :: "'b cron_env \<Rightarrow> path list \<Rightarrow> bool" where
  "orderly env paths \<longleftrightarrow> distinct paths
     \<and> (\<forall>p \<in> set paths. io_fault env (ReadFile p) = None \<and> (\<forall>q \<in> set paths. cron_temp_path env q \<noteq> p))"

lemma read_jobs_state_on_disk:
  "io_fault env (ReadFile p) = None \<Longrightarrow> read_jobs_state env codec disk p = jobs_on_disk codec disk p"
  by (simp add: read_jobs_state_def jobs_on_disk_def fs_read_def split: option.splits)

lemma unreadable_state: "io_fault env (ReadFile p) \<noteq> None \<Longrightarrow> read_jobs_state env codec disk p = default_jobs_state"
  by (auto simp: read_jobs_state_def fs_read_def)

lemma jobs_on_disk_written:
  assumes "faithful_codec codec" "bt_get disk p = Some (document codec state)"
  shows "jobs_on_disk codec disk p = state"
proof -
  obtain parsed rows entries where "parse_document codec (document codec state) = Some parsed"
    "get_array parsed ''jobs'' = Some rows" "List.map_filter (job_from_json codec) rows = state_jobs state"
    "get_array parsed ''dispatches'' = Some entries"
    "List.map_filter (dispatch_from_json codec) entries = state_dispatches state"
    using assms(1) unfolding faithful_codec_def by blast
  with assms(2) show ?thesis by (simp add: jobs_on_disk_def)
qed

lemma jobs_on_disk_cong: "bt_get disk p = bt_get disk' p \<Longrightarrow> jobs_on_disk codec disk p = jobs_on_disk codec disk' p"
  by (simp add: jobs_on_disk_def)

subsection \<open>Writes\<close>

text \<open>Whatever fails, the target holds its old or its new contents, and nothing but it and its temporary file changes.\<close>

lemma atomic_write_with_effect:
  assumes "atomic_write_with env p content disk = (r, disk')"
  shows "agree_off {p, cron_temp_path env p} disk disk'" "r = Ok () \<Longrightarrow> bt_get disk' p = Some content"
    "p \<noteq> cron_temp_path env p \<Longrightarrow> bt_get disk' p \<in> {bt_get disk p, Some content}"
  using assms
  by (auto simp: atomic_write_with_def and_then_def fs_write_def fs_rename_def agree_off_def return_def throw_def
      bt_simps bt_get_disk_remove split: option.splits if_splits)

lemma write_jobs_state_effect:
  assumes "write_jobs_state env codec p state store = (r, store')"
  shows "agree_off {p, cron_temp_path env p} (cron_disk store) (cron_disk store')"
    "store' = store\<lparr>cron_disk := cron_disk store'\<rparr>"
    "r = Ok () \<Longrightarrow> bt_get (cron_disk store') p = Some (document codec state)"
    "p \<noteq> cron_temp_path env p \<Longrightarrow>
      bt_get (cron_disk store') p \<in> {bt_get (cron_disk store) p, Some (document codec state)}"
proof -
  let ?dirs = "case path_parent p of None \<Rightarrow> Ok () | Some parent \<Rightarrow> map_err from_io (fs_create_dir_all env parent)"
  obtain w disk' where w: "atomic_write_with env p (document codec state) (cron_disk store) = (w, disk')" by fastforce
  have "(\<exists>e. r = Err e) \<and> store' = store \<or> r = map_err from_io w \<and> store' = store\<lparr>cron_disk := disk'\<rparr>"
  proof (cases ?dirs)
    case (Err e)
    with assms have "r = Err e \<and> store' = store" by (auto simp: write_jobs_state_def and_then_def lift_result_def)
    then show ?thesis by blast
  next
    case (Ok x)
    with assms w show ?thesis by (auto simp: write_jobs_state_def and_then_def lift_result_def on_disk_def)
  qed
  moreover note atomic_write_with_effect [OF w]
  ultimately show "agree_off {p, cron_temp_path env p} (cron_disk store) (cron_disk store')"
    "store' = store\<lparr>cron_disk := cron_disk store'\<rparr>"
    "r = Ok () \<Longrightarrow> bt_get (cron_disk store') p = Some (document codec state)"
    "p \<noteq> cron_temp_path env p \<Longrightarrow>
      bt_get (cron_disk store') p \<in> {bt_get (cron_disk store) p, Some (document codec state)}"
    by (cases w; auto)+
qed

subsection \<open>The files refine a list of states\<close>

text \<open>One file: rewritten when its state changed, otherwise left as it is.\<close>

lemma mutate_file_Ok:
  assumes "mutate_files env codec mutator (p # ps) (acc, changed, dispatches) store = (Ok (acc', changed', all), store')"
  obtains acc1 state claimed changed1 mid
  where "mutator acc (read_jobs_state env codec (cron_disk store) p) = Ok (acc1, state, claimed)"
    "mutate_files env codec mutator ps (acc1, changed1, dispatches @ claimed) mid = (Ok (acc', changed', all), store')"
    "mid = store \<and> compact codec state = compact codec (read_jobs_state env codec (cron_disk store) p)
      \<or> write_jobs_state env codec p state store = (Ok (), mid)"
proof -
  obtain acc1 state claimed where run: "mutator acc (read_jobs_state env codec (cron_disk store) p) = Ok (acc1, state, claimed)"
    using assms by (auto simp: Let_def split: result.splits)
  show thesis
  proof (cases "compact codec state = compact codec (read_jobs_state env codec (cron_disk store) p)")
    case True
    with assms run that [OF run, of changed store] show thesis by (simp add: Let_def)
  next
    case False
    with assms run obtain mid where "write_jobs_state env codec p state store = (Ok (), mid)"
      "mutate_files env codec mutator ps (acc1, True, dispatches @ claimed) mid = (Ok (acc', changed', all), store')"
      by (auto simp: Let_def and_then_def split: prod.splits result.splits)
    with that [OF run] show thesis by blast
  qed
qed

lemma mutate_files_untouched:
  assumes "mutate_files env codec mutator ps (acc, changed, dispatches) store = (Ok (acc', changed', all), store')"
    "q \<notin> set ps" "\<forall>p \<in> set ps. cron_temp_path env p \<noteq> q"
  shows "bt_get (cron_disk store') q = bt_get (cron_disk store) q"
  using assms
proof (induction ps arbitrary: acc changed dispatches store)
  case (Cons p ps)
  from Cons.prems(1) obtain acc1 state claimed changed1 mid
    where rest: "mutate_files env codec mutator ps (acc1, changed1, dispatches @ claimed) mid = (Ok (acc', changed', all), store')"
      and saved: "mid = store \<or> write_jobs_state env codec p state store = (Ok (), mid)"
    by (rule mutate_file_Ok) blast
  have "bt_get (cron_disk mid) q = bt_get (cron_disk store) q"
    using saved Cons.prems(2,3) by (auto dest!: write_jobs_state_effect(1) agree_offD)
  with Cons.IH [OF rest] Cons.prems(2,3) show ?case by simp
qed simp

lemma mutate_files_keeps:
  assumes "mutate_files env codec mutator ps (acc, changed, dispatches) store = (r, store')"
  shows "store' = store\<lparr>cron_disk := cron_disk store'\<rparr>"
  using assms
proof (induction ps arbitrary: acc changed dispatches store)
  case (Cons p ps)
  let ?state = "read_jobs_state env codec (cron_disk store) p"
  show ?case
  proof (cases "mutator acc ?state")
    case (Ok x)
    obtain acc1 state claimed where x: "x = (acc1, state, claimed)" by (cases x)
    show ?thesis
    proof (cases "compact codec state = compact codec ?state")
      case True
      with Cons Ok x show ?thesis by (simp add: Let_def)
    next
      case False
      obtain w mid where w: "write_jobs_state env codec p state store = (w, mid)" by fastforce
      note kept = write_jobs_state_effect(2) [OF w]
      show ?thesis
      proof (cases w)
        case (Err e)
        with Cons.prems Ok x False w kept show ?thesis by (simp add: Let_def and_then_def)
      next
        case w_ok: (Ok u)
        have "mutate_files env codec mutator ps (acc1, True, dispatches @ claimed) mid = (r, store')"
          using Cons.prems Ok x False w w_ok by (simp add: Let_def and_then_def)
        from Cons.IH [OF this] kept show ?thesis by (cases store; cases mid; cases store') simp
      qed
    qed
  qed (use Cons.prems in \<open>simp add: Let_def\<close>)
qed simp

lemma mutate_files_refine:
  assumes "mutate_files env codec mutator ps (acc, changed, dispatches) store = (Ok (acc', changed', all), store')"
    "faithful_codec codec" "orderly env ps"
  shows "\<exists>claimed. all = dispatches @ claimed \<and> mutate_all mutator acc (map (jobs_on_disk codec (cron_disk store)) ps)
    = Ok (acc', map (jobs_on_disk codec (cron_disk store')) ps, claimed)"
  using assms
proof (induction ps arbitrary: acc changed dispatches store)
  case (Cons p ps)
  let ?state = "jobs_on_disk codec (cron_disk store) p"
  have order: "orderly env ps" "p \<notin> set ps" "io_fault env (ReadFile p) = None" "\<forall>q \<in> set ps. cron_temp_path env q \<noteq> p"
    "\<forall>q \<in> set ps. cron_temp_path env p \<noteq> q" "p \<noteq> cron_temp_path env p"
    using Cons.prems(3) by (auto simp: orderly_def)
  from Cons.prems(1) obtain acc1 state claimed changed1 mid
    where run: "mutator acc ?state = Ok (acc1, state, claimed)"
      and rest: "mutate_files env codec mutator ps (acc1, changed1, dispatches @ claimed) mid = (Ok (acc', changed', all), store')"
      and saved: "mid = store \<and> compact codec state = compact codec ?state \<or> write_jobs_state env codec p state store = (Ok (), mid)"
    unfolding read_jobs_state_on_disk [OF order(3), symmetric] by (rule mutate_file_Ok) blast
  have others: "bt_get (cron_disk mid) q = bt_get (cron_disk store) q" if "q \<in> set ps" for q
    using saved that order(2,5) by (auto dest!: write_jobs_state_effect(1) agree_offD)
  have mid: "jobs_on_disk codec (cron_disk mid) p = state"
    using saved Cons.prems(2) by (auto simp: faithful_codec_compact dest!: write_jobs_state_effect(3) jobs_on_disk_written)
  have "jobs_on_disk codec (cron_disk store') p = state"
    using mutate_files_untouched [OF rest order(2,4)] mid jobs_on_disk_cong by metis
  moreover have same: "map (jobs_on_disk codec (cron_disk mid)) ps = map (jobs_on_disk codec (cron_disk store)) ps"
    using others by (auto intro: jobs_on_disk_cong)
  ultimately show ?case
    using Cons.IH [OF rest Cons.prems(2) order(1), unfolded same] run by auto
qed simp

lemma read_jobs_keeps_store: "snd (read_jobs env codec store) = store"
  by (simp add: read_jobs_def read_states_def and_then_def return_def split: result.splits)

lemma notify_keeps_files:
  assumes "notify_if_changed env codec previous store = (r, store')"
  shows "cron_disk store' = cron_disk store" "state_paths store' = state_paths store"
proof -
  obtain x where "read_jobs env codec store = (x, store)"
    using read_jobs_keeps_store [of env codec store] by (metis prod.collapse)
  with assms have "cron_disk store' = cron_disk store \<and> state_paths store' = state_paths store"
    by (auto simp: notify_if_changed_def and_then_def notify_heartbeat_change_def return_def state_paths_def require_file_path_def
        split: result.splits if_splits)
  then show "cron_disk store' = cron_disk store" "state_paths store' = state_paths store" by simp_all
qed

lemma state_paths_disk [simp]: "state_paths (store\<lparr>cron_disk := disk\<rparr>) = state_paths store"
  by (simp add: state_paths_def require_file_path_def)

lemma mutate_states_Ok:
  assumes "mutate_states env codec mutator acc store = (Ok (acc', dispatches), store')"
  obtains changed mid where "take_locks env (remdups (sort (store_files store)))"
    "mutate_files env codec mutator (store_files store) (acc, False, []) (store\<lparr>cron_disk := meanwhile env (cron_disk store)\<rparr>)
      = (Ok (acc', changed, dispatches), mid)"
    "cron_disk store' = cron_disk mid" "state_paths store' = state_paths mid"
proof -
  obtain paths where paths: "state_paths store = Ok paths"
    using assms by (cases "state_paths store") (auto simp: mutate_states_def and_then_def)
  obtain before where "read_jobs env codec store = (Ok before, store)"
    using assms paths read_jobs_keeps_store [of env codec store]
    by (auto simp: mutate_states_def and_then_def split: prod.splits result.splits)
  with assms paths obtain changed mid where locked: "take_locks env (remdups (sort paths))"
    "mutate_files env codec mutator paths (acc, False, []) (store\<lparr>cron_disk := meanwhile env (cron_disk store)\<rparr>)
      = (Ok (acc', changed, dispatches), mid)"
    and after: "(if changed then notify_if_changed env codec (heartbeat_catalog_signature before) else return ()) mid = (Ok (), store')"
    by (auto simp: mutate_states_def and_then_def with_state_locks_def Let_def return_def split: prod.splits result.splits if_splits)
  have "cron_disk store' = cron_disk mid \<and> state_paths store' = state_paths mid"
    using after notify_keeps_files [of env codec _ mid "Ok ()" store'] by (cases changed) (auto simp: return_def)
  with that locked paths show thesis by (simp add: store_files_def)
qed

theorem mutate_states_refine:
  assumes "mutate_states env codec mutator acc store = (Ok (acc', dispatches), store')"
    "faithful_codec codec" "orderly env (store_files store)"
  shows "mutate_all mutator acc (map (jobs_on_disk codec (meanwhile env (cron_disk store))) (store_files store))
      = Ok (acc', map (jobs_on_disk codec (cron_disk store')) (store_files store), dispatches)"
    and "store_files store' = store_files store"
proof -
  obtain changed mid where run:
    "mutate_files env codec mutator (store_files store) (acc, False, []) (store\<lparr>cron_disk := meanwhile env (cron_disk store)\<rparr>)
      = (Ok (acc', changed, dispatches), mid)"
    and mid: "cron_disk store' = cron_disk mid" "state_paths store' = state_paths mid"
    using mutate_states_Ok [OF assms(1)] by metis
  show "mutate_all mutator acc (map (jobs_on_disk codec (meanwhile env (cron_disk store))) (store_files store))
      = Ok (acc', map (jobs_on_disk codec (cron_disk store')) (store_files store), dispatches)"
    using mutate_files_refine [OF run assms(2,3)] by (simp add: mid)
  have "state_paths mid = state_paths store"
    using mutate_files_keeps [OF run] by (metis state_paths_disk)
  then show "store_files store' = store_files store" by (simp add: store_files_def mid)
qed

lemma mutate_states_paths:
  assumes "mutate_states env codec mutator acc store = (r, store')"
  shows "state_paths store' = state_paths store"
proof (cases "state_paths store")
  case (Err e)
  with assms show ?thesis by (auto simp: mutate_states_def and_then_def)
next
  case (Ok paths)
  have before: "snd (read_jobs env codec store) = store" by (rule read_jobs_keeps_store)
  have files: "state_paths (snd (mutate_files env codec mutator paths (acc, False, []) st)) = state_paths st" for st
    using mutate_files_keeps [of env codec mutator paths acc False "[]" st] by (metis prod.collapse state_paths_disk)
  have "state_paths (snd (with_state_locks env paths (mutate_files env codec mutator paths (acc, False, [])) store)) = state_paths store"
    using files by (simp add: with_state_locks_def Let_def)
  with assms Ok before show ?thesis
    by (auto simp: mutate_states_def and_then_def return_def dest!: notify_keeps_files(2) split: prod.splits result.splits if_splits)
qed

subsection \<open>Operations without faults\<close>

text \<open>Without faults and with its lock granted, an operation on a single file succeeds when its mutator does.\<close>

definition calm :: "'b cron_env \<Rightarrow> bool" where
  "calm env \<longleftrightarrow> io_fault env = (\<lambda>_. None) \<and> sync_fault env = (\<lambda>_. None) \<and> state_lock env = (\<lambda>_. Ok ())"

lemma write_jobs_state_calm: "calm env \<Longrightarrow> fst (write_jobs_state env codec p state store) = Ok ()"
  by (auto simp: calm_def write_jobs_state_def and_then_def lift_result_def on_disk_def atomic_write_with_def fs_write_def
      fs_rename_def fs_create_dir_all_def return_def bt_simps split: option.splits)

lemma take_locks_calm: "calm env \<Longrightarrow> take_locks env paths"
  by (induction paths) (simp_all add: calm_def)

lemma read_jobs_calm: "state_paths store = Ok paths \<Longrightarrow> \<exists>jobs. read_jobs env codec store = (Ok jobs, store)"
  by (simp add: read_jobs_def read_states_def and_then_def return_def)

lemma mutate_states_single:
  assumes "calm env" "state_paths store = Ok [p]"
    and "mutator acc (jobs_on_disk codec (meanwhile env (cron_disk store)) p) = Ok (acc', state, dispatches)"
  obtains store' where "mutate_states env codec mutator acc store = (Ok (acc', dispatches), store')"
proof -
  let ?locked = "store\<lparr>cron_disk := meanwhile env (cron_disk store)\<rparr>"
  obtain before where before: "read_jobs env codec store = (Ok before, store)" using read_jobs_calm [OF assms(2)] by blast
  have read: "read_jobs_state env codec (meanwhile env (cron_disk store)) p = jobs_on_disk codec (meanwhile env (cron_disk store)) p"
    using assms(1) by (simp add: read_jobs_state_on_disk calm_def)
  obtain w where w: "write_jobs_state env codec p state ?locked = (Ok (), w)"
    using write_jobs_state_calm [OF assms(1), of codec p state ?locked] by (metis prod.collapse)
  have "state_paths w = Ok [p]" using write_jobs_state_effect(2) [OF w] assms(2) by (metis state_paths_disk)
  obtain changed mid where run: "mutate_files env codec mutator [p] (acc, False, []) ?locked = (Ok (acc', changed, dispatches), mid)"
    and mid: "state_paths mid = Ok [p]"
  proof (cases "compact codec state = compact codec (jobs_on_disk codec (meanwhile env (cron_disk store)) p)")
    case True
    with that [of False ?locked] assms(2,3) show thesis by (simp add: read Let_def)
  next
    case False
    with that [of True w] assms(3) w \<open>state_paths w = Ok [p]\<close> show thesis by (simp add: read Let_def and_then_Ok)
  qed
  obtain after where "read_jobs env codec mid = (Ok after, mid)" using read_jobs_calm [OF mid] by blast
  then have "\<exists>store'. (if changed then notify_if_changed env codec (heartbeat_catalog_signature before) else return ()) mid = (Ok (), store')"
    by (auto simp: notify_if_changed_def and_then_Ok notify_heartbeat_change_def return_def)
  then obtain store' where "(if changed then notify_if_changed env codec (heartbeat_catalog_signature before) else return ()) mid = (Ok (), store')" ..
  with that [of store'] show thesis
    using run before assms(2) take_locks_calm [OF assms(1)]
    by (simp add: mutate_states_def and_then_def with_state_locks_def return_def)
qed

subsection \<open>A sample store\<close>

definition calm_cron_env :: "json cron_env" where
  "calm_cron_env = \<lparr>clock_ms = (\<lambda>_. 0), io_fault = (\<lambda>_. None), torn_write = (\<lambda>_. None), lock_attempt = (\<lambda>_. Ok ()),
     sync_fault = (\<lambda>_. None), process_id = 7, state_lock = (\<lambda>_. Ok ()), meanwhile = (\<lambda>disk. disk),
     uuid = show_nat, job_order = (\<lambda>jobs. jobs), dispatch_order = (\<lambda>ds. ds), file_order = (\<lambda>fs. fs)\<rparr>"

definition sample_cron_job :: "string \<Rightarrow> string \<Rightarrow> agent_cron_job" where
  "sample_cron_job ident session = \<lparr>job_id = ident, job_status = Active, job_source = None, job_runtime_kind = None,
     job_delivery_mode = None, job_active_session_id = session, job_session_id = session, job_session_file = ''f'', job_cwd = ''/'',
     job_label = None, job_prompt = ''p'', job_schedule = \<lparr>kind = Once, expression = ''in 1m'', interval_ms = None\<rparr>,
     job_created_at = iso_from_millis 0, job_updated_at = iso_from_millis 0, job_next_run_at = Some (iso_from_millis 0),
     job_last_run_at = None, job_last_skipped_at = None, job_last_error = None, job_run_count = 0\<rparr>"

lemma sample_cron_job_fields [simp]:
  "job_id (sample_cron_job ident session) = ident" "job_status (sample_cron_job ident session) = Active"
  "job_active_session_id (sample_cron_job ident session) = session" "kind (job_schedule (sample_cron_job ident session)) = Once"
  by (simp_all add: sample_cron_job_def)

definition sample_cron_store :: "agent_cron_job list \<Rightarrow> json cron_store" where
  "sample_cron_store jobs = new_cron_store [''/'', ''jobs.json'']
     [([''/'', ''jobs.json''], state_json \<lparr>state_jobs = jobs, state_dispatches = []\<rparr>)]"

lemma calm_cron_env_calm [simp]: "calm calm_cron_env" "meanwhile calm_cron_env = (\<lambda>disk. disk)"
  by (simp_all add: calm_def calm_cron_env_def)

lemma sample_cron_files [simp]: "store_files (sample_cron_store jobs) = [[''/'', ''jobs.json'']]"
  "state_paths (sample_cron_store jobs) = Ok [[''/'', ''jobs.json'']]"
  by (simp_all add: sample_cron_store_def new_cron_store_def store_files_def state_paths_def require_file_path_def)

lemma sample_cron_disk [simp]: "jobs_on_disk json_cron_codec (cron_disk (sample_cron_store jobs)) [''/'', ''jobs.json'']
    = \<lparr>state_jobs = jobs, state_dispatches = []\<rparr>"
  by (rule jobs_on_disk_written [OF json_cron_codec_faithful]) (simp add: sample_cron_store_def new_cron_store_def json_cron_codec_def)

lemma sample_cron_orderly [simp]: "orderly calm_cron_env [[''/'', ''jobs.json'']]"
proof -
  have "cron_temp_path calm_cron_env [''/'', ''jobs.json''] \<noteq> [''/'', ''jobs.json'']" by code_simp
  then show ?thesis by (simp add: orderly_def calm_cron_env_def)
qed

text \<open>The mutator of \<open>defer_next_run\<close> at the start of the epoch.\<close>

definition defer_mutator :: "string \<Rightarrow> nat \<Rightarrow> agent_cron_job list mutator" where
  "defer_mutator ident until_ms updated state =
     try_bind (defer_jobs ident until_ms (iso_from_millis 0) (state_jobs state)) (\<lambda>(jobs, deferred).
     Ok (updated @ deferred, state\<lparr>state_jobs := jobs\<rparr>, []))"

text \<open>C29. The files refine a list of states: an operation that succeeds, whatever its mutator, has handed out
  and collected what the mutator does on the states the files held when the locks were taken, and the files hold
  the states it returned.\<close>

theorem cron_files_refine_states:
  assumes "mutate_states env codec mutator acc store = (Ok (acc', dispatches), store')"
    "faithful_codec codec" "orderly env (store_files store)"
  shows "mutate_all mutator acc (map (jobs_on_disk codec (meanwhile env (cron_disk store))) (store_files store))
      = Ok (acc', map (jobs_on_disk codec (cron_disk store')) (store_files store), dispatches)
    \<and> store_files store' = store_files store"
  using mutate_states_refine [OF assms] by simp

theorem cron_files_refine_states_witness:
  "\<exists>store'. mutate_states calm_cron_env json_cron_codec (defer_mutator ''j'' 9) [] (sample_cron_store [sample_cron_job ''j'' ''s''])
       = (Ok ([(sample_cron_job ''j'' ''s'')\<lparr>job_next_run_at := Some (iso_from_millis 9)\<rparr>], []), store')
     \<and> jobs_on_disk json_cron_codec (cron_disk store') [''/'', ''jobs.json'']
       = \<lparr>state_jobs = [(sample_cron_job ''j'' ''s'')\<lparr>job_next_run_at := Some (iso_from_millis 9)\<rparr>], state_dispatches = []\<rparr>"
proof -
  let ?store = "sample_cron_store [sample_cron_job ''j'' ''s'']" and ?new = "(sample_cron_job ''j'' ''s'')\<lparr>job_next_run_at := Some (iso_from_millis 9)\<rparr>"
  have "parse_iso_millis (iso_from_millis 0) = Ok (Some 0)" by (rule parse_iso_iso) (simp add: printable_def)
  then have mutates: "defer_mutator ''j'' 9 [] \<lparr>state_jobs = [sample_cron_job ''j'' ''s''], state_dispatches = []\<rparr>
      = Ok ([?new], \<lparr>state_jobs = [?new], state_dispatches = []\<rparr>, [])"
    by (simp add: defer_mutator_def defer_change_def sample_cron_job_def)
  obtain store' where run: "mutate_states calm_cron_env json_cron_codec (defer_mutator ''j'' 9) [] ?store = (Ok ([?new], []), store')"
    using mutate_states_single [of calm_cron_env ?store "[''/'', ''jobs.json'']" "defer_mutator ''j'' 9" "[]" json_cron_codec] mutates by auto
  from cron_files_refine_states [OF run json_cron_codec_faithful] mutates run show ?thesis by auto
qed

end
