(* ===== verification/Cron_Merge.thy ===== *)
theory Cron_Merge
  imports Cron_Files "HOL-Library.Option_ord" "HOL-Library.Multiset"
begin

text \<open>
  The merge of concurrent writers: of the jobs of one name the freshest wins, a job without a readable time being
  older than any other, and no job gets lost.
\<close>

definition stamp :: "agent_cron_job \<Rightarrow> nat option" where
  "stamp job = (case parse_iso_millis (job_updated_at job) of Ok t \<Rightarrow> t | Err _ \<Rightarrow> None)"

text \<open>The comparison of the code is the order of the stamps.\<close>

lemma is_at_least_as_fresh_Ok:
  assumes "is_at_least_as_fresh candidate current = Ok b"
  shows "b \<longleftrightarrow> stamp current \<le> stamp candidate"
  using assms
  by (auto simp: is_at_least_as_fresh_def stamp_def less_eq_option_def elim!: try_bind_Ok split: option.splits)

definition names_match :: "(string, agent_cron_job) btree \<Rightarrow> bool" where
  "names_match merged \<longleftrightarrow> bt_wf merged \<and> (\<forall>k job. map_of merged k = Some job \<longrightarrow> job_id job = k)"

lemma names_match_insert: "names_match merged \<Longrightarrow> names_match (bt_insert (job_id job) job merged)"
  by (auto simp: names_match_def bt_wf_insert map_of_bt_insert)

text \<open>One step of the merge: afterwards the name holds the new job or one that is fresher.\<close>

lemma merge_next_Cons:
  assumes "merge_next (j # jobs) merged = Ok merged'" "names_match merged"
  obtains mid where "merge_next jobs mid = Ok merged'" "names_match mid"
    "\<And>k old. map_of merged k = Some old \<Longrightarrow> \<exists>job. map_of mid k = Some job \<and> stamp old \<le> stamp job"
    "\<exists>job. map_of mid (job_id j) = Some job \<and> stamp j \<le> stamp job"
    "\<And>k job. map_of mid k = Some job \<Longrightarrow> map_of merged k = Some job \<or> job = j"
proof -
  let ?new = "bt_insert (job_id j) j merged"
  show thesis
  proof (cases "map_of merged (job_id j)")
    case None
    with assms show thesis
      by (intro that [of ?new]) (auto simp: names_match_insert map_of_bt_insert split: if_splits)
  next
    case (Some current)
    obtain fresh where "is_at_least_as_fresh j current = Ok fresh" and rest: "merge_next jobs (if fresh then ?new else merged) = Ok merged'"
      using assms(1) Some by (auto elim!: try_bind_Ok)
    from this(1) have fresh: "fresh \<longleftrightarrow> stamp current \<le> stamp j" by (rule is_at_least_as_fresh_Ok)
    show thesis
    proof (cases fresh)
      case True
      with assms(2) rest Some fresh show thesis
        by (intro that [of ?new]) (auto simp: names_match_insert map_of_bt_insert split: if_splits)
    next
      case False
      with assms(2) rest Some fresh show thesis by (intro that [of merged]) auto
    qed
  qed
qed

lemma merge_next_Ok:
  assumes "merge_next jobs merged = Ok merged'" "names_match merged"
  shows "names_match merged'
    \<and> (\<forall>k old. map_of merged k = Some old \<longrightarrow> (\<exists>job. map_of merged' k = Some job \<and> stamp old \<le> stamp job))
    \<and> (\<forall>new \<in> set jobs. \<exists>job. map_of merged' (job_id new) = Some job \<and> stamp new \<le> stamp job)
    \<and> (\<forall>k job. map_of merged' k = Some job \<longrightarrow> map_of merged k = Some job \<or> job \<in> set jobs)"
  using assms
proof (induction jobs arbitrary: merged)
  case (Cons j jobs)
  from Cons.prems obtain mid where rest: "merge_next jobs mid = Ok merged'" "names_match mid"
    and kept: "\<And>k old. map_of merged k = Some old \<Longrightarrow> \<exists>job. map_of mid k = Some job \<and> stamp old \<le> stamp job"
    and added: "\<exists>job. map_of mid (job_id j) = Some job \<and> stamp j \<le> stamp job"
    and source: "\<And>k job. map_of mid k = Some job \<Longrightarrow> map_of merged k = Some job \<or> job = j"
    by (rule merge_next_Cons) blast
  note IH = Cons.IH [OF rest]
  show ?case
  proof (intro conjI allI impI ballI)
    show "names_match merged'" using IH by (elim conjE)
    show "\<exists>job. map_of merged' k = Some job \<and> stamp old \<le> stamp job" if "map_of merged k = Some old" for k old
      using kept [OF that] IH by (meson order_trans)
    show "\<exists>job. map_of merged' (job_id new) = Some job \<and> stamp new \<le> stamp job" if "new \<in> set (j # jobs)" for new
    proof (cases "new \<in> set jobs")
      case True
      with IH show ?thesis by (elim conjE) simp
    next
      case False
      with that added IH show ?thesis by simp (meson order_trans)
    qed
    show "map_of merged k = Some job \<or> job \<in> set (j # jobs)" if "map_of merged' k = Some job" for k job
    proof -
      have "map_of mid k = Some job \<or> job \<in> set jobs" using IH that by (elim conjE) simp
      with source [of k job] show ?thesis by auto
    qed
  qed
qed simp

lemma map_of_stored:
  "map_of (fold (\<lambda>job. bt_insert (job_id job) job) jobs merged) = map_of (rev (map (\<lambda>job. (job_id job, job)) jobs) @ merged)"
  by (induction jobs arbitrary: merged) (auto simp: map_of_bt_insert fun_eq_iff map_add_def split: option.splits)

lemma names_match_stored: "names_match merged \<Longrightarrow> names_match (fold (\<lambda>job. bt_insert (job_id job) job) jobs merged)"
  by (induction jobs arbitrary: merged) (simp_all add: names_match_insert)

lemma stored_at:
  assumes "distinct (map job_id jobs)" "job \<in> set jobs"
  shows "map_of (fold (\<lambda>job. bt_insert (job_id job) job) jobs []) (job_id job) = Some job"
proof -
  have "distinct (map fst (rev (map (\<lambda>job. (job_id job, job)) jobs)))" using assms(1) by (simp add: rev_map [symmetric] comp_def)
  then show ?thesis using assms(2) by (simp add: map_of_stored map_of_eq_Some_iff)
qed

lemma names_match_values:
  assumes "names_match merged"
  shows "distinct (map job_id (map snd merged))" "job \<in> set (map snd merged) \<longleftrightarrow> map_of merged (job_id job) = Some job"
proof -
  have keys: "distinct (map fst merged)"
    using assms by (simp add: names_match_def bt_wf_def strict_sorted_iff)
  have same: "job_id v = k" if "(k, v) \<in> set merged" for k v
    using assms keys that by (auto simp: names_match_def)
  then have "map job_id (map snd merged) = map fst merged" by auto
  then show "distinct (map job_id (map snd merged))" by (simp only: keys)
  show "job \<in> set (map snd merged) \<longleftrightarrow> map_of merged (job_id job) = Some job"
  proof
    assume "job \<in> set (map snd merged)"
    then obtain k where "(k, job) \<in> set merged" by auto
    with same [OF this] keys show "map_of merged (job_id job) = Some job" by simp
  next
    assume "map_of merged (job_id job) = Some job"
    from map_of_SomeD [OF this] show "job \<in> set (map snd merged)" by force
  qed
qed

lemma merge_fresh_jobs_Ok:
  assumes "merge_fresh_jobs env stored written = Ok merged" "distinct (map job_id stored)"
    and "\<And>jobs. mset (job_order env jobs) = mset jobs"
  shows "distinct (map job_id merged) \<and> set merged \<subseteq> set stored \<union> set written
    \<and> (\<forall>job \<in> set stored \<union> set written. \<exists>kept \<in> set merged. job_id kept = job_id job \<and> stamp job \<le> stamp kept)"
proof -
  let ?start = "fold (\<lambda>job. bt_insert (job_id job) job) stored []"
  obtain table where table: "merge_next written ?start = Ok table" "merged = job_order env (map snd table)"
    using assms(1) by (auto simp: merge_fresh_jobs_def elim!: try_bind_Ok)
  have "names_match ?start" by (rule names_match_stored) (simp add: names_match_def bt_wf_def)
  note facts = merge_next_Ok [OF table(1) this]
  then have match: "names_match table" by (elim conjE)
  have perm: "mset merged = mset (map snd table)" unfolding table(2) by (rule assms(3))
  then have same: "set merged = set (map snd table)" by (rule mset_eq_setD)
  have "mset (map job_id merged) = mset (map job_id (map snd table))" using perm by (simp only: mset_map)
  then have "distinct (map job_id merged)" using names_match_values(1) [OF match] by (metis mset_eq_imp_distinct_iff)
  moreover have "set merged \<subseteq> set stored \<union> set written"
  proof
    fix job assume "job \<in> set merged"
    then have "map_of table (job_id job) = Some job" using same names_match_values(2) [OF match] by simp
    then have "map_of ?start (job_id job) = Some job \<or> job \<in> set written" using facts by (elim conjE) simp
    then show "job \<in> set stored \<union> set written"
    proof
      assume "map_of ?start (job_id job) = Some job"
      then have "(job_id job, job) \<in> set (rev (map (\<lambda>job. (job_id job, job)) stored) @ [])"
        unfolding map_of_stored by (rule map_of_SomeD)
      then show ?thesis by auto
    qed simp
  qed
  moreover have "\<exists>kept \<in> set merged. job_id kept = job_id job \<and> stamp job \<le> stamp kept" if "job \<in> set stored \<union> set written" for job
  proof -
    obtain kept where "map_of table (job_id job) = Some kept" "stamp job \<le> stamp kept"
    proof (cases "job \<in> set written")
      case True
      with that facts show thesis by (elim conjE) blast
    next
      case False
      then have "map_of ?start (job_id job) = Some job" using \<open>job \<in> set stored \<union> set written\<close> stored_at [OF assms(2)] by simp
      with that facts show thesis by (elim conjE) blast
    qed
    moreover from this(1) have "job_id kept = job_id job" using match by (simp add: names_match_def)
    ultimately show ?thesis using same names_match_values(2) [OF match, of kept] by auto
  qed
  ultimately show ?thesis by blast
qed

text \<open>C32. Merging what a writer knew with what is stored loses nothing: every name of either side is in the
  result exactly once, with a job of one of the sides that is at least as fresh as every job of that name.\<close>

theorem merge_keeps_the_freshest:
  assumes "merge_fresh_jobs env stored written = Ok merged" "distinct (map job_id stored)"
    and "\<And>jobs. mset (job_order env jobs) = mset jobs"
  shows "distinct (map job_id merged) \<and> set merged \<subseteq> set stored \<union> set written
    \<and> (\<forall>job \<in> set stored \<union> set written. \<exists>kept \<in> set merged. job_id kept = job_id job \<and> stamp job \<le> stamp kept)"
  using merge_fresh_jobs_Ok [OF assms] .

theorem merge_keeps_the_freshest_witness:
  "\<exists>merged. merge_fresh_jobs calm_cron_env [sample_cron_job ''j'' ''s''] [(sample_cron_job ''j'' ''s'')\<lparr>job_status := Cancelled\<rparr>, sample_cron_job ''k'' ''s'']
       = Ok merged
     \<and> distinct (map job_id merged) \<and> ''j'' \<in> set (map job_id merged) \<and> ''k'' \<in> set (map job_id merged)"
proof -
  let ?old = "[sample_cron_job ''j'' ''s'']" and ?new = "[(sample_cron_job ''j'' ''s'')\<lparr>job_status := Cancelled\<rparr>, sample_cron_job ''k'' ''s'']"
  have "parse_iso_millis (iso_from_millis 0) = Ok (Some 0)" by (rule parse_iso_iso) (simp add: printable_def)
  then have "\<exists>merged. merge_fresh_jobs calm_cron_env ?old ?new = Ok merged"
    by (simp add: merge_fresh_jobs_def is_at_least_as_fresh_def sample_cron_job_def)
  then obtain merged where run: "merge_fresh_jobs calm_cron_env ?old ?new = Ok merged" ..
  have facts: "distinct (map job_id merged)"
    "\<forall>job \<in> set ?old \<union> set ?new. \<exists>kept \<in> set merged. job_id kept = job_id job \<and> stamp job \<le> stamp kept"
    using merge_keeps_the_freshest [OF run] by (simp_all add: calm_cron_env_def)
  have "''j'' \<in> set (map job_id merged)" "''k'' \<in> set (map job_id merged)"
    using facts(2) [rule_format, of "sample_cron_job ''j'' ''s''"] facts(2) [rule_format, of "sample_cron_job ''k'' ''s''"] by force+
  with run facts(1) show ?thesis by blast
qed

subsection \<open>A merge without newer jobs\<close>

lemma merge_next_other:
  assumes "merge_next jobs merged = Ok merged'" "k \<notin> job_id ` set jobs"
  shows "map_of merged' k = map_of merged k"
  using assms
proof (induction jobs arbitrary: merged)
  case (Cons j jobs)
  then obtain fresh where "merge_next jobs (if fresh then bt_insert (job_id j) j merged else merged) = Ok merged'"
    by (auto elim!: try_bind_Ok)
  from Cons.IH [OF this] Cons.prems(2) show ?case by (auto simp: map_of_bt_insert)
qed simp

lemma merge_next_wins:
  assumes "merge_next jobs merged = Ok merged'" "distinct (map job_id jobs)" "new \<in> set jobs"
    and "\<And>old. map_of merged (job_id new) = Some old \<Longrightarrow> stamp old \<le> stamp new"
  shows "map_of merged' (job_id new) = Some new"
  using assms
proof (induction jobs arbitrary: merged)
  case (Cons j jobs)
  from Cons.prems(1) obtain fresh where rest: "merge_next jobs (if fresh then bt_insert (job_id j) j merged else merged) = Ok merged'"
    and fresh: "(case map_of merged (job_id j) of None \<Rightarrow> Ok True | Some current \<Rightarrow> is_at_least_as_fresh j current) = Ok fresh"
    by (auto elim!: try_bind_Ok)
  show ?case
  proof (cases "new = j")
    case True
    have fresh
    proof (cases "map_of merged (job_id j)")
      case None
      with fresh show ?thesis by simp
    next
      case (Some old)
      with fresh Cons.prems(4) [of old] True is_at_least_as_fresh_Ok [of j old fresh] show ?thesis by simp
    qed
    moreover have "job_id j \<notin> job_id ` set jobs" using Cons.prems(2) by simp
    ultimately show ?thesis using merge_next_other [OF rest] True by (simp add: map_of_bt_insert)
  next
    case False
    then have new: "new \<in> set jobs" using Cons.prems(3) by simp
    have "job_id j \<notin> job_id ` set jobs" using Cons.prems(2) by simp
    with imageI [OF new, of job_id] have "job_id new \<noteq> job_id j" by metis
    then have "map_of (if fresh then bt_insert (job_id j) j merged else merged) (job_id new) = map_of merged (job_id new)"
      by (simp add: map_of_bt_insert)
    with Cons.IH [OF rest _ new] Cons.prems(2,4) show ?thesis by simp
  qed
qed simp

lemma merge_exact:
  assumes "merge_fresh_jobs env stored written = Ok merged" "\<And>jobs. mset (job_order env jobs) = mset jobs"
    and "distinct (map job_id stored)" "distinct (map job_id written)" "job_id ` set stored \<subseteq> job_id ` set written"
    and newest: "\<And>old new. old \<in> set stored \<Longrightarrow> new \<in> set written \<Longrightarrow> job_id old = job_id new \<Longrightarrow> stamp old \<le> stamp new"
  shows "set merged = set written"
proof -
  let ?start = "fold (\<lambda>job. bt_insert (job_id job) job) stored []"
  obtain table where table: "merge_next written ?start = Ok table" "merged = job_order env (map snd table)"
    using assms(1) by (auto simp: merge_fresh_jobs_def elim!: try_bind_Ok)
  have start: "names_match ?start" by (rule names_match_stored) (simp add: names_match_def bt_wf_def)
  have match: "names_match table" using merge_next_Ok [OF table(1) start] by (elim conjE)
  have vals: "job \<in> set merged \<longleftrightarrow> map_of table (job_id job) = Some job" for job
    using names_match_values(2) [OF match] mset_eq_setD [OF assms(2), of "map snd table"] by (simp add: table(2))
  have old: "old \<in> set stored \<and> job_id old = k" if "map_of ?start k = Some old" for k old
  proof -
    have "(k, old) \<in> set (rev (map (\<lambda>job. (job_id job, job)) stored) @ [])"
      using that unfolding map_of_stored by (rule map_of_SomeD)
    then show ?thesis by auto
  qed
  have wins: "map_of table (job_id new) = Some new" if "new \<in> set written" for new
    using merge_next_wins [OF table(1) assms(4) that] old newest that by blast
  show ?thesis
  proof (intro set_eqI iffI)
    fix job assume "job \<in> set written"
    then show "job \<in> set merged" using wins vals by simp
  next
    fix job assume "job \<in> set merged"
    then have here: "map_of table (job_id job) = Some job" using vals by simp
    then have "map_of ?start (job_id job) = Some job \<or> job \<in> set written"
      using merge_next_Ok [OF table(1) start] by (elim conjE) simp
    then have "job_id job \<in> job_id ` set written" using old assms(5) by blast
    then obtain new where "new \<in> set written" "job_id new = job_id job" by auto
    with wins here show "job \<in> set written" by (metis option.inject)
  qed
qed

subsection \<open>Unreadable files\<close>

text \<open>
  A state file that cannot be read or parsed counts as empty, also for the operations that then write it: what it
  held, dispatches included, is gone.
\<close>

theorem unreadable_state_is_overwritten:
  assumes "io_fault env (ReadFile p) = Some msg" "faithful_codec codec"
    and "write_jobs_file env codec p jobs True store = (Ok (), store')" "\<And>xs. mset (job_order env xs) = mset xs"
  shows "set (state_jobs (jobs_on_disk codec (cron_disk store') p)) \<subseteq> set jobs
    \<and> state_dispatches (jobs_on_disk codec (cron_disk store') p) = []"
proof -
  have "read_jobs_state env codec (cron_disk store) p = default_jobs_state" using assms(1) by (simp add: unreadable_state)
  with assms(3) obtain merged where merged: "merge_fresh_jobs env [] jobs = Ok merged"
    and "write_jobs_state env codec p \<lparr>state_jobs = merged, state_dispatches = []\<rparr> store = (Ok (), store')"
    by (cases "merge_fresh_jobs env [] jobs") (auto simp: write_jobs_file_def default_jobs_state_def throw_def)
  from write_jobs_state_effect(3) [OF this(2)] merge_fresh_jobs_Ok [OF merged] assms(4)
  show ?thesis by (simp add: jobs_on_disk_written [OF assms(2)])
qed

end
