(* ===== verification/Cron_Beats.thy ===== *)
theory Cron_Beats
  imports Cron_Heartbeats Cron_Merge
begin

text \<open>
  What a heartbeat operation leaves on disk when it is alone: the jobs it wrote, all of them, because none of the
  stored jobs is newer; so setting a heartbeat replaces the one the session had.
\<close>

subsection \<open>Setting a heartbeat\<close>

text \<open>A store of one file that nobody else writes, with jobs of different names none of which is newer than \<open>now\<close>.\<close>

definition sole_store :: "'b cron_env \<Rightarrow> 'b cron_codec \<Rightarrow> 'b cron_store \<Rightarrow> path \<Rightarrow> nat \<Rightarrow> bool" where
  "sole_store env codec store p now \<longleftrightarrow> file_path store = Some p \<and> \<not> session_artifact_mode store \<and> orderly env [p]
     \<and> meanwhile env (cron_disk store) = cron_disk store \<and> (\<forall>jobs. mset (job_order env jobs) = mset jobs)
     \<and> distinct (map job_id (state_jobs (jobs_on_disk codec (cron_disk store) p)))
     \<and> list_all (\<lambda>job. stamp job \<le> Some now) (state_jobs (jobs_on_disk codec (cron_disk store) p))"

lemma sole_read_jobs:
  assumes "sole_store env codec store p now"
  shows "read_jobs env codec store = (Ok (state_jobs (jobs_on_disk codec (cron_disk store) p)), store)"
  using assms
  by (simp add: sole_store_def read_jobs_def read_states_def state_paths_def require_file_path_def and_then_def return_def
      orderly_def read_jobs_state_on_disk)

lemma sole_write_jobs:
  assumes "write_jobs env codec written store = (Ok (), store')" "faithful_codec codec" "sole_store env codec store p now"
  obtains merged where
    "merge_fresh_jobs env (state_jobs (jobs_on_disk codec (cron_disk store) p)) written = Ok merged"
    "state_jobs (jobs_on_disk codec (cron_disk store') p) = merged"
proof -
  let ?stored = "jobs_on_disk codec (cron_disk store) p"
  have sole: "file_path store = Some p" "\<not> session_artifact_mode store" "store\<lparr>cron_disk := meanwhile env (cron_disk store)\<rparr> = store"
    "read_jobs_state env codec (cron_disk store) p = ?stored"
    using assms(3) by (simp_all add: sole_store_def orderly_def read_jobs_state_on_disk)
  obtain mid where locked: "write_jobs_file env codec p written True store = (Ok (), mid)"
    and after: "notify_if_changed env codec (heartbeat_catalog_signature (state_jobs ?stored)) mid = (Ok (), store')"
    using assms(1) sole sole_read_jobs [OF assms(3)]
    by (auto simp: write_jobs_def and_then_def require_file_path_def lift_result_def with_state_locks_def Let_def
        split: prod.splits result.splits if_splits)
  obtain merged where merged: "merge_fresh_jobs env (state_jobs ?stored) written = Ok merged"
    and "write_jobs_state env codec p \<lparr>state_jobs = merged, state_dispatches = state_dispatches ?stored\<rparr> store = (Ok (), mid)"
    using locked sole(4) by (cases "merge_fresh_jobs env (state_jobs ?stored) written") (auto simp: write_jobs_file_def throw_def)
  from write_jobs_state_effect(3) [OF this(2)] have "state_jobs (jobs_on_disk codec (cron_disk mid) p) = merged"
    by (simp add: jobs_on_disk_written [OF assms(2)])
  with notify_keeps_files(1) [OF after] that [OF merged] show thesis by simp
qed

lemma sole_write_exact:
  assumes "write_jobs env codec written store = (Ok (), store')" "faithful_codec codec" "sole_store env codec store p now"
    and "distinct (map job_id written)"
    and "job_id ` set (state_jobs (jobs_on_disk codec (cron_disk store) p)) \<subseteq> job_id ` set written"
    and "\<And>old new. old \<in> set (state_jobs (jobs_on_disk codec (cron_disk store) p)) \<Longrightarrow> new \<in> set written \<Longrightarrow>
      job_id old = job_id new \<Longrightarrow> stamp old \<le> stamp new"
  shows "set (state_jobs (jobs_on_disk codec (cron_disk store') p)) = set written"
proof -
  obtain merged where "merge_fresh_jobs env (state_jobs (jobs_on_disk codec (cron_disk store) p)) written = Ok merged"
    "state_jobs (jobs_on_disk codec (cron_disk store') p) = merged"
    using sole_write_jobs [OF assms(1-3)] .
  with merge_exact [of env _ written merged] assms(3-6) show ?thesis by (simp add: sole_store_def)
qed

lemma stamp_cancelled: "printable now \<Longrightarrow> stamp (cancelled_job now job) = Some now"
  by (simp add: stamp_def cancelled_job_def parse_iso_iso)


subsection \<open>A sample heartbeat\<close>

definition sample_heartbeat :: agent_cron_job where
  "sample_heartbeat = (sample_cron_job ''h'' ''s'')\<lparr>job_source := Some ''heartbeat''\<rparr>"

definition sample_heartbeat_input :: create_job_input where
  "sample_heartbeat_input = \<lparr>input_active_session_id = ''s'', input_session_id = ''s'', input_session_file = ''f'', input_cwd = ''/'',
     input_label = None, input_prompt = ''go'', input_schedule_text = ''every 5m'', input_source = None, input_runtime_kind = None,
     input_delivery_mode = None, input_now = Some 0\<rparr>"

lemma sample_stamp: "stamp (sample_heartbeat) = Some 0"
  by (simp add: stamp_def sample_heartbeat_def sample_cron_job_def parse_iso_iso printable_def)

lemma sample_input: "input_active_session_id sample_heartbeat_input = ''s''" "input_schedule_text sample_heartbeat_input = ''every 5m''"
  "input_now sample_heartbeat_input = Some 0" "trim (input_prompt sample_heartbeat_input) = ''go''"
  by (simp_all add: sample_heartbeat_input_def trim_def is_utf8_continuation_def is_whitespace_def)

lemma sample_store_fields: "file_path (sample_cron_store jobs) = Some [''/'', ''jobs.json'']" "\<not> session_artifact_mode (sample_cron_store jobs)"
  by (simp_all add: sample_cron_store_def new_cron_store_def)

lemma sample_sole: "sole_store calm_cron_env json_cron_codec (sample_cron_store [sample_heartbeat]) [''/'', ''jobs.json''] 0"
proof -
  have "job_order calm_cron_env = (\<lambda>jobs. jobs)" by (simp add: calm_cron_env_def)
  then show ?thesis by (simp add: sole_store_def sample_stamp sample_store_fields)
qed

lemma write_jobs_calm:
  assumes "sole_store env codec store p now" "calm env"
    and "merge_fresh_jobs env (state_jobs (jobs_on_disk codec (cron_disk store) p)) written = Ok merged"
  obtains store' where "write_jobs env codec written store = (Ok (), store')"
proof -
  let ?stored = "jobs_on_disk codec (cron_disk store) p"
  let ?new = "\<lparr>state_jobs = merged, state_dispatches = state_dispatches ?stored\<rparr>"
  have sole: "file_path store = Some p" "\<not> session_artifact_mode store" "store\<lparr>cron_disk := meanwhile env (cron_disk store)\<rparr> = store"
    "read_jobs_state env codec (cron_disk store) p = ?stored" "state_paths store = Ok [p]"
    using assms(1) by (simp_all add: sole_store_def orderly_def read_jobs_state_on_disk state_paths_def require_file_path_def)
  obtain mid where w: "write_jobs_state env codec p ?new store = (Ok (), mid)"
    using write_jobs_state_calm [OF assms(2), of codec p ?new store] by (metis prod.collapse)
  have "state_paths mid = Ok [p]" using write_jobs_state_effect(2) [OF w] sole(5) by (metis state_paths_disk)
  then obtain after where "read_jobs env codec mid = (Ok after, mid)" using read_jobs_calm by blast
  then have "\<exists>store'. notify_if_changed env codec (heartbeat_catalog_signature (state_jobs ?stored)) mid = (Ok (), store')"
    by (simp add: notify_if_changed_def and_then_Ok notify_heartbeat_change_def return_def)
  then obtain store' where "notify_if_changed env codec (heartbeat_catalog_signature (state_jobs ?stored)) mid = (Ok (), store')" ..
  moreover have "write_jobs_file env codec p written True store = (Ok (), mid)"
    using w assms(3) sole(4) by (simp add: write_jobs_file_def)
  ultimately have "write_jobs env codec written store = (Ok (), store')"
    using sole sole_read_jobs [OF assms(1)] take_locks_calm [OF assms(2)]
    by (simp add: write_jobs_def and_then_def require_file_path_def lift_result_def with_state_locks_def del: take_locks.simps)
  with that show thesis .
qed


end
