(* ===== verification/Cron_Partition.thy ===== *)
theory Cron_Partition
  imports Cron_Merge
begin

text \<open>
  The partition by session: writing jobs back moves every job, and the open dispatches of it, to the file of the
  session it belongs to, and leaves no copy behind.
\<close>

subsection \<open>Writing the files\<close>

lemma write_sessions_Ok:
  assumes "write_sessions env codec items store = (Ok (), store')" "faithful_codec codec" "orderly env (map fst items)"
    and "\<forall>(p, current, next_state) \<in> set items. jobs_on_disk codec (cron_disk store) p = current"
  shows "(\<forall>(p, current, next_state) \<in> set items. jobs_on_disk codec (cron_disk store') p = next_state)
    \<and> (\<forall>q. q \<notin> set (map fst items) \<longrightarrow> q \<notin> cron_temp_path env ` set (map fst items) \<longrightarrow>
         bt_get (cron_disk store') q = bt_get (cron_disk store) q)"
  using assms(1,3,4)
proof (induction items arbitrary: store)
  case (Cons item items)
  obtain p current next_state where item: "item = (p, current, next_state)" by (cases item)
  have order: "orderly env (map fst items)" "p \<notin> set (map fst items)" "p \<noteq> cron_temp_path env p"
    "\<forall>q \<in> set (map fst items). cron_temp_path env q \<noteq> p \<and> cron_temp_path env p \<noteq> q"
    using Cons.prems(2) item by (auto simp: orderly_def)
  obtain mid where rest: "write_sessions env codec items mid = (Ok (), store')"
    and saved: "mid = store \<and> current = next_state \<or> write_jobs_state env codec p next_state store = (Ok (), mid)"
    using Cons.prems(1) item faithful_codec_compact [OF assms(2), of current next_state]
    by (auto simp: and_then_def split: if_splits prod.splits result.splits)
  have same: "bt_get (cron_disk mid) q = bt_get (cron_disk store) q" if "q \<noteq> p" "q \<noteq> cron_temp_path env p" for q
    using saved that by (auto dest!: write_jobs_state_effect(1) agree_offD)
  have mid: "jobs_on_disk codec (cron_disk mid) p = next_state"
    using saved Cons.prems(3) item assms(2) by (auto dest!: write_jobs_state_effect(3) jobs_on_disk_written)
  have "\<forall>(q, c, n) \<in> set items. jobs_on_disk codec (cron_disk mid) q = c"
  proof clarify
    fix q c d n assume q: "(q, c, n) \<in> set items"
    then have "q \<in> set (map fst items)" by force
    then have "bt_get (cron_disk mid) q = bt_get (cron_disk store) q" using same order by metis
    with Cons.prems(3) q show "jobs_on_disk codec (cron_disk mid) q = c" using jobs_on_disk_cong by fastforce
  qed
  note IH = Cons.IH [OF rest order(1) this]
  have "p \<notin> cron_temp_path env ` set (map fst items)" using order(4) by auto
  then have "bt_get (cron_disk store') p = bt_get (cron_disk mid) p" using IH order(2) by blast
  then have "jobs_on_disk codec (cron_disk store') p = next_state" using mid jobs_on_disk_cong by metis
  moreover have "bt_get (cron_disk store') q = bt_get (cron_disk store) q"
    if "q \<notin> set (map fst (item # items))" "q \<notin> cron_temp_path env ` set (map fst (item # items))" for q
    using IH same [of q] that item by auto
  ultimately show ?case using IH item by auto
qed simp

subsection \<open>The merge of each session\<close>

lemma merge_sessions_Ok:
  assumes "merge_sessions env jobs sessions = Ok merged"
  shows "map fst merged = map fst sessions
    \<and> (\<forall>(session, state) \<in> set sessions. \<exists>kept. (session, kept) \<in> set merged
         \<and> merge_fresh_jobs env
              (filter (\<lambda>job. case map_of (rev (map (\<lambda>job. (job_id job, job)) jobs)) (job_id job) of
                 None \<Rightarrow> True | Some newer \<Rightarrow> job_session_id newer = session) (state_jobs state))
              (filter (\<lambda>job. job_session_id job = session) jobs) = Ok kept)"
  using assms
proof (induction env jobs sessions arbitrary: merged rule: merge_sessions.induct)
  case (2 env jobs session current sessions)
  then show ?case by (fastforce simp: Let_def elim!: try_bind_Ok)
qed simp

lemma map_of_functional:
  assumes "\<And>k a b. (k, a) \<in> set xs \<Longrightarrow> (k, b) \<in> set xs \<Longrightarrow> a = b"
  shows "map_of xs k = Some v \<longleftrightarrow> (k, v) \<in> set xs"
  using assms by (metis map_of_SomeD weak_map_of_SomeI)

lemma incoming_at:
  assumes "distinct (map job_id jobs)"
  shows "map_of (rev (map (\<lambda>job. (job_id job, job)) jobs)) k = Some job \<longleftrightarrow> job \<in> set jobs \<and> job_id job = k"
proof -
  have "map_of (rev (map (\<lambda>job. (job_id job, job)) jobs)) k = Some job \<longleftrightarrow> (k, job) \<in> set (rev (map (\<lambda>job. (job_id job, job)) jobs))"
    using assms by (intro map_of_functional) (auto simp: distinct_map inj_on_def)
  then show ?thesis by auto
qed

text \<open>What a write of all jobs relies on: each session has one file, nobody else writes, and no stored job is newer or unknown.\<close>

definition partition_ready :: "'b cron_env \<Rightarrow> 'b cron_codec \<Rightarrow> 'b cron_store \<Rightarrow> agent_cron_job list \<Rightarrow> bool" where
  "partition_ready env codec store jobs \<longleftrightarrow>
     orderly env (map snd (session_artifact_files store)) \<and> distinct (map fst (session_artifact_files store))
     \<and> meanwhile env (cron_disk store) = cron_disk store
     \<and> (\<forall>xs. mset (job_order env xs) = mset xs) \<and> (\<forall>ds. mset (dispatch_order env ds) = mset ds)
     \<and> distinct (map job_id jobs)
     \<and> (\<forall>(session, p) \<in> set (session_artifact_files store).
          distinct (map job_id (state_jobs (jobs_on_disk codec (cron_disk store) p)))
          \<and> (\<forall>old \<in> set (state_jobs (jobs_on_disk codec (cron_disk store) p)).
               \<exists>new \<in> set jobs. job_id new = job_id old \<and> stamp old \<le> stamp new))"

text \<open>Each session keeps exactly the incoming jobs that belong to it.\<close>

lemma session_keeps_its_jobs:
  assumes ready: "partition_ready env codec store jobs" and home: "(session, p) \<in> set (session_artifact_files store)"
    and merge: "merge_fresh_jobs env
        (filter (\<lambda>job. case map_of (rev (map (\<lambda>job. (job_id job, job)) jobs)) (job_id job) of
           None \<Rightarrow> True | Some newer \<Rightarrow> job_session_id newer = session) (state_jobs (jobs_on_disk codec (cron_disk store) p)))
        (filter (\<lambda>job. job_session_id job = session) jobs) = Ok kept"
  shows "set kept = {job \<in> set jobs. job_session_id job = session}"
proof -
  let ?stored = "state_jobs (jobs_on_disk codec (cron_disk store) p)" and ?incoming = "map_of (rev (map (\<lambda>job. (job_id job, job)) jobs))"
  have ids: "distinct (map job_id jobs)" "distinct (map job_id ?stored)"
    and known: "\<And>old. old \<in> set ?stored \<Longrightarrow> \<exists>new \<in> set jobs. job_id new = job_id old \<and> stamp old \<le> stamp new"
    using ready home by (auto simp: partition_ready_def)
  have newer: "stamp old \<le> stamp new" if "old \<in> set ?stored" "new \<in> set jobs" "job_id old = job_id new" for old new
    using known [OF that(1)] that(2,3) ids(1) by (metis distinct_map inj_on_def)
  have "set kept = set (filter (\<lambda>job. job_session_id job = session) jobs)"
  proof (rule merge_exact [OF merge])
    show "mset (job_order env xs) = mset xs" for xs using ready by (simp add: partition_ready_def)
    show "distinct (map job_id (filter (\<lambda>job. case ?incoming (job_id job) of None \<Rightarrow> True | Some newer \<Rightarrow> job_session_id newer = session) ?stored))"
      "distinct (map job_id (filter (\<lambda>job. job_session_id job = session) jobs))"
      using ids by (simp_all add: distinct_map_filter)
    show "job_id ` set (filter (\<lambda>job. case ?incoming (job_id job) of None \<Rightarrow> True | Some newer \<Rightarrow> job_session_id newer = session) ?stored)
        \<subseteq> job_id ` set (filter (\<lambda>job. job_session_id job = session) jobs)"
    proof
      fix k assume "k \<in> job_id ` set (filter (\<lambda>job. case ?incoming (job_id job) of None \<Rightarrow> True | Some newer \<Rightarrow> job_session_id newer = session) ?stored)"
      then obtain old where old: "old \<in> set ?stored" "k = job_id old"
        "case ?incoming (job_id old) of None \<Rightarrow> True | Some newer \<Rightarrow> job_session_id newer = session" by auto
      obtain new where new: "new \<in> set jobs" "job_id new = job_id old" using known [OF old(1)] by blast
      then have "?incoming (job_id old) = Some new" using incoming_at [OF ids(1)] by blast
      with old(3) have "job_session_id new = session" by simp
      with new have "new \<in> set (filter (\<lambda>job. job_session_id job = session) jobs)" by simp
      from imageI [OF this, of job_id] new(2) old(2) show "k \<in> job_id ` set (filter (\<lambda>job. job_session_id job = session) jobs)"
        by simp
    qed
  qed (use newer in auto)
  then show ?thesis by auto
qed

definition home_states :: "'b cron_codec \<Rightarrow> 'b cron_store \<Rightarrow> (string \<times> cron_jobs_state) list" where
  "home_states codec store = map (\<lambda>(session, p). (session, jobs_on_disk codec (cron_disk store) p)) (session_artifact_files store)"

lemma home_states_at:
  assumes "distinct (map fst (session_artifact_files store))" "(session, p) \<in> set (session_artifact_files store)"
  shows "map_of (home_states codec store) session = Some (jobs_on_disk codec (cron_disk store) p)"
proof -
  have "map fst (home_states codec store) = map fst (session_artifact_files store)" by (auto simp: home_states_def)
  then have "distinct (map fst (home_states codec store))" using assms(1) by (simp only:)
  moreover have "(session, jobs_on_disk codec (cron_disk store) p) \<in> set (home_states codec store)"
    using assms(2) by (auto simp: home_states_def)
  ultimately show ?thesis by simp
qed

lemma home_dispatches:
  "set (concat (map (\<lambda>(_, state). state_dispatches state) (home_states codec store)))
     = {d. \<exists>(session, p) \<in> set (session_artifact_files store). d \<in> set (state_dispatches (jobs_on_disk codec (cron_disk store) p))}"
  by (auto simp: home_states_def case_prod_beta)

lemma merged_homes:
  assumes "merge_sessions env jobs (home_states codec store) = Ok merged" "partition_ready env codec store jobs"
  shows "distinct (map fst merged)" "fst ` set merged = fst ` set (session_artifact_files store)"
    "(session, kept) \<in> set merged \<Longrightarrow> set kept = {job \<in> set jobs. job_session_id job = session}"
proof -
  note facts = merge_sessions_Ok [OF assms(1)]
  have names: "map fst merged = map fst (session_artifact_files store)" using facts by (auto simp: home_states_def)
  then show distinct: "distinct (map fst merged)" using assms(2) by (simp add: partition_ready_def)
  show same: "fst ` set merged = fst ` set (session_artifact_files store)" using names by (metis list.set_map)
  assume kept: "(session, kept) \<in> set merged"
  then have "session \<in> fst ` set (session_artifact_files store)" using same by force
  then obtain p where p: "(session, p) \<in> set (session_artifact_files store)" by auto
  then have "(session, jobs_on_disk codec (cron_disk store) p) \<in> set (home_states codec store)" by (auto simp: home_states_def)
  with facts obtain kept' where kept': "(session, kept') \<in> set merged"
    and merge: "merge_fresh_jobs env
        (filter (\<lambda>job. case map_of (rev (map (\<lambda>job. (job_id job, job)) jobs)) (job_id job) of
           None \<Rightarrow> True | Some newer \<Rightarrow> job_session_id newer = session) (state_jobs (jobs_on_disk codec (cron_disk store) p)))
        (filter (\<lambda>job. job_session_id job = session) jobs) = Ok kept'"
    by fastforce
  have "kept' = kept" using distinct kept kept' by (metis map_of_is_SomeI option.inject)
  with session_keeps_its_jobs [OF assms(2) p merge] show "set kept = {job \<in> set jobs. job_session_id job = session}" by simp
qed

text \<open>The owner of a job is the session it belongs to.\<close>

lemma merged_owner:
  assumes "merge_sessions env jobs (home_states codec store) = Ok merged" "partition_ready env codec store jobs"
    and "\<And>job. job \<in> set jobs \<Longrightarrow> job_session_id job \<in> fst ` set (session_artifact_files store)"
  shows "map_of (rev (concat (map (\<lambda>(session, js). map (\<lambda>job. (job_id job, session)) js) merged))) k = Some session
    \<longleftrightarrow> (\<exists>job \<in> set jobs. job_id job = k \<and> job_session_id job = session)"
proof -
  let ?owners = "rev (concat (map (\<lambda>(session, js). map (\<lambda>job. (job_id job, session)) js) merged))"
  note homes = merged_homes [OF assms(1,2)]
  have ids: "distinct (map job_id jobs)" using assms(2) by (simp add: partition_ready_def)
  have owners: "(k, s) \<in> set ?owners \<longleftrightarrow> (\<exists>job \<in> set jobs. job_id job = k \<and> job_session_id job = s)" for k s
  proof
    assume "(k, s) \<in> set ?owners"
    then obtain js job where "(s, js) \<in> set merged" "job \<in> set js" "k = job_id job" by auto
    with homes(3) [of s js] show "\<exists>job \<in> set jobs. job_id job = k \<and> job_session_id job = s" by auto
  next
    assume "\<exists>job \<in> set jobs. job_id job = k \<and> job_session_id job = s"
    then obtain job where job: "job \<in> set jobs" "job_id job = k" "job_session_id job = s" by blast
    with assms(3) [of job] homes(2) have "s \<in> fst ` set merged" by simp
    then obtain js where js: "(s, js) \<in> set merged" by auto
    with homes(3) [OF js] job show "(k, s) \<in> set ?owners" by fastforce
  qed
  have "a = b" if "(k, a) \<in> set ?owners" "(k, b) \<in> set ?owners" for k a b
    using that [unfolded owners] ids by (metis distinct_map inj_on_def)
  then have "map_of ?owners k = Some session \<longleftrightarrow> (k, session) \<in> set ?owners" by (rule map_of_functional)
  also note owners
  finally show ?thesis .
qed

subsection \<open>A write that succeeds\<close>

lemma write_sessions_calm: "calm env \<Longrightarrow> fst (write_sessions env codec items store) = Ok ()"
proof (induction env codec items store rule: write_sessions.induct)
  case (2 env codec p current next_state rest store)
  obtain mid where "write_jobs_state env codec p next_state store = (Ok (), mid)"
    using write_jobs_state_calm [OF 2(3)] by (metis prod.collapse)
  with 2 show ?case by (simp add: and_then_def)
qed simp

lemma write_partition_calm:
  assumes "calm env" "partition_ready env codec store jobs" "merge_sessions env jobs (home_states codec store) = Ok merged"
    and "\<And>job. job \<in> set jobs \<Longrightarrow> job_session_id job \<in> fst ` set (session_artifact_files store)"
  obtains store' where "write_jobs_session_artifacts env codec jobs store = (Ok (), store')"
proof -
  have calm: "store\<lparr>cron_disk := meanwhile env (cron_disk store)\<rparr> = store" using assms(2) by (simp add: partition_ready_def)
  have read: "map (\<lambda>(session, p). (session, read_jobs_state env codec (cron_disk store) p)) (session_artifact_files store) = home_states codec store"
    using assms(1) by (auto simp: home_states_def calm_def intro!: read_jobs_state_on_disk)
  have known: "find (\<lambda>job. job_session_id job \<notin> fst ` set (session_artifact_files store)) jobs = None"
    using assms(4) by (auto simp: find_None_iff)
  have "fst (write_jobs_session_artifacts env codec jobs store) = Ok ()"
    using assms(1,3) by (simp add: write_jobs_session_artifacts_def known with_state_locks_def take_locks_calm calm partition_write_def
        read Let_def write_sessions_calm)
  with that show thesis by (metis prod.collapse)
qed

definition moving_store :: "json cron_store" where
  "moving_store = \<lparr>file_path = None, session_artifact_mode = True,
     session_artifact_files = [(''s'', [''/'', ''s'']), (''t'', [''/'', ''t''])],
     cron_disk = [([''/'', ''s''], state_json \<lparr>state_jobs = [sample_cron_job ''j'' ''s''],
       state_dispatches = [\<lparr>dispatch_id = ''d'', dispatch_job_id = ''j'', claimed_at = [], scheduled_for = []\<rparr>]\<rparr>)],
     heartbeat_notices = 0\<rparr>"

lemma moving_files [simp]: "session_artifact_files moving_store = [(''s'', [''/'', ''s'']), (''t'', [''/'', ''t''])]"
  "jobs_on_disk json_cron_codec (cron_disk moving_store) [''/'', ''s''] = \<lparr>state_jobs = [sample_cron_job ''j'' ''s''],
     state_dispatches = [\<lparr>dispatch_id = ''d'', dispatch_job_id = ''j'', claimed_at = [], scheduled_for = []\<rparr>]\<rparr>"
  "jobs_on_disk json_cron_codec (cron_disk moving_store) [''/'', ''t''] = \<lparr>state_jobs = [], state_dispatches = []\<rparr>"
proof -
  show "session_artifact_files moving_store = [(''s'', [''/'', ''s'']), (''t'', [''/'', ''t''])]" by (simp add: moving_store_def)
  show "jobs_on_disk json_cron_codec (cron_disk moving_store) [''/'', ''s''] = \<lparr>state_jobs = [sample_cron_job ''j'' ''s''],
      state_dispatches = [\<lparr>dispatch_id = ''d'', dispatch_job_id = ''j'', claimed_at = [], scheduled_for = []\<rparr>]\<rparr>"
    by (rule jobs_on_disk_written [OF json_cron_codec_faithful]) (simp add: moving_store_def json_cron_codec_def)
  show "jobs_on_disk json_cron_codec (cron_disk moving_store) [''/'', ''t''] = \<lparr>state_jobs = [], state_dispatches = []\<rparr>"
    by (simp add: jobs_on_disk_def moving_store_def default_jobs_state_def)
qed

lemma moving_ready: "partition_ready calm_cron_env json_cron_codec moving_store [sample_cron_job ''j'' ''t'']"
proof -
  have "cron_temp_path calm_cron_env [''/'', ''s''] \<noteq> [''/'', ''s'']" "cron_temp_path calm_cron_env [''/'', ''s''] \<noteq> [''/'', ''t'']"
    "cron_temp_path calm_cron_env [''/'', ''t''] \<noteq> [''/'', ''s'']" "cron_temp_path calm_cron_env [''/'', ''t''] \<noteq> [''/'', ''t'']"
    by code_simp+
  then have "orderly calm_cron_env [[''/'', ''s''], [''/'', ''t'']]" by (simp add: orderly_def calm_cron_env_def)
  moreover have "stamp (sample_cron_job ''j'' ''s'') = stamp (sample_cron_job ''j'' ''t'')" by (simp add: stamp_def sample_cron_job_def)
  moreover have "job_order calm_cron_env = (\<lambda>jobs. jobs)" "dispatch_order calm_cron_env = (\<lambda>ds. ds)" by (simp_all add: calm_cron_env_def)
  ultimately show ?thesis by (simp add: partition_ready_def)
qed

text \<open>C33. In a store of one file per session, writing the jobs back puts every job into the file of the session it
  belongs to and into no other, and the open dispatches of a job go with it.\<close>

theorem jobs_live_with_their_session:
  assumes "write_jobs_session_artifacts env codec jobs store = (Ok (), store')" "faithful_codec codec"
    and "partition_ready env codec store jobs" "(session, p) \<in> set (session_artifact_files store)"
  shows "set (state_jobs (jobs_on_disk codec (cron_disk store') p)) = {job \<in> set jobs. job_session_id job = session}
    \<and> set (state_dispatches (jobs_on_disk codec (cron_disk store') p))
       = {d. (\<exists>(other, q) \<in> set (session_artifact_files store). d \<in> set (state_dispatches (jobs_on_disk codec (cron_disk store) q)))
            \<and> (\<exists>job \<in> set jobs. job_id job = dispatch_job_id d \<and> job_session_id job = session)}"
proof -
  let ?files = "session_artifact_files store" and ?stored = "jobs_on_disk codec (cron_disk store)"
  let ?current = "home_states codec store"
  have order: "orderly env (map snd ?files)" "distinct (map fst ?files)" "store\<lparr>cron_disk := meanwhile env (cron_disk store)\<rparr> = store"
    "\<And>ds. set (dispatch_order env ds) = set ds"
    using assms(3) by (auto simp: partition_ready_def dest: mset_eq_setD)
  have read: "map (\<lambda>(session, p). (session, read_jobs_state env codec (cron_disk store) p)) ?files = ?current"
    using order(1) by (auto simp: home_states_def orderly_def intro!: read_jobs_state_on_disk)
  have registered: "job_session_id job \<in> fst ` set ?files" if "job \<in> set jobs" for job
    using assms(1) that by (auto simp: write_jobs_session_artifacts_def Let_def find_None_iff split: option.splits)
  have "partition_write env codec ?files jobs store = (Ok (), store')"
    using assms(1) order(3)
    by (auto simp: write_jobs_session_artifacts_def with_state_locks_def Let_def split: option.splits if_splits)
  then obtain merged where merged: "merge_sessions env jobs ?current = Ok merged"
    and wrote: "write_sessions env codec (map (\<lambda>(session, p).
        (p, case map_of ?current session of None \<Rightarrow> default_jobs_state | Some state \<Rightarrow> state,
         \<lparr>state_jobs = (case map_of merged session of None \<Rightarrow> [] | Some session_jobs \<Rightarrow> session_jobs),
          state_dispatches = filter (\<lambda>dispatch. map_of (rev (concat (map (\<lambda>(session, js).
                map (\<lambda>job. (job_id job, session)) js) merged))) (dispatch_job_id dispatch) = Some session)
            (dispatch_order env (concat (map (\<lambda>(_, state). state_dispatches state) ?current)))\<rparr>)) ?files) store = (Ok (), store')"
    by (cases "merge_sessions env jobs ?current") (auto simp: partition_write_def Let_def read throw_def)
  let ?next = "\<lambda>session. \<lparr>state_jobs = (case map_of merged session of None \<Rightarrow> [] | Some session_jobs \<Rightarrow> session_jobs),
    state_dispatches = filter (\<lambda>dispatch. map_of (rev (concat (map (\<lambda>(session, js).
        map (\<lambda>job. (job_id job, session)) js) merged))) (dispatch_job_id dispatch) = Some session)
      (dispatch_order env (concat (map (\<lambda>(_, state). state_dispatches state) ?current)))\<rparr>"
  have held: "\<forall>(q, c, n) \<in> set (map (\<lambda>(session, p). (p, case map_of ?current session of None \<Rightarrow> default_jobs_state | Some state \<Rightarrow> state, ?next session)) ?files).
      ?stored q = c"
    using home_states_at [OF order(2)] by auto
  have "orderly env (map fst (map (\<lambda>(session, p). (p, case map_of ?current session of None \<Rightarrow> default_jobs_state | Some state \<Rightarrow> state, ?next session)) ?files))"
    using order(1) by (simp add: comp_def case_prod_beta)
  from write_sessions_Ok [OF wrote assms(2) this held] assms(4)
  have after: "jobs_on_disk codec (cron_disk store') p = ?next session" by fastforce
  have "session \<in> fst ` set merged" using merged_homes(2) [OF merged assms(3)] assms(4) by force
  then obtain kept where kept: "(session, kept) \<in> set merged" by auto
  then have "map_of merged session = Some kept" using merged_homes(1) [OF merged assms(3)] by simp
  then have "set (state_jobs (?next session)) = {job \<in> set jobs. job_session_id job = session}"
    using merged_homes(3) [OF merged assms(3) kept] by simp
  moreover have "set (state_dispatches (?next session)) = {d \<in> set (concat (map (\<lambda>(_, state). state_dispatches state) ?current)).
      \<exists>job \<in> set jobs. job_id job = dispatch_job_id d \<and> job_session_id job = session}"
    using merged_owner [OF merged assms(3) registered] order(4) by simp
  ultimately show ?thesis unfolding after home_dispatches by blast
qed

theorem jobs_live_with_their_session_witness:
  "\<exists>store'. write_jobs_session_artifacts calm_cron_env json_cron_codec [sample_cron_job ''j'' ''t''] moving_store = (Ok (), store')
     \<and> set (state_jobs (jobs_on_disk json_cron_codec (cron_disk store') [''/'', ''t''])) = {sample_cron_job ''j'' ''t''}
     \<and> map dispatch_id (state_dispatches (jobs_on_disk json_cron_codec (cron_disk moving_store) [''/'', ''s''])) = [''d'']
     \<and> dispatch_id ` set (state_dispatches (jobs_on_disk json_cron_codec (cron_disk store') [''/'', ''t''])) = {''d''}"
proof -
  have session: "job_session_id (sample_cron_job ''j'' ''t'') = ''t''" by (simp add: sample_cron_job_def)
  have "merge_sessions calm_cron_env [sample_cron_job ''j'' ''t''] (home_states json_cron_codec moving_store)
      = Ok [(''s'', []), (''t'', [sample_cron_job ''j'' ''t''])]"
    by (simp add: home_states_def session merge_fresh_jobs_def calm_cron_env_def)
  then obtain store' where run: "write_jobs_session_artifacts calm_cron_env json_cron_codec [sample_cron_job ''j'' ''t''] moving_store = (Ok (), store')"
    using write_partition_calm [OF calm_cron_env_calm(1) moving_ready] session by auto
  let ?new = "jobs_on_disk json_cron_codec (cron_disk store') [''/'', ''t'']"
  have "(''t'', [''/'', ''t'']) \<in> set (session_artifact_files moving_store)" by simp
  note moved = jobs_live_with_their_session [OF run json_cron_codec_faithful moving_ready this]
  have "set (state_jobs ?new) = {sample_cron_job ''j'' ''t''}" using conjunct1 [OF moved] session by auto
  moreover have "set (state_dispatches ?new) = {\<lparr>dispatch_id = ''d'', dispatch_job_id = ''j'', claimed_at = [], scheduled_for = []\<rparr>}"
    unfolding conjunct2 [OF moved] by (auto simp: session)
  ultimately show ?thesis using run by (intro exI [of _ store']) simp
qed

end
