(* ===== verification/Cron_Scheduler.thy ===== *)
theory Cron_Scheduler
  imports Cron_Jobs
begin

text \<open>
  The scheduler of \<open>crates/pa-core/src/cron/scheduler.rs\<close>. A pass recovers interrupted dispatches and claims the
  due jobs (\<open>begin_pass\<close>); the claimed dispatches then run as futures of one task, polled by \<open>join_all\<close>. Each
  future is a small state machine (\<open>dispatch_task\<close>) that suspends only while it waits for the lane of its session
  or for the hook that runs the job, so the pass is a step relation (\<open>pass_poll\<close>) over the polls of the futures:
  in the first round every future is polled in order, and only the one polled last can come to an end before the
  next is polled; afterwards whichever is woken goes on. A panic ends the pass and is an error of the step.
\<close>

definition MAX_TIMEOUT_MS :: nat where
  "MAX_TIMEOUT_MS = 2147483647"

definition FAILURE_BACKOFF_BASE_MS :: nat where
  "FAILURE_BACKOFF_BASE_MS = 120000"

definition FAILURE_BACKOFF_CAP_MS :: nat where
  "FAILURE_BACKOFF_CAP_MS = 3600000"

text \<open>\<open>2u64.saturating_pow(n)\<close>.\<close>

definition saturating_pow2 :: "nat \<Rightarrow> nat" where
  "saturating_pow2 n = min (2 ^ n) (2 ^ 64 - 1)"

definition failure_backoff_ms :: "u32 \<Rightarrow> nat" where
  "failure_backoff_ms consecutive_failures =
     min (saturating_mul64 FAILURE_BACKOFF_BASE_MS (saturating_pow2 (unat (saturating_sub consecutive_failures 1))))
       FAILURE_BACKOFF_CAP_MS"

record 'b scheduler_core =
  core_store :: "'b cron_store"
  running :: bool
  stopped :: bool
  has_started :: bool
  failure_streaks :: "(string, u32) btree"
  run_log :: "string list"
  error_log :: "(string \<times> string) list"
  calls :: nat

text \<open>
  The hooks: what running a job returns (\<open>run_job\<close>, given the jobs run before), and the clock. Every
  operation on the store has the environment of its position in the history (\<open>env_at\<close>).
\<close>

record 'b scheduler_hooks =
  run_job :: "string list \<Rightarrow> agent_cron_job \<Rightarrow> (string option, string) result"
  hook_now :: "nat \<Rightarrow> nat"
  env_at :: "nat \<Rightarrow> 'b cron_env"

type_synonym ('b, 'a) pass = "'b scheduler_core \<Rightarrow> ('a, cron_error) result \<times> 'b scheduler_core"

definition on_store :: "'b scheduler_hooks \<Rightarrow> ('b cron_env \<Rightarrow> ('b, 'a) store_action) \<Rightarrow> ('b, 'a) pass" where
  "on_store hooks m core = (case m (env_at hooks (calls core)) (core_store core) of
     (r, store) \<Rightarrow> (r, core\<lparr>core_store := store, calls := Suc (calls core)\<rparr>))"

definition read_hook_clock :: "'b scheduler_hooks \<Rightarrow> ('b, nat) pass" where
  "read_hook_clock hooks core = (Ok (hook_now hooks (calls core)), core\<lparr>calls := Suc (calls core)\<rparr>)"

text \<open>A store write whose error value is only logged; a panic still unwinds.\<close>

definition logged :: "('b, 'a) pass \<Rightarrow> ('b, unit) pass" where
  "logged m core = (case m core of
     (Ok _, core') \<Rightarrow> (Ok (), core')
   | (Err (Bail msg), core') \<Rightarrow> (Ok (), core')
   | (Err (Panic msg), core') \<Rightarrow> (Err (Panic msg), core'))"

definition note_run_failure :: "string \<Rightarrow> ('b, u32) pass" where
  "note_run_failure ident core =
     (let count = saturating_add (case bt_get (failure_streaks core) ident of None \<Rightarrow> 0 | Some n \<Rightarrow> n) 1
      in (Ok count, core\<lparr>failure_streaks := bt_insert ident count (failure_streaks core)\<rparr>))"

definition clear_run_failure :: "string \<Rightarrow> ('b, unit) pass" where
  "clear_run_failure ident core =
     (Ok (), core\<lparr>failure_streaks := filter (\<lambda>(other, _). other \<noteq> ident) (failure_streaks core)\<rparr>)"

definition run_hook :: "'b scheduler_hooks \<Rightarrow> agent_cron_job \<Rightarrow> ('b, string option \<times> string option) pass" where
  "run_hook hooks job core = (case run_job hooks (run_log core) job of
     Ok result \<Rightarrow> (Ok (result, None), core\<lparr>run_log := run_log core @ [job_id job]\<rparr>)
   | Err message \<Rightarrow> (Ok (None, Some message),
       core\<lparr>run_log := run_log core @ [job_id job], error_log := error_log core @ [(job_id job, message)]\<rparr>))"

text \<open>
  \<open>run_dispatch\<close>, up to the call of the hook and from its return. A dispatch whose job is no longer claimed and
  active is recorded as skipped and runs nothing.
\<close>

definition enter_dispatch ::
  "'b scheduler_hooks \<Rightarrow> 'b cron_codec \<Rightarrow> agent_cron_dispatch \<Rightarrow> ('b, agent_cron_job option) pass" where
  "enter_dispatch hooks codec dispatch =
     and_then (on_store hooks (\<lambda>env. get_claimed_job env codec (job_id (snd dispatch)))) (\<lambda>claimed. case claimed of
       None \<Rightarrow>
         and_then (read_hook_clock hooks) (\<lambda>now.
         and_then (logged (on_store hooks (\<lambda>env. record_dispatch_result env codec (fst dispatch) (Some now) ''skipped'' None)))
           (\<lambda>_. return None))
     | Some job \<Rightarrow> return (Some job))"

definition finish_dispatch ::
  "'b scheduler_hooks \<Rightarrow> 'b cron_codec \<Rightarrow> agent_cron_dispatch \<Rightarrow> agent_cron_job \<Rightarrow> ('b, string option) pass" where
  "finish_dispatch hooks codec dispatch job =
     and_then (run_hook hooks job) (\<lambda>(result, run_error).
     let outcome = (if result = Some ''skipped'' \<and> run_error = None then ''skipped'' else ''ran'') in
     and_then (read_hook_clock hooks) (\<lambda>now.
     and_then (logged (on_store hooks (\<lambda>env. record_dispatch_result env codec (fst dispatch) (Some now) outcome run_error)))
       (\<lambda>_.
     and_then (if run_error \<noteq> None then
         and_then (read_hook_clock hooks) (\<lambda>later.
         and_then (note_run_failure (job_id (snd dispatch))) (\<lambda>streak.
         logged (on_store hooks (\<lambda>env.
           defer_next_run env codec (job_id (snd dispatch)) (wrapping_add64 later (failure_backoff_ms streak))))))
       else if outcome = ''ran'' then clear_run_failure (job_id (snd dispatch))
       else return ()) (\<lambda>_. return result))))"

subsection \<open>The futures of a pass\<close>

text \<open>
  A future not yet polled, waiting for its lane, running its job while it holds the lane, or done. Lanes are
  numbered in the order they are made; \<open>lanes\<close> is the map from sessions to lanes, from which a finished dispatch
  removes the entry of its session.
\<close>

datatype dispatch_task =
    Unpolled
  | Queued nat
  | Running nat agent_cron_job
  | Done "string option"

record 'b pass_state =
  pass_core :: "'b scheduler_core"
  lanes :: "(string, nat) btree"
  next_lane :: nat
  tasks :: "(agent_cron_dispatch \<times> dispatch_task) list"

definition lane_key :: "agent_cron_dispatch \<Rightarrow> string" where
  "lane_key dispatch = job_active_session_id (snd dispatch)"

definition lane_held :: "(agent_cron_dispatch \<times> dispatch_task) list \<Rightarrow> nat \<Rightarrow> bool" where
  "lane_held ts n \<longleftrightarrow> list_ex (\<lambda>(_, t). case t of Running m _ \<Rightarrow> m = n | _ \<Rightarrow> False) ts"

definition set_task :: "nat \<Rightarrow> dispatch_task \<Rightarrow> 'b pass_state \<Rightarrow> 'b pass_state" where
  "set_task i t ps = ps\<lparr>tasks := (tasks ps)[i := (fst (tasks ps ! i), t)]\<rparr>"

definition leave_lane :: "agent_cron_dispatch \<Rightarrow> 'b pass_state \<Rightarrow> 'b pass_state" where
  "leave_lane dispatch ps = ps\<lparr>lanes := filter (\<lambda>(key, _). key \<noteq> lane_key dispatch) (lanes ps)\<rparr>"

text \<open>With the lane in hand: the job starts, or the dispatch is over at once.\<close>

definition enter_lane ::
  "'b scheduler_hooks \<Rightarrow> 'b cron_codec \<Rightarrow> nat \<Rightarrow> nat \<Rightarrow> ('b pass_state, unit, cron_error) action" where
  "enter_lane hooks codec i n ps =
     (let dispatch = fst (tasks ps ! i) in
      case enter_dispatch hooks codec dispatch (pass_core ps) of
        (Err e, core) \<Rightarrow> (Err e, ps\<lparr>pass_core := core\<rparr>)
      | (Ok None, core) \<Rightarrow> (Ok (), leave_lane dispatch (set_task i (Done (Some ''skipped'')) (ps\<lparr>pass_core := core\<rparr>)))
      | (Ok (Some job), core) \<Rightarrow> (Ok (), set_task i (Running n job) (ps\<lparr>pass_core := core\<rparr>)))"

text \<open>The first poll of \<open>queue_dispatch\<close>: find or make the lane, and take it if it is free.\<close>

definition poll_task ::
  "'b scheduler_hooks \<Rightarrow> 'b cron_codec \<Rightarrow> nat \<Rightarrow> ('b pass_state, unit, cron_error) action" where
  "poll_task hooks codec i ps =
     (let key = lane_key (fst (tasks ps ! i));
          (n, ps') = (case bt_get (lanes ps) key of
             Some n \<Rightarrow> (n, ps)
           | None \<Rightarrow> (next_lane ps, ps\<lparr>lanes := bt_insert key (next_lane ps) (lanes ps), next_lane := Suc (next_lane ps)\<rparr>))
      in if lane_held (tasks ps) n then (Ok (), set_task i (Queued n) ps') else enter_lane hooks codec i n ps')"

text \<open>The hook returned: the outcome is recorded and the lane released.\<close>

definition finish_task ::
  "'b scheduler_hooks \<Rightarrow> 'b cron_codec \<Rightarrow> nat \<Rightarrow> agent_cron_job \<Rightarrow> ('b pass_state, unit, cron_error) action" where
  "finish_task hooks codec i job ps =
     (let dispatch = fst (tasks ps ! i) in
      case finish_dispatch hooks codec dispatch job (pass_core ps) of
        (Err e, core) \<Rightarrow> (Err e, ps\<lparr>pass_core := core\<rparr>)
      | (Ok result, core) \<Rightarrow> (Ok (), leave_lane dispatch (set_task i (Done result) (ps\<lparr>pass_core := core\<rparr>))))"

definition all_polled :: "'b pass_state \<Rightarrow> bool" where
  "all_polled ps \<longleftrightarrow> list_all (\<lambda>(_, t). t \<noteq> Unpolled) (tasks ps)"

text \<open>The future polled last: those before it are polled, those behind it are not.\<close>

definition last_polled :: "'b pass_state \<Rightarrow> nat \<Rightarrow> bool" where
  "last_polled ps i \<longleftrightarrow> list_all (\<lambda>(_, t). t \<noteq> Unpolled) (take (Suc i) (tasks ps))
     \<and> list_all (\<lambda>(_, t). t = Unpolled) (drop (Suc i) (tasks ps))"

text \<open>One poll that gets somewhere, with its result: \<open>Ok\<close>, or the panic that ends the pass.\<close>

inductive pass_poll ::
  "'b scheduler_hooks \<Rightarrow> 'b cron_codec \<Rightarrow> 'b pass_state \<Rightarrow> (unit, cron_error) result \<Rightarrow> 'b pass_state \<Rightarrow> bool"
  for hooks codec where
  poll: "i < length (tasks ps) \<Longrightarrow> snd (tasks ps ! i) = Unpolled
    \<Longrightarrow> list_all (\<lambda>(_, t). t \<noteq> Unpolled) (take i (tasks ps))
    \<Longrightarrow> poll_task hooks codec i ps = (r, ps') \<Longrightarrow> pass_poll hooks codec ps r ps'"
| woken: "i < length (tasks ps) \<Longrightarrow> snd (tasks ps ! i) = Queued n \<Longrightarrow> all_polled ps \<Longrightarrow> \<not> lane_held (tasks ps) n
    \<Longrightarrow> enter_lane hooks codec i n ps = (r, ps') \<Longrightarrow> pass_poll hooks codec ps r ps'"
| finish: "i < length (tasks ps) \<Longrightarrow> snd (tasks ps ! i) = Running n job \<Longrightarrow> all_polled ps \<or> last_polled ps i
    \<Longrightarrow> finish_task hooks codec i job ps = (r, ps') \<Longrightarrow> pass_poll hooks codec ps r ps'"

abbreviation pass_step :: "'b scheduler_hooks \<Rightarrow> 'b cron_codec \<Rightarrow> 'b pass_state \<Rightarrow> 'b pass_state \<Rightarrow> bool" where
  "pass_step hooks codec ps ps' \<equiv> pass_poll hooks codec ps (Ok ()) ps'"

text \<open>The start of \<open>dispatch_all\<close>, and the number of dispatches it reports once all are done.\<close>

definition initial_pass :: "'b scheduler_core \<Rightarrow> agent_cron_dispatch list \<Rightarrow> 'b pass_state" where
  "initial_pass core dispatches =
     \<lparr>pass_core = core, lanes = [], next_lane = 0, tasks = map (\<lambda>dispatch. (dispatch, Unpolled)) dispatches\<rparr>"

definition ran_count :: "'b pass_state \<Rightarrow> nat" where
  "ran_count ps = length (filter (\<lambda>(_, t). t \<noteq> Done (Some ''skipped'')) (tasks ps))"

subsection \<open>A pass\<close>

text \<open>
  \<open>run_due_at\<close> before the futures start: refused (\<open>None\<close>) while the scheduler is stopped or another pass runs.
\<close>

definition begin_pass ::
  "'b scheduler_hooks \<Rightarrow> 'b cron_codec \<Rightarrow> nat \<Rightarrow> ('b, agent_cron_dispatch list option) pass" where
  "begin_pass hooks codec now core =
     (if stopped core \<and> has_started core \<or> running core then (Ok None, core)
      else and_then (on_store hooks (\<lambda>env. recover_interrupted_dispatches env codec now)) (\<lambda>_.
           and_then (read_hook_clock hooks) (\<lambda>claimed_ms.
           and_then (on_store hooks (\<lambda>env. claim_due env codec now claimed_ms)) (\<lambda>claimed. return (Some claimed))))
           (core\<lparr>running := True\<rparr>))"

text \<open>
  \<open>run_due_at\<close> as a relation between the state before, the result and the state after. However the pass ends, the
  flag \<open>running\<close> is cleared.
\<close>

inductive run_due_at ::
  "'b scheduler_hooks \<Rightarrow> 'b cron_codec \<Rightarrow> nat \<Rightarrow> 'b scheduler_core \<Rightarrow> (nat, cron_error) result \<Rightarrow> 'b scheduler_core \<Rightarrow> bool"
  for hooks codec now core where
  refused: "begin_pass hooks codec now core = (Ok None, core') \<Longrightarrow> run_due_at hooks codec now core (Ok 0) core'"
| failed: "begin_pass hooks codec now core = (Err e, core') \<Longrightarrow> run_due_at hooks codec now core (Err e) (core'\<lparr>running := False\<rparr>)"
| completed: "begin_pass hooks codec now core = (Ok (Some dispatches), core')
    \<Longrightarrow> (pass_step hooks codec)\<^sup>*\<^sup>* (initial_pass core' dispatches) ps
    \<Longrightarrow> list_all (\<lambda>(_, t). \<exists>r. t = Done r) (tasks ps)
    \<Longrightarrow> run_due_at hooks codec now core (Ok (ran_count ps)) ((pass_core ps)\<lparr>running := False\<rparr>)"
| unwound: "begin_pass hooks codec now core = (Ok (Some dispatches), core')
    \<Longrightarrow> (pass_step hooks codec)\<^sup>*\<^sup>* (initial_pass core' dispatches) ps \<Longrightarrow> pass_poll hooks codec ps (Err e) ps'
    \<Longrightarrow> run_due_at hooks codec now core (Err e) ((pass_core ps')\<lparr>running := False\<rparr>)"

definition start_scheduler :: "'b scheduler_hooks \<Rightarrow> 'b cron_codec \<Rightarrow> ('b, unit) pass" where
  "start_scheduler hooks codec core =
     (if has_started core then (Ok (), core\<lparr>stopped := False\<rparr>)
      else and_then (read_hook_clock hooks) (\<lambda>now.
           logged (on_store hooks (\<lambda>env. recover_interrupted_dispatches env codec now)))
           (core\<lparr>stopped := False, has_started := True\<rparr>))"

definition stop_scheduler :: "('b, unit) pass" where
  "stop_scheduler core = (Ok (), core\<lparr>stopped := True\<rparr>)"

subsection \<open>The wake timer\<close>

definition wake_delay :: "nat \<Rightarrow> nat \<Rightarrow> nat" where
  "wake_delay next_run now = max 1 (min (next_run - now) MAX_TIMEOUT_MS)"

text \<open>
  One turn of the timer task of \<open>schedule_next\<close>: it ends or parks when nothing is scheduled, otherwise it sleeps;
  woken by a notification it looks again, and after its sleep it runs a pass unless the scheduler was stopped.
  An error of the pass is dropped; a panic ends the task.
\<close>

datatype timer_turn = Ended | Parked_Until_Notified | Sleep_Then_Run nat

definition timer_look :: "'b scheduler_hooks \<Rightarrow> 'b cron_codec \<Rightarrow> ('b, timer_turn) pass" where
  "timer_look hooks codec =
     and_then (on_store hooks (\<lambda>env. next_active_run_at env codec)) (\<lambda>next_run. case next_run of
       None \<Rightarrow> (\<lambda>core. (Ok (if stopped core then Ended else Parked_Until_Notified), core))
     | Some run \<Rightarrow> and_then (read_hook_clock hooks) (\<lambda>now. return (Sleep_Then_Run (wake_delay run now))))"

inductive timer_fire :: "'b scheduler_hooks \<Rightarrow> 'b cron_codec \<Rightarrow> 'b scheduler_core \<Rightarrow> bool \<Rightarrow> 'b scheduler_core \<Rightarrow> bool"
  for hooks codec core where
  ended: "stopped core \<Longrightarrow> timer_fire hooks codec core False core"
| ran: "\<not> stopped core \<Longrightarrow> read_hook_clock hooks core = (Ok now, core') \<Longrightarrow> run_due_at hooks codec now core' r core''
    \<Longrightarrow> timer_fire hooks codec core (\<nexists>msg. r = Err (Panic msg)) core''"

end
