(* ===== verification/Cron_Passes.thy ===== *)
theory Cron_Passes
  imports Cron_Scheduler
begin

text \<open>
  The dispatches of a pass: those of one session never run at the same time, the pass cannot get stuck, and it
  ends after at most three polls per dispatch.
\<close>

subsection \<open>The moves of a pass\<close>

abbreviation task_at :: "'b pass_state \<Rightarrow> nat \<Rightarrow> dispatch_task" where
  "task_at ps i \<equiv> snd (tasks ps ! i)"

abbreviation key_at :: "'b pass_state \<Rightarrow> nat \<Rightarrow> string" where
  "key_at ps i \<equiv> lane_key (fst (tasks ps ! i))"

fun lane_of :: "dispatch_task \<Rightarrow> nat option" where
  "lane_of (Queued n) = Some n"
| "lane_of (Running n job) = Some n"
| "lane_of _ = None"

text \<open>
  A step moves one future. It is queued behind the holder of its lane, or it gets a free lane, found or new, and
  runs or is over; a future that is over takes the entry of its session out of the map.
\<close>

definition moved :: "'b pass_state \<Rightarrow> nat \<Rightarrow> dispatch_task \<Rightarrow> (string, nat) btree \<Rightarrow> nat \<Rightarrow> 'b pass_state \<Rightarrow> bool" where
  "moved ps i t ls k ps' \<longleftrightarrow> length (tasks ps') = length (tasks ps) \<and> map fst (tasks ps') = map fst (tasks ps)
     \<and> (\<forall>j < length (tasks ps). task_at ps' j = (if j = i then t else task_at ps j))
     \<and> map_of (lanes ps') = map_of (case t of Done _ \<Rightarrow> filter (\<lambda>(key, _). key \<noteq> key_at ps i) ls | _ \<Rightarrow> ls)
     \<and> next_lane ps' = k"

lemma lane_held_iff: "lane_held ts n \<longleftrightarrow> (\<exists>i < length ts. \<exists>job. snd (ts ! i) = Running n job)"
proof -
  have "(case x of (_, t) \<Rightarrow> case t of Running m _ \<Rightarrow> m = n | _ \<Rightarrow> False) \<longleftrightarrow> (\<exists>job. snd x = Running n job)" for x :: "'a \<times> dispatch_task"
    by (cases x; cases "snd x") auto
  then show ?thesis by (auto simp: lane_held_def list_ex_length)
qed

lemma moved_set_task:
  assumes "i < length (tasks ps)"
  shows "moved ps i t (lanes ps) (next_lane ps)
    ((case t of Done _ \<Rightarrow> leave_lane (fst (tasks ps ! i)) | _ \<Rightarrow> (\<lambda>ps. ps)) (set_task i t (ps\<lparr>pass_core := core\<rparr>)))"
proof -
  have "map fst ((tasks ps)[i := (fst (tasks ps ! i), t)]) = map fst (tasks ps)"
    using assms by (simp add: map_update list_update_same_conv)
  then show ?thesis
    using assms by (cases t) (auto simp: moved_def set_task_def leave_lane_def)
qed

text \<open>The lane a future finds in the map, or the new one, with the map and the counter after the search.\<close>

definition found_lane :: "'b pass_state \<Rightarrow> nat \<Rightarrow> nat \<times> (string, nat) btree \<times> nat" where
  "found_lane ps i = (case bt_get (lanes ps) (key_at ps i) of
     Some n \<Rightarrow> (n, lanes ps, next_lane ps)
   | None \<Rightarrow> (next_lane ps, bt_insert (key_at ps i) (next_lane ps) (lanes ps), Suc (next_lane ps)))"

definition over_or_running :: "nat \<Rightarrow> dispatch_task \<Rightarrow> bool" where
  "over_or_running n t \<longleftrightarrow> (\<exists>r. t = Done r) \<or> (\<exists>job. t = Running n job)"

lemma enter_lane_moves:
  assumes "enter_lane hooks codec i n ps = (Ok (), ps')" "i < length (tasks ps)"
  obtains t where "over_or_running n t" "moved ps i t (lanes ps) (next_lane ps) ps'"
proof -
  obtain r core where run: "enter_dispatch hooks codec (fst (tasks ps ! i)) (pass_core ps) = (r, core)" by fastforce
  show thesis
  proof (cases r)
    case (Ok claimed)
    show thesis
    proof (cases claimed)
      case None
      with Ok run assms(1) that [of "Done (Some ''skipped'')"] moved_set_task [OF assms(2), of "Done (Some ''skipped'')" core]
      show thesis by (auto simp: enter_lane_def over_or_running_def)
    next
      case (Some job)
      with Ok run assms(1) that [of "Running n job"] moved_set_task [OF assms(2), of "Running n job" core]
      show thesis by (auto simp: enter_lane_def over_or_running_def)
    qed
  qed (use run assms in \<open>simp add: enter_lane_def\<close>)
qed

lemma poll_task_moves:
  assumes "poll_task hooks codec i ps = (Ok (), ps')" "i < length (tasks ps)" "found_lane ps i = (n, ls, k)"
  obtains (queue) "lane_held (tasks ps) n" "moved ps i (Queued n) ls k ps'"
  | (enter) t where "\<not> lane_held (tasks ps) n" "over_or_running n t" "moved ps i t ls k ps'"
proof -
  define ps0 where "ps0 = ps\<lparr>lanes := ls, next_lane := k\<rparr>"
  have same: "tasks ps0 = tasks ps" "lanes ps0 = ls" "next_lane ps0 = k" by (simp_all add: ps0_def)
  have moved0: "moved ps0 i t ls k ps' \<longleftrightarrow> moved ps i t ls k ps'" for t by (simp only: moved_def same)
  have poll: "(if lane_held (tasks ps) n then (Ok (), set_task i (Queued n) ps0) else enter_lane hooks codec i n ps0) = (Ok (), ps')"
    using assms(1,3) unfolding ps0_def poll_task_def found_lane_def
    by (cases "bt_get (lanes ps) (key_at ps i)") (auto simp: Let_def)
  show thesis
  proof (cases "lane_held (tasks ps) n")
    case True
    have "set_task i (Queued n) (ps0\<lparr>pass_core := pass_core ps0\<rparr>) = ps'" using poll True by simp
    with moved_set_task [of i ps0 "Queued n" "pass_core ps0"] assms(2) moved0 queue True show thesis by (simp add: same)
  next
    case False
    with poll have "enter_lane hooks codec i n ps0 = (Ok (), ps')" by simp
    then show thesis using assms(2) False enter moved0 by (auto simp: same elim!: enter_lane_moves)
  qed
qed

lemma finish_task_moves:
  assumes "finish_task hooks codec i job ps = (Ok (), ps')" "i < length (tasks ps)"
  obtains r where "moved ps i (Done r) (lanes ps) (next_lane ps) ps'"
proof -
  obtain r core where run: "finish_dispatch hooks codec (fst (tasks ps ! i)) job (pass_core ps) = (r, core)" by fastforce
  show thesis
  proof (cases r)
    case (Ok result)
    with run assms(1) that [of result] moved_set_task [OF assms(2), of "Done result" core] show thesis
      by (auto simp: finish_task_def)
  qed (use run assms in \<open>simp add: finish_task_def\<close>)
qed

subsection \<open>The invariant\<close>

text \<open>
  Sessions and lanes correspond among the futures under way, a lane has one runner, and polling goes from front
  to back. During the first round the map knows the lane of every future under way and keeps sessions apart, and a
  queued future has the runner of its lane in front of it.
\<close>

definition numbered :: "'b pass_state \<Rightarrow> bool" where
  "numbered ps \<longleftrightarrow> (\<forall>key n. map_of (lanes ps) key = Some n \<longrightarrow> n < next_lane ps)
     \<and> (\<forall>i < length (tasks ps). \<forall>n. lane_of (task_at ps i) = Some n \<longrightarrow> n < next_lane ps)"

definition separated :: "'b pass_state \<Rightarrow> bool" where
  "separated ps \<longleftrightarrow> (\<forall>i < length (tasks ps). \<forall>j < length (tasks ps). \<forall>n m.
     lane_of (task_at ps i) = Some n \<longrightarrow> lane_of (task_at ps j) = Some m \<longrightarrow> (key_at ps i = key_at ps j \<longleftrightarrow> n = m))"

definition one_runner :: "'b pass_state \<Rightarrow> bool" where
  "one_runner ps \<longleftrightarrow> (\<forall>i < length (tasks ps). \<forall>j < length (tasks ps). \<forall>n a b.
     task_at ps i = Running n a \<longrightarrow> task_at ps j = Running n b \<longrightarrow> i = j)"

definition front_to_back :: "'b pass_state \<Rightarrow> bool" where
  "front_to_back ps \<longleftrightarrow> (\<forall>j < length (tasks ps). \<forall>i < j. task_at ps i = Unpolled \<longrightarrow> task_at ps j = Unpolled)"

definition mapped :: "'b pass_state \<Rightarrow> bool" where
  "mapped ps \<longleftrightarrow> (\<forall>i < length (tasks ps). \<forall>n. lane_of (task_at ps i) = Some n \<longrightarrow> map_of (lanes ps) (key_at ps i) = Some n)
     \<and> (\<forall>key key' n. map_of (lanes ps) key = Some n \<longrightarrow> map_of (lanes ps) key' = Some n \<longrightarrow> key = key')
     \<and> (\<forall>i < length (tasks ps). \<forall>n. task_at ps i = Queued n \<longrightarrow> (\<exists>h < i. \<exists>job. task_at ps h = Running n job))"

definition pass_inv :: "'b pass_state \<Rightarrow> bool" where
  "pass_inv ps \<longleftrightarrow> numbered ps \<and> separated ps \<and> one_runner ps \<and> front_to_back ps
     \<and> ((\<exists>u < length (tasks ps). task_at ps u = Unpolled) \<longrightarrow> mapped ps)"

lemma movedD:
  assumes "moved ps i t ls k ps'"
  shows "length (tasks ps') = length (tasks ps)" "\<And>j. j < length (tasks ps) \<Longrightarrow> key_at ps' j = key_at ps j"
    "\<And>j. j < length (tasks ps) \<Longrightarrow> task_at ps' j = (if j = i then t else task_at ps j)" "next_lane ps' = k"
proof -
  show len: "length (tasks ps') = length (tasks ps)" using assms by (simp add: moved_def)
  have "map fst (tasks ps') ! j = map fst (tasks ps) ! j" for j using assms by (simp add: moved_def)
  then show "key_at ps' j = key_at ps j" if "j < length (tasks ps)" for j using that len by (metis nth_map)
qed (use assms in \<open>simp_all add: moved_def\<close>)

lemma moved_lanes:
  assumes "moved ps i t ls k ps'"
  shows "map_of (lanes ps') = (if \<exists>r. t = Done r then (map_of ls)(key_at ps i := None) else map_of ls)"
proof -
  have "map_of (filter (\<lambda>(key, _). key \<noteq> x) ls) = (map_of ls)(x := None)" for x
    by (induction ls) auto
  then show ?thesis using assms by (cases t) (auto simp: moved_def)
qed

lemma initial_pass_inv: "pass_inv (initial_pass core dispatches)"
  by (auto simp: pass_inv_def numbered_def separated_def one_runner_def front_to_back_def mapped_def initial_pass_def)

text \<open>The lane found in the first round: numbered, distinct from the lanes of other sessions.\<close>

lemma found_lane_facts:
  assumes inv: "pass_inv ps" and i: "i < length (tasks ps)" "task_at ps i = Unpolled" and found: "found_lane ps i = (n, ls, k)"
  shows "map_of ls = (map_of (lanes ps))(key_at ps i \<mapsto> n)" "n < k" "next_lane ps \<le> k"
    "\<And>j m. j < length (tasks ps) \<Longrightarrow> lane_of (task_at ps j) = Some m \<Longrightarrow> key_at ps j = key_at ps i \<longleftrightarrow> m = n"
    "\<And>key key' m. map_of ls key = Some m \<Longrightarrow> map_of ls key' = Some m \<Longrightarrow> key = key'"
proof -
  have mapped: "mapped ps" and numbered: "numbered ps" using inv i by (auto simp: pass_inv_def)
  have known: "map_of (lanes ps) (key_at ps j) = Some m" if "j < length (tasks ps)" "lane_of (task_at ps j) = Some m" for j m
    using mapped that by (simp add: mapped_def)
  have inj: "key = key'" if "map_of (lanes ps) key = Some m" "map_of (lanes ps) key' = Some m" for key key' m
    using mapped that unfolding mapped_def by blast
  have bound: "m < next_lane ps" if "map_of (lanes ps) key = Some m" for key m using numbered that by (simp add: numbered_def)
  show map: "map_of ls = (map_of (lanes ps))(key_at ps i \<mapsto> n)" and "n < k" "next_lane ps \<le> k"
    using found bound by (auto simp: found_lane_def map_of_bt_insert fun_upd_idem split: option.splits)
  have new: "map_of (lanes ps) (key_at ps i) = Some n \<or> map_of (lanes ps) (key_at ps i) = None \<and> n = next_lane ps"
    using found by (auto simp: found_lane_def split: option.splits)
  show "key_at ps j = key_at ps i \<longleftrightarrow> m = n" if "j < length (tasks ps)" "lane_of (task_at ps j) = Some m" for j m
    using new
  proof
    assume "map_of (lanes ps) (key_at ps i) = Some n"
    with known [OF that] inj show ?thesis by (metis option.inject)
  next
    assume "map_of (lanes ps) (key_at ps i) = None \<and> n = next_lane ps"
    with known [OF that] bound [OF known [OF that]] show ?thesis by auto
  qed
  show "key = key'" if ls: "map_of ls key = Some m" "map_of ls key' = Some m" for key key' m
  proof -
    have fresh: "x = key_at ps i" if "map_of (lanes ps) x = Some n" for x
      using new inj that bound [OF that] by blast
    show ?thesis
    proof (cases "key = key_at ps i")
      case True
      then have "m = n" using ls(1) by (simp add: map)
      with ls(2) fresh [of key'] True show ?thesis by (cases "key' = key_at ps i") (auto simp: map)
    next
      case False
      then have key: "map_of (lanes ps) key = Some m" using ls(1) by (simp add: map)
      show ?thesis
      proof (cases "key' = key_at ps i")
        case True
        then have "m = n" using ls(2) by (simp add: map)
        with key fresh False show ?thesis by blast
      next
        case False
        then show ?thesis using ls(2) inj [OF key] by (simp add: map)
      qed
    qed
  qed
qed

subsection \<open>Every poll keeps the invariant\<close>

lemma lane_held_at:
  assumes "task_at ps h = Running n job" "h < length (tasks ps)"
  shows "lane_held (tasks ps) n"
  using assms by (auto simp: lane_held_iff)

lemma moved_keeps_lanes:
  assumes inv: "numbered ps" "separated ps" "one_runner ps" and step: "moved ps i t ls k ps'" and i: "i < length (tasks ps)"
    and bound: "next_lane ps \<le> k" "\<And>key m. map_of ls key = Some m \<Longrightarrow> m < k" "\<And>n. lane_of t = Some n \<Longrightarrow> n < k"
    and lane: "\<And>j n m. j < length (tasks ps) \<Longrightarrow> j \<noteq> i \<Longrightarrow> lane_of t = Some n \<Longrightarrow> lane_of (task_at ps j) = Some m \<Longrightarrow>
      key_at ps j = key_at ps i \<longleftrightarrow> m = n"
    and free: "\<And>n job. t = Running n job \<Longrightarrow> \<not> lane_held (tasks ps) n"
  shows "numbered ps'" "separated ps'" "one_runner ps'"
proof -
  note moves = movedD [OF step]
  have old: "m < k" if "j < length (tasks ps)" "lane_of (task_at ps j) = Some m" for j m
    using inv(1) that bound(1) unfolding numbered_def by (meson less_le_trans)
  show "numbered ps'"
    unfolding numbered_def moves using bound(2,3) old
    by (auto simp: moves moved_lanes [OF step] split: if_splits)
  have "key_at ps j = key_at ps j' \<longleftrightarrow> m = m'"
    if "j < length (tasks ps)" "j' < length (tasks ps)" "lane_of (task_at ps' j) = Some m" "lane_of (task_at ps' j') = Some m'" for j j' m m'
  proof -
    consider "j = i" "j' = i" | "j = i" "j' \<noteq> i" | "j \<noteq> i" "j' = i" | "j \<noteq> i" "j' \<noteq> i" by blast
    then show ?thesis
    proof cases
      case 1
      with that show ?thesis by (simp add: moves)
    next
      case 2
      with that lane [of j' m m'] show ?thesis by (simp add: moves) metis
    next
      case 3
      with that lane [of j m' m] show ?thesis by (simp add: moves)
    next
      case 4
      with that inv(2) show ?thesis by (simp add: moves separated_def)
    qed
  qed
  then show "separated ps'" by (simp add: separated_def moves)
  have "j = j'"
    if "j < length (tasks ps)" "j' < length (tasks ps)" "task_at ps' j = Running m a" "task_at ps' j' = Running m b" for j j' m a b
  proof (rule ccontr)
    assume "j \<noteq> j'"
    then consider "j = i" "j' \<noteq> i" | "j \<noteq> i" "j' = i" | "j \<noteq> i" "j' \<noteq> i" by blast
    then show False
      using that free [of m] \<open>j \<noteq> j'\<close> inv(3) lane_held_at [of ps _ m] by cases (auto simp: moves one_runner_def)
  qed
  then show "one_runner ps'" by (auto simp: one_runner_def moves)
qed

lemma moved_keeps_order:
  assumes "front_to_back ps" "moved ps i t ls k ps'" "i < length (tasks ps)" "t \<noteq> Unpolled"
    and "task_at ps i \<noteq> Unpolled \<or> (\<forall>j < i. task_at ps j \<noteq> Unpolled)"
  shows "front_to_back ps'"
  unfolding front_to_back_def
proof (intro allI impI)
  fix j h assume "j < length (tasks ps')" "h < j" "task_at ps' h = Unpolled"
  moreover note movedD [OF assms(2)]
  ultimately have h: "h \<noteq> i" "task_at ps h = Unpolled" and j: "j < length (tasks ps)"
    using assms(4) by (auto split: if_splits)
  then have unpolled: "task_at ps j = Unpolled" using assms(1) \<open>h < j\<close> by (auto simp: front_to_back_def)
  then have "j \<noteq> i" using assms(5) h \<open>h < j\<close> by auto
  with unpolled j show "task_at ps' j = Unpolled" by (simp add: movedD [OF assms(2)])
qed

text \<open>In the first round a lane has a runner whenever a future waits for it or holds it.\<close>

lemma mapped_queued:
  assumes "mapped ps" "j < length (tasks ps)" "task_at ps j = Queued n"
  obtains h job where "h < j" "task_at ps h = Running n job"
proof -
  have "\<forall>i < length (tasks ps). \<forall>n. task_at ps i = Queued n \<longrightarrow> (\<exists>h < i. \<exists>job. task_at ps h = Running n job)"
    using assms(1) unfolding mapped_def by (elim conjE)
  with assms(2,3) have "\<exists>h < j. \<exists>job. task_at ps h = Running n job" by simp
  with that show thesis by blast
qed

lemma mapped_lane_held:
  assumes "mapped ps" "j < length (tasks ps)" "lane_of (task_at ps j) = Some n"
  shows "lane_held (tasks ps) n"
proof (cases "task_at ps j")
  case (Queued m)
  with assms have "task_at ps j = Queued n" by simp
  from mapped_queued [OF assms(1,2) this] obtain h job where "h < j" "task_at ps h = Running n job" .
  with assms(2) show ?thesis by (auto intro!: lane_held_at [of ps h])
qed (use assms lane_held_at in auto)

lemma moved_keeps_map:
  assumes mapped: "mapped ps" and step: "moved ps i t ls k ps'" and i: "i < length (tasks ps)"
    and ls: "\<And>j m. j < length (tasks ps) \<Longrightarrow> j \<noteq> i \<Longrightarrow> lane_of (task_at ps j) = Some m \<Longrightarrow> map_of ls (key_at ps j) = Some m"
      "\<And>n. lane_of t = Some n \<Longrightarrow> map_of ls (key_at ps i) = Some n"
      "\<And>key key' m. map_of ls key = Some m \<Longrightarrow> map_of ls key' = Some m \<Longrightarrow> key = key'"
    and alone: "\<And>r j m. t = Done r \<Longrightarrow> j < length (tasks ps) \<Longrightarrow> j \<noteq> i \<Longrightarrow> lane_of (task_at ps j) = Some m \<Longrightarrow> key_at ps j \<noteq> key_at ps i"
    and queue: "\<And>n. t = Queued n \<Longrightarrow> \<exists>h < i. \<exists>job. task_at ps h = Running n job"
    and kept: "\<And>j n job. j < length (tasks ps) \<Longrightarrow> task_at ps j = Queued n \<Longrightarrow> i < j \<Longrightarrow> task_at ps i \<noteq> Running n job"
  shows "mapped ps'"
proof -
  note moves = movedD [OF step]
  have "map_of (lanes ps') (key_at ps j) = Some m"
    if "j < length (tasks ps)" "lane_of (task_at ps' j) = Some m" for j m
    using that ls(1,2) alone by (cases "j = i") (auto simp: moves moved_lanes [OF step])
  moreover have "key = key'" if "map_of (lanes ps') key = Some m" "map_of (lanes ps') key' = Some m" for key key' m
    using that ls(3) by (auto simp: moved_lanes [OF step] split: if_splits)
  moreover have "\<exists>h < j. \<exists>job. task_at ps' h = Running n job"
    if "j < length (tasks ps)" "task_at ps' j = Queued n" for j n
  proof (cases "j = i")
    case True
    with that have "t = Queued n" by (simp add: moves)
    from queue [OF this] obtain h job where "h < i" "task_at ps h = Running n job" by blast
    with True that show ?thesis by (intro exI [of _ h]) (simp add: moves)
  next
    case False
    with that have "task_at ps j = Queued n" by (simp add: moves)
    moreover from mapped_queued [OF mapped that(1) this] obtain h job where "h < j" "task_at ps h = Running n job" .
    moreover from calculation have "h \<noteq> i" using kept that by blast
    ultimately show ?thesis using that by (intro exI [of _ h]) (simp add: moves)
  qed
  ultimately show ?thesis unfolding mapped_def moves(1) by (intro conjI allI impI) (simp_all add: moves)
qed

lemma mapped_while_unpolled:
  assumes "pass_inv ps" "u < length (tasks ps)" "task_at ps u = Unpolled"
  shows "mapped ps"
  using assms by (auto simp: pass_inv_def)

lemma poll_keeps_inv:
  assumes inv: "pass_inv ps" and i: "i < length (tasks ps)" "task_at ps i = Unpolled" and front: "\<forall>j < i. task_at ps j \<noteq> Unpolled"
    and poll: "poll_task hooks codec i ps = (Ok (), ps')"
  shows "pass_inv ps'"
proof -
  obtain n ls k where found: "found_lane ps i = (n, ls, k)" by (cases "found_lane ps i")
  note facts = found_lane_facts [OF inv i found]
  note mapped = mapped_while_unpolled [OF inv i]
  obtain t where t: "t = Queued n \<and> lane_held (tasks ps) n \<or> \<not> lane_held (tasks ps) n \<and> over_or_running n t"
    and step: "moved ps i t ls k ps'"
    using poll_task_moves [OF poll i(1) found] by metis
  have lane: "m = n" if "lane_of t = Some m" for m using t that by (auto simp: over_or_running_def)
  have "t \<noteq> Unpolled" using t by (auto simp: over_or_running_def)
  have bound: "m < k" if "map_of ls key = Some m" for key m
    using that facts(1-3) inv by (auto simp: pass_inv_def numbered_def split: if_splits dest: less_le_trans)
  have lanes: "numbered ps'" "separated ps'" "one_runner ps'"
    by (rule moved_keeps_lanes [OF _ _ _ step i(1) facts(3) bound];
      use inv facts(2,4) lane t in \<open>auto simp: pass_inv_def over_or_running_def\<close>)+
  have order: "front_to_back ps'"
    using moved_keeps_order [OF _ step i(1)] inv front \<open>t \<noteq> Unpolled\<close> by (simp add: pass_inv_def)
  have "mapped ps'"
  proof (rule moved_keeps_map [OF mapped step i(1)])
    fix j m assume "j < length (tasks ps)" "lane_of (task_at ps j) = Some m"
    with facts(4) [of j m] mapped show "map_of ls (key_at ps j) = Some m" by (auto simp: facts(1) mapped_def)
  next
    fix r j m assume j: "t = Done r" "j < length (tasks ps)" "lane_of (task_at ps j) = Some m"
    then have "\<not> lane_held (tasks ps) n" using t by auto
    with mapped_lane_held [OF mapped j(2,3)] facts(4) [OF j(2,3)] show "key_at ps j \<noteq> key_at ps i" by auto
  next
    fix m assume "t = Queued m"
    with t obtain h job where h: "h < length (tasks ps)" "task_at ps h = Running m job"
      by (auto simp: lane_held_iff over_or_running_def)
    then have "h < i" using inv i by (cases "h = i"; cases "i < h") (auto simp: pass_inv_def front_to_back_def)
    with h show "\<exists>h < i. \<exists>job. task_at ps h = Running m job" by blast
  next
    show "map_of ls (key_at ps i) = Some m" if "lane_of t = Some m" for m using lane [OF that] by (simp add: facts(1))
  next
    show "key = key'" if "map_of ls key = Some m" "map_of ls key' = Some m" for key key' m using facts(5) [OF that] .
  qed (use i in simp)
  with lanes order show ?thesis by (simp add: pass_inv_def)
qed

lemma all_polled_at: "all_polled ps \<longleftrightarrow> (\<forall>j < length (tasks ps). task_at ps j \<noteq> Unpolled)"
  by (auto simp: all_polled_def list_all_length split: prod.splits) (metis snd_conv surj_pair)

lemma last_polled_at:
  assumes "last_polled ps i" "i < j" "j < length (tasks ps)"
  shows "task_at ps j = Unpolled"
proof -
  have "drop (Suc i) (tasks ps) ! (j - Suc i) = tasks ps ! j" "j - Suc i < length (drop (Suc i) (tasks ps))"
    using assms(2,3) by (auto simp: nth_drop)
  with assms(1) show ?thesis by (auto simp: last_polled_def list_all_length split: prod.splits) (metis prod.collapse)
qed

lemma woken_keeps_inv:
  assumes inv: "pass_inv ps" and i: "i < length (tasks ps)" "task_at ps i = Queued n" and polled: "all_polled ps"
    and free: "\<not> lane_held (tasks ps) n" and enter: "enter_lane hooks codec i n ps = (Ok (), ps')"
  shows "pass_inv ps'"
proof -
  obtain t where t: "over_or_running n t" and step: "moved ps i t (lanes ps) (next_lane ps) ps'"
    using enter_lane_moves [OF enter i(1)] .
  have lane: "m = n" if "lane_of t = Some m" for m using t that by (auto simp: over_or_running_def)
  have sep: "key_at ps j = key_at ps i \<longleftrightarrow> m = n" if "j < length (tasks ps)" "lane_of (task_at ps j) = Some m" for j m
    using inv that i unfolding pass_inv_def separated_def by (metis lane_of.simps(1))
  have n: "n < next_lane ps" using inv i unfolding pass_inv_def numbered_def by (metis lane_of.simps(1))
  have lanes: "numbered ps'" "separated ps'" "one_runner ps'"
    by (rule moved_keeps_lanes [OF _ _ _ step i(1) order.refl];
      use n inv lane sep free t in \<open>auto simp: pass_inv_def numbered_def over_or_running_def\<close>)+
  have "t \<noteq> Unpolled" using t by (auto simp: over_or_running_def)
  with moved_keeps_order [OF _ step i(1)] inv i have "front_to_back ps'" by (simp add: pass_inv_def)
  moreover have "task_at ps' u \<noteq> Unpolled" if "u < length (tasks ps')" for u
    using polled that \<open>t \<noteq> Unpolled\<close> by (simp add: movedD [OF step] all_polled_at)
  ultimately show ?thesis using lanes by (auto simp: pass_inv_def)
qed

lemma finish_keeps_inv:
  assumes inv: "pass_inv ps" and i: "i < length (tasks ps)" "task_at ps i = Running n job" and turn: "all_polled ps \<or> last_polled ps i"
    and finish: "finish_task hooks codec i job ps = (Ok (), ps')"
  shows "pass_inv ps'"
proof -
  obtain r where step: "moved ps i (Done r) (lanes ps) (next_lane ps) ps'"
    using finish_task_moves [OF finish i(1)] .
  have lanes: "numbered ps'" "separated ps'" "one_runner ps'"
    by (rule moved_keeps_lanes [OF _ _ _ step i(1) order.refl]; use inv in \<open>auto simp: pass_inv_def numbered_def\<close>)+
  moreover have "front_to_back ps'" using moved_keeps_order [OF _ step i(1)] inv i by (simp add: pass_inv_def)
  moreover have "mapped ps'" if u: "u < length (tasks ps')" "task_at ps' u = Unpolled" for u
  proof -
    have u': "u < length (tasks ps)" "task_at ps u = Unpolled" using u by (auto simp: movedD [OF step] split: if_splits)
    with turn have last: "last_polled ps i" by (auto simp: all_polled_at)
    note mapped = mapped_while_unpolled [OF inv u']
    have waits: "\<not> i < j" if "j < length (tasks ps)" "lane_of (task_at ps j) = Some m" for j m
      using last_polled_at [OF last] that by auto
    show ?thesis
    proof (rule moved_keeps_map [OF mapped step i(1)])
      fix j m assume j: "j < length (tasks ps)" "j \<noteq> i" "lane_of (task_at ps j) = Some m"
      show "key_at ps j \<noteq> key_at ps i"
      proof
        assume "key_at ps j = key_at ps i"
        with inv j i have "m = n" unfolding pass_inv_def separated_def by (metis lane_of.simps(2))
        show False
        proof (cases "task_at ps j")
          case (Queued q)
          with j \<open>m = n\<close> have "task_at ps j = Queued n" by simp
          from mapped_queued [OF mapped j(1) this] obtain h b where h: "h < j" "task_at ps h = Running n b" .
          with inv i j(1) have "h = i" unfolding pass_inv_def one_runner_def by (meson less_trans)
          with h waits [OF j(1,3)] show False by simp
        qed (use j \<open>m = n\<close> inv i in \<open>auto simp: pass_inv_def one_runner_def\<close>)
      qed
    next
      fix j q b assume "j < length (tasks ps)" "task_at ps j = Queued q" "i < j"
      with waits [of j q] show "task_at ps i \<noteq> Running q b" by simp
    qed (use mapped in \<open>auto simp: mapped_def\<close>)
  qed
  ultimately show ?thesis by (auto simp: pass_inv_def)
qed

inductive_cases pass_stepE: "pass_poll hooks codec ps (Ok ()) ps'"

lemma front_polled:
  assumes "list_all (\<lambda>(_, t). t \<noteq> Unpolled) (take i (tasks ps))" "i < length (tasks ps)" "j < i"
  shows "task_at ps j \<noteq> Unpolled"
  using assms by (auto simp: list_all_length split: prod.splits) (metis prod.collapse)

lemma pass_step_keeps_inv:
  assumes "pass_step hooks codec ps ps'" "pass_inv ps"
  shows "pass_inv ps'"
  using assms by (auto elim!: pass_stepE intro: poll_keeps_inv woken_keeps_inv finish_keeps_inv dest: front_polled)

lemma reachable_pass_inv:
  assumes "(pass_step hooks codec)\<^sup>*\<^sup>* (initial_pass core dispatches) ps"
  shows "pass_inv ps"
  using assms by (induction rule: rtranclp_induct) (auto intro: initial_pass_inv pass_step_keeps_inv)

subsection \<open>Every poll is progress\<close>

fun polls_left :: "dispatch_task \<Rightarrow> nat" where
  "polls_left Unpolled = 3"
| "polls_left (Queued n) = 2"
| "polls_left (Running n job) = 1"
| "polls_left (Done r) = 0"

definition pass_work :: "'b pass_state \<Rightarrow> nat" where
  "pass_work ps = (\<Sum>i < length (tasks ps). polls_left (task_at ps i))"

lemma moved_work:
  assumes "moved ps i t ls k ps'" "i < length (tasks ps)" "polls_left t < polls_left (task_at ps i)"
  shows "pass_work ps' < pass_work ps"
  unfolding pass_work_def movedD(1) [OF assms(1)]
proof (rule sum_strict_mono_ex1)
  show "\<forall>j \<in> {..<length (tasks ps)}. polls_left (task_at ps' j) \<le> polls_left (task_at ps j)"
    using assms(3) by (simp add: movedD(3) [OF assms(1)])
  show "\<exists>j \<in> {..<length (tasks ps)}. polls_left (task_at ps' j) < polls_left (task_at ps j)"
    using assms(2,3) by (intro bexI [of _ i]) (simp_all add: movedD(3) [OF assms(1)])
qed simp

lemma over_or_running_polls: "over_or_running n t \<Longrightarrow> polls_left t < 2"
  by (auto simp: over_or_running_def)

lemma pass_step_works:
  assumes "pass_step hooks codec ps ps'"
  shows "pass_work ps' < pass_work ps"
  using assms
proof cases
  case (poll i)
  obtain n ls k where found: "found_lane ps i = (n, ls, k)" by (cases "found_lane ps i")
  from poll(4,1) found show ?thesis
  proof (cases rule: poll_task_moves)
    case queue
    show ?thesis by (rule moved_work [OF queue(2) poll(1)]) (simp add: poll(2))
  next
    case (enter t)
    then have "polls_left t < 2" by (simp add: over_or_running_polls)
    with enter(3) show ?thesis by (auto intro!: moved_work poll(1) simp: poll(2))
  qed
next
  case (woken i n)
  then show ?thesis by (auto elim!: enter_lane_moves dest!: over_or_running_polls intro!: moved_work)
next
  case (finish i n job)
  then show ?thesis by (auto elim!: finish_task_moves intro!: moved_work)
qed

lemma pass_steps_work:
  assumes "(pass_step hooks codec ^^ k) ps ps'"
  shows "k + pass_work ps' \<le> pass_work ps"
  using assms
proof (induction k arbitrary: ps')
  case (Suc k)
  then obtain mid where "(pass_step hooks codec ^^ k) ps mid" "pass_step hooks codec mid ps'" by auto
  with Suc.IH pass_step_works show ?case by fastforce
qed simp

lemma initial_work: "pass_work (initial_pass core dispatches) = 3 * length dispatches"
  by (simp add: pass_work_def initial_pass_def)

text \<open>The first future not polled, any runner, or a future waiting for a lane nobody holds can go on.\<close>

lemma pass_not_stuck:
  assumes "\<not> list_all (\<lambda>(_, t). \<exists>r. t = Done r) (tasks ps)"
  shows "\<exists>r ps'. pass_poll hooks codec ps r ps'"
proof -
  obtain j where j: "j < length (tasks ps)" "\<nexists>r. task_at ps j = Done r"
    using assms by (auto simp: list_all_length case_prod_beta)
  show ?thesis
  proof (cases "all_polled ps")
    case False
    define i where "i = (LEAST i. i < length (tasks ps) \<and> task_at ps i = Unpolled)"
    have "\<exists>i. i < length (tasks ps) \<and> task_at ps i = Unpolled" using False by (simp add: all_polled_at)
    then have i: "i < length (tasks ps) \<and> task_at ps i = Unpolled" unfolding i_def by (rule LeastI_ex)
    have "task_at ps h \<noteq> Unpolled" if "h < i" for h
      using not_less_Least [of h "\<lambda>i. i < length (tasks ps) \<and> task_at ps i = Unpolled"] that i unfolding i_def by linarith
    then have "list_all (\<lambda>(_, t). t \<noteq> Unpolled) (take i (tasks ps))"
      by (simp add: list_all_length case_prod_beta)
    with i pass_poll.poll [of i ps hooks codec] show ?thesis by (metis surj_pair)
  next
    case True
    show ?thesis
    proof (cases "\<exists>i < length (tasks ps). \<exists>n job. task_at ps i = Running n job")
      case True
      with \<open>all_polled ps\<close> pass_poll.finish [of _ ps] show ?thesis by (metis surj_pair)
    next
      case False
      with j \<open>all_polled ps\<close> obtain n where "task_at ps j = Queued n" by (cases "task_at ps j") (auto simp: all_polled_at)
      with j \<open>all_polled ps\<close> False pass_poll.woken [of j ps n hooks codec] show ?thesis
        by (metis lane_held_iff surj_pair)
    qed
  qed
qed

end
