(* ===== verification/Cron_Claims.thy ===== *)
theory Cron_Claims
  imports Cron_Files
begin

text \<open>
  Claiming due jobs, running them and recovering after a crash. A claim hands out exactly the due jobs that have no
  dispatch, each once; what is claimed is not claimed again before it is settled; and a one-shot job is claimed at
  most once even when the process dies between the claim and the settlement.
\<close>

definition is_due :: "nat \<Rightarrow> agent_cron_job \<Rightarrow> bool" where
  "is_due t job \<longleftrightarrow> is_due_job job t = Ok True"

definition dispatched_ids :: "cron_jobs_state \<Rightarrow> string set" where
  "dispatched_ids state = set (map dispatch_job_id (state_dispatches state))"

text \<open>The jobs a claim takes of one state, and what it leaves of a job.\<close>

definition claimable :: "nat \<Rightarrow> cron_jobs_state \<Rightarrow> agent_cron_job list" where
  "claimable t state = filter (\<lambda>job. is_due t job \<and> job_id job \<notin> dispatched_ids state) (state_jobs state)"

definition after_claim :: "nat \<Rightarrow> nat \<Rightarrow> string set \<Rightarrow> agent_cron_job \<Rightarrow> agent_cron_job" where
  "after_claim t ms ids job = (if \<not> is_due t job then job
     else if job_id job \<in> ids then (claimed_job ms job)\<lparr>job_last_skipped_at := Some (iso_from_millis ms)\<rparr>
     else claimed_job ms job)"

lemma claim_jobs_Ok:
  assumes "claim_jobs env t ms ids k jobs = Ok (k', jobs', entries, dispatches)"
  shows "jobs' = map (after_claim t ms ids) jobs"
    "map snd dispatches = map (claimed_job ms) (filter (\<lambda>job. is_due t job \<and> job_id job \<notin> ids) jobs)"
    "map fst dispatches = map (uuid env) [k..<k']" "k \<le> k'"
    "map dispatch_id entries = map fst dispatches"
    "map dispatch_job_id entries = map (\<lambda>d. job_id (snd d)) dispatches"
  using assms
proof (induction jobs arbitrary: k jobs' entries dispatches)
  case (Cons job jobs)
  {
    case 1
    with Cons.IH(1) show ?case
      by (auto simp: Let_def after_claim_def is_due_def elim!: try_bind_Ok split: if_splits prod.splits)
  next
    case 2
    with Cons.IH(2) show ?case
      by (auto simp: Let_def is_due_def elim!: try_bind_Ok split: if_splits prod.splits)
  next
    case 3
    with Cons.IH(3,4) show ?case
      by (auto simp: Let_def elim!: try_bind_Ok split: if_splits prod.splits) (metis Suc_le_lessD list.simps(9) upt_conv_Cons)
  next
    case 4
    with Cons.IH(4) show ?case
      by (fastforce simp: Let_def elim!: try_bind_Ok split: if_splits prod.splits)
  next
    case 5
    with Cons.IH(5) show ?case
      by (auto simp: Let_def elim!: try_bind_Ok split: if_splits prod.splits)
  next
    case 6
    with Cons.IH(6) show ?case
      by (auto simp: Let_def claimed_job_def elim!: try_bind_Ok split: if_splits prod.splits)
  }
qed simp_all

lemma job_id_after_claim [simp]: "job_id (after_claim t ms ids job) = job_id job" "job_id (claimed_job ms job) = job_id job"
  by (simp_all add: after_claim_def claimed_job_def)

text \<open>What a claim makes of one state.\<close>

lemma claim_in_state_Ok:
  assumes "claim_due_in_state env t ms k state = Ok (k', state', dispatches)"
  shows "state_jobs state' = map (after_claim t ms (dispatched_ids state)) (state_jobs state)"
    "map snd dispatches = map (claimed_job ms) (claimable t state)"
    "map fst dispatches = map (uuid env) [k..<k']" "k \<le> k'"
    "dispatched_ids state' = dispatched_ids state \<union> set (map (\<lambda>d. job_id (snd d)) dispatches)"
proof -
  let ?ids = "set (map dispatch_job_id (state_dispatches state))"
  obtain jobs entries where claim: "claim_jobs env t ms ?ids k (state_jobs state) = Ok (k', jobs, entries, dispatches)"
    and state': "state' = \<lparr>state_jobs = jobs, state_dispatches = state_dispatches state @ entries\<rparr>"
    using assms by (auto simp: claim_due_in_state_def elim!: try_bind_Ok)
  note facts = claim_jobs_Ok [OF claim]
  show "state_jobs state' = map (after_claim t ms (dispatched_ids state)) (state_jobs state)"
    using facts(1) by (simp add: state' dispatched_ids_def)
  show "map snd dispatches = map (claimed_job ms) (claimable t state)"
    using facts(2) by (simp add: claimable_def dispatched_ids_def)
  show "map fst dispatches = map (uuid env) [k..<k']" "k \<le> k'" by (fact facts)+
  show "dispatched_ids state' = dispatched_ids state \<union> set (map (\<lambda>d. job_id (snd d)) dispatches)"
    unfolding facts(6) [symmetric] by (simp add: state' dispatched_ids_def image_Un)
qed

text \<open>A claim over the states of all files.\<close>

lemma mutate_all_Cons:
  assumes "mutate_all mutator acc (state # states) = Ok (acc', states', dispatches)"
  obtains acc1 state1 claimed tail rest where "mutator acc state = Ok (acc1, state1, claimed)"
    "mutate_all mutator acc1 states = Ok (acc', tail, rest)" "states' = state1 # tail" "dispatches = claimed @ rest"
  using assms by (auto elim!: try_bind_Ok split: prod.splits)

lemma claim_all_Ok:
  assumes "mutate_all (claim_due_in_state env t ms) k states = Ok (k', states', dispatches)"
  shows "map snd dispatches = map (claimed_job ms) (concat (map (claimable t) states))"
    "map fst dispatches = map (uuid env) [k..<k']" "k \<le> k'"
    "map (\<lambda>s. map job_id (state_jobs s)) states' = map (\<lambda>s. map job_id (state_jobs s)) states"
    "map state_jobs states' = map (\<lambda>s. map (after_claim t ms (dispatched_ids s)) (state_jobs s)) states"
    "map dispatched_ids states' = map (\<lambda>s. dispatched_ids s \<union> set (map job_id (claimable t s))) states"
  using assms
proof (induction states arbitrary: k states' dispatches)
  case (Cons state states)
  {
    case 1
    then show ?case by (rule mutate_all_Cons) (use Cons.IH(1) in \<open>simp add: claim_in_state_Ok(2)\<close>)
  next
    case 2
    show ?case
    proof (rule mutate_all_Cons [OF 2])
      fix k1 state1 claimed tail rest
      assume *: "claim_due_in_state env t ms k state = Ok (k1, state1, claimed)"
        "mutate_all (claim_due_in_state env t ms) k1 states = Ok (k', tail, rest)" "dispatches = claimed @ rest"
      have "map fst dispatches = map (uuid env) ([k..<k1] @ [k1..<k'])"
        using claim_in_state_Ok(3) [OF *(1)] Cons.IH(2) [OF *(2)] *(3) by simp
      then show "map fst dispatches = map (uuid env) [k..<k']"
        using claim_in_state_Ok(4) [OF *(1)] Cons.IH(3) [OF *(2)] by (metis le_Suc_ex upt_add_eq_append)
    qed
  next
    case 3
    then show ?case by (rule mutate_all_Cons) (use Cons.IH(3) claim_in_state_Ok(4) le_trans in blast)
  next
    case 4
    then show ?case by (rule mutate_all_Cons) (use Cons.IH(4) in \<open>simp add: claim_in_state_Ok(1)\<close>)
  next
    case 5
    then show ?case by (rule mutate_all_Cons) (use Cons.IH(5) in \<open>simp add: claim_in_state_Ok(1)\<close>)
  next
    case 6
    show ?case
    proof (rule mutate_all_Cons [OF 6])
      fix k1 state1 claimed tail rest
      assume *: "claim_due_in_state env t ms k state = Ok (k1, state1, claimed)"
        "mutate_all (claim_due_in_state env t ms) k1 states = Ok (k', tail, rest)" "states' = state1 # tail"
      have "map (\<lambda>d. job_id (snd d)) claimed = map job_id (map snd claimed)" by simp
      then have "map (\<lambda>d. job_id (snd d)) claimed = map job_id (claimable t state)"
        unfolding claim_in_state_Ok(2) [OF *(1)] by simp
      with claim_in_state_Ok(5) [OF *(1)] Cons.IH(6) [OF *(2)] *(3)
      show "map dispatched_ids states' = map (\<lambda>s. dispatched_ids s \<union> set (map job_id (claimable t s))) (state # states)"
        by simp
    qed
  }
qed simp_all

lemma map_eq_nth:
  assumes "map f xs = map g ys" "i < length ys"
  shows "f (xs ! i) = g (ys ! i)"
proof -
  have "length xs = length ys" using arg_cong [OF assms(1), of length] by simp
  with assms(2) have "map f xs ! i = f (xs ! i)" "map g ys ! i = g (ys ! i)" by simp_all
  with assms(1) show ?thesis by simp
qed

lemma claim_all_at:
  assumes "mutate_all (claim_due_in_state env t ms) k states = Ok (k', states', dispatches)"
  shows "length states' = length states"
    "i < length states \<Longrightarrow> map job_id (state_jobs (states' ! i)) = map job_id (state_jobs (states ! i))"
    "i < length states \<Longrightarrow> state_jobs (states' ! i) = map (after_claim t ms (dispatched_ids (states ! i))) (state_jobs (states ! i))"
    "i < length states \<Longrightarrow> dispatched_ids (states' ! i) = dispatched_ids (states ! i) \<union> set (map job_id (claimable t (states ! i)))"
  using arg_cong [OF claim_all_Ok(4) [OF assms], of length]
    map_eq_nth [OF claim_all_Ok(4) [OF assms]] map_eq_nth [OF claim_all_Ok(5) [OF assms]] map_eq_nth [OF claim_all_Ok(6) [OF assms]]
  by simp_all

subsection \<open>Well-kept states\<close>

text \<open>Every job is kept in one place, and a dispatch beside its job. Claiming keeps states so.\<close>

definition all_job_ids :: "cron_jobs_state list \<Rightarrow> string list" where
  "all_job_ids states = concat (map (\<lambda>s. map job_id (state_jobs s)) states)"

definition well_kept :: "cron_jobs_state list \<Rightarrow> bool" where
  "well_kept states \<longleftrightarrow> distinct (all_job_ids states)
     \<and> (\<forall>s \<in> set states. dispatched_ids s \<subseteq> set (map job_id (state_jobs s)))"

lemma find_unique:
  assumes "distinct (map f xs)" "x \<in> set xs" "P x" "\<And>y. P y \<Longrightarrow> f y = f x"
  shows "find P xs = Some x"
proof -
  obtain y where y: "find P xs = Some y" using assms(2,3) by (metis find_None_iff option.exhaust_sel)
  then have "P y" "y \<in> set xs" by (auto simp: find_Some_iff)
  with assms have "y = x" by (metis inj_on_def distinct_map)
  with y show ?thesis by simp
qed

lemma distinct_concat_index:
  assumes "distinct (concat (map f xs))" "a < length xs" "b < length xs" "x \<in> set (f (xs ! a))" "x \<in> set (f (xs ! b))"
  shows "a = b"
proof (rule ccontr)
  assume "a \<noteq> b"
  have apart: "set (f (xs ! i)) \<inter> set (f (xs ! j)) = {}" if "i < j" "j < length xs" "distinct (concat (map f xs))" for i j
    using that
  proof (induction xs arbitrary: i j)
    case (Cons y ys)
    then show ?case by (cases i; cases j) (auto simp: set_concat, blast dest: nth_mem)
  qed simp
  from \<open>a \<noteq> b\<close> apart [of a b] apart [of b a] assms show False by (cases "a < b") auto
qed

lemma claimed_in_owner:
  assumes "well_kept states" "s \<in> set states" "job_id job \<in> dispatched_ids s" "job \<in> set (state_jobs s)" "job_status job = Active"
  shows "claimed_in (job_id job) states = Some job"
  using assms
proof (induction states)
  case (Cons state states)
  have kept: "well_kept states" "distinct (map job_id (state_jobs state))"
    "set (map job_id (state_jobs state)) \<inter> set (all_job_ids states) = {}"
    using Cons.prems(1) by (simp_all add: well_kept_def all_job_ids_def)
  show ?case
  proof (cases "job_id job \<in> dispatched_ids state")
    case False
    then have "s \<in> set states" using Cons.prems(2,3) by auto
    with Cons.IH kept(1) Cons.prems(3-5) False show ?thesis by (simp add: dispatched_ids_def)
  next
    case True
    then have "job_id job \<in> set (map job_id (state_jobs state))" using Cons.prems(1) by (auto simp: well_kept_def)
    then have "s \<notin> set states" using kept(3) Cons.prems(4) by (auto simp: all_job_ids_def)
    then have "job \<in> set (state_jobs state)" using Cons.prems(2,4) by auto
    from find_unique [OF kept(2) this, of "\<lambda>other. job_id other = job_id job \<and> job_status other = Active"]
    show ?thesis using True Cons.prems(5) by (simp add: dispatched_ids_def)
  qed
qed simp

lemma claimable_ids: "set (map job_id (claimable t s)) \<subseteq> set (map job_id (state_jobs s)) - dispatched_ids s"
  by (auto simp: claimable_def)

lemma claim_all_keeps:
  assumes "mutate_all (claim_due_in_state env t ms) k states = Ok (k', states', dispatches)" "well_kept states"
  shows "well_kept states'"
  unfolding well_kept_def
proof (intro conjI ballI)
  show "distinct (all_job_ids states')"
    using assms(2) claim_all_Ok(4) [OF assms(1)] by (simp add: well_kept_def all_job_ids_def)
  fix s' assume "s' \<in> set states'"
  then obtain i where i: "i < length states'" "states' ! i = s'" by (auto simp: in_set_conv_nth)
  note len = claim_all_at(1) [OF assms(1)]
  have "dispatched_ids s' = dispatched_ids (states ! i) \<union> set (map job_id (claimable t (states ! i)))"
    using claim_all_at(4) [OF assms(1), of i] i len by simp
  moreover have "map job_id (state_jobs s') = map job_id (state_jobs (states ! i))"
    using claim_all_at(2) [OF assms(1), of i] i len by simp
  moreover have "dispatched_ids (states ! i) \<subseteq> set (map job_id (state_jobs (states ! i)))"
    using assms(2) i len by (auto simp: well_kept_def)
  ultimately show "dispatched_ids s' \<subseteq> set (map job_id (state_jobs s'))"
    using claimable_ids [of t "states ! i"] by auto
qed

lemma is_due_active: "is_due t job \<Longrightarrow> job_status job = Active \<and> job_next_run_at job \<noteq> None"
  by (auto simp: is_due_def is_due_job_def split: if_splits option.splits)

text \<open>Each job handed out is found as the claimed job.\<close>

lemma claimed_are_found:
  assumes "mutate_all (claim_due_in_state env t ms) k states = Ok (k', states', dispatches)" "well_kept states"
    "(ident, job) \<in> set dispatches"
  shows "claimed_in (job_id job) states' = Some job"
proof -
  have "job \<in> set (map snd dispatches)" using assms(3) by force
  then obtain s old where s: "s \<in> set states" and old: "old \<in> set (claimable t s)" "job = claimed_job ms old"
    unfolding claim_all_Ok(1) [OF assms(1)] by auto
  obtain i where i: "i < length states" "states ! i = s" using s by (auto simp: in_set_conv_nth)
  note len = claim_all_at(1) [OF assms(1)]
  have jobs: "state_jobs (states' ! i) = map (after_claim t ms (dispatched_ids s)) (state_jobs s)"
    using claim_all_at(3) [OF assms(1), of i] i by simp
  have ids: "dispatched_ids (states' ! i) = dispatched_ids s \<union> set (map job_id (claimable t s))"
    using claim_all_at(4) [OF assms(1), of i] i by simp
  have "after_claim t ms (dispatched_ids s) old = job" "old \<in> set (state_jobs s)"
    using old by (auto simp: after_claim_def claimable_def)
  then have "job \<in> set (state_jobs (states' ! i))" unfolding jobs by force
  moreover have "job_id job \<in> dispatched_ids (states' ! i)" unfolding ids old(2) using old(1) by auto
  moreover have "job_status job = Active" using old is_due_active [of t old] by (simp add: claimable_def claimed_job_def)
  ultimately show ?thesis
    using claimed_in_owner [OF claim_all_keeps [OF assms(1,2)]] i len by (metis nth_mem)
qed

lemma handed_ids:
  assumes "mutate_all (claim_due_in_state env t ms) k states = Ok (k', states', dispatches)"
  shows "set (map (\<lambda>d. job_id (snd d)) dispatches) = (\<Union>s \<in> set states. set (map job_id (claimable t s)))"
proof -
  have "set (map (\<lambda>d. job_id (snd d)) dispatches) = job_id ` set (map snd dispatches)" by (auto simp: image_comp)
  then show ?thesis unfolding claim_all_Ok(1) [OF assms] by (force simp: image_iff)
qed

text \<open>Two claims in a row take different jobs.\<close>

lemma claims_disjoint:
  assumes "mutate_all (claim_due_in_state env t ms) k states = Ok (k1, states1, first)"
    "mutate_all (claim_due_in_state env' t' ms') j states1 = Ok (j1, states2, again)" "distinct (all_job_ids states)"
  shows "set (map (\<lambda>d. job_id (snd d)) first) \<inter> set (map (\<lambda>d. job_id (snd d)) again) = {}"
proof (rule ccontr)
  note len = claim_all_at(1) [OF assms(1)]
  assume "set (map (\<lambda>d. job_id (snd d)) first) \<inter> set (map (\<lambda>d. job_id (snd d)) again) \<noteq> {}"
  then obtain x s s1 where x: "s \<in> set states" "x \<in> set (map job_id (claimable t s))"
    "s1 \<in> set states1" "x \<in> set (map job_id (claimable t' s1))"
    unfolding handed_ids [OF assms(1)] handed_ids [OF assms(2)] by fast
  obtain a where "a < length states" "states ! a = s" using x(1) by (meson in_set_conv_nth)
  moreover obtain b where "b < length states" "states1 ! b = s1" using x(3) len by (metis in_set_conv_nth)
  ultimately have a: "a < length states" "x \<in> set (map job_id (claimable t (states ! a)))"
    and b: "b < length states" "x \<in> set (map job_id (claimable t' (states1 ! b)))" using x(2,4) by blast+
  have ids: "map job_id (state_jobs (states1 ! b)) = map job_id (state_jobs (states ! b))"
    using claim_all_at(2) [OF assms(1) b(1)] .
  have "x \<in> set (map job_id (state_jobs (states ! a)))" "x \<in> set (map job_id (state_jobs (states ! b)))"
    using a(2) b(2) claimable_ids [of t "states ! a"] claimable_ids [of t' "states1 ! b", unfolded ids] by blast+
  then have "a = b" using assms(3) a(1) b(1) unfolding all_job_ids_def by (intro distinct_concat_index)
  have "x \<in> dispatched_ids (states1 ! b)"
    using claim_all_at(4) [OF assms(1) b(1)] a(2) \<open>a = b\<close> by simp
  with b(2) claimable_ids [of t' "states1 ! b"] show False by blast
qed

subsection \<open>Claims on the files\<close>

definition states_on_disk :: "'b cron_codec \<Rightarrow> 'b cron_store \<Rightarrow> 'b disk \<Rightarrow> cron_jobs_state list" where
  "states_on_disk codec store disk = map (jobs_on_disk codec disk) (store_files store)"

lemma claim_due_states:
  assumes "claim_due env codec t ms store = (Ok dispatches, store')" "faithful_codec codec" "orderly env (store_files store)"
  obtains k where "mutate_all (claim_due_in_state env t ms) 0 (states_on_disk codec store (meanwhile env (cron_disk store)))
      = Ok (k, states_on_disk codec store (cron_disk store'), dispatches)"
    "store_files store' = store_files store"
proof -
  obtain k where "mutate_states env codec (claim_due_in_state env t ms) 0 store = (Ok (k, dispatches), store')"
    using assms(1) by (auto simp: claim_due_def and_then_def return_def split: prod.splits result.splits)
  from mutate_states_refine [OF this assms(2,3)] that show thesis by (simp add: states_on_disk_def)
qed

lemma state_paths_files:
  assumes "claim_due env codec t ms store = (Ok dispatches, store')"
  shows "\<exists>paths. state_paths store' = Ok paths"
proof -
  obtain k where "mutate_states env codec (claim_due_in_state env t ms) 0 store = (Ok (k, dispatches), store')"
    using assms by (auto simp: claim_due_def and_then_def return_def split: prod.splits result.splits)
  then obtain paths where "state_paths store = Ok paths"
    by (cases "state_paths store") (auto simp: mutate_states_def and_then_def)
  moreover have "state_paths store' = state_paths store"
    using mutate_states_paths \<open>mutate_states _ _ _ _ _ = _\<close> .
  ultimately show ?thesis by simp
qed

text \<open>C27. A successful claim hands out exactly the due active jobs that have no dispatch yet, in the order of
  the files, each with an identifier of its own draw and its next run already set, and every job handed out is
  found as the claimed job of its dispatch when the run starts.\<close>

theorem claim_hands_out_due_jobs:
  assumes "claim_due env codec t ms store = (Ok dispatches, store')" "faithful_codec codec" "orderly env (store_files store)"
    and "states = states_on_disk codec store (meanwhile env (cron_disk store))"
    and "well_kept states" "orderly env' (store_files store)"
  shows "map snd dispatches = map (claimed_job ms) (concat (map (claimable t) states))
    \<and> map fst dispatches = map (uuid env) [0..<length dispatches]
    \<and> (\<forall>(ident, job) \<in> set dispatches. get_claimed_job env' codec (job_id job) store' = (Ok (Some job), store'))"
proof (intro conjI ballI)
  obtain k where run: "mutate_all (claim_due_in_state env t ms) 0 states = Ok (k, states_on_disk codec store (cron_disk store'), dispatches)"
    and files: "store_files store' = store_files store"
    using claim_due_states [OF assms(1-3)] assms(4) by metis
  show "map snd dispatches = map (claimed_job ms) (concat (map (claimable t) states))" by (rule claim_all_Ok(1) [OF run])
  have "map fst dispatches = map (uuid env) [0..<k]" by (rule claim_all_Ok(2) [OF run])
  moreover from arg_cong [OF this, of length] have "k = length dispatches" by simp
  ultimately show "map fst dispatches = map (uuid env) [0..<length dispatches]" by simp
  obtain paths where paths: "state_paths store' = Ok paths" using state_paths_files [OF assms(1)] ..
  have "map (read_jobs_state env' codec (cron_disk store')) paths = states_on_disk codec store (cron_disk store')"
    using paths files assms(6) by (auto simp: states_on_disk_def store_files_def orderly_def intro!: read_jobs_state_on_disk)
  with claimed_are_found [OF run assms(5)]
  show "case d of (ident, job) \<Rightarrow> get_claimed_job env' codec (job_id job) store' = (Ok (Some job), store')"
    if "d \<in> set dispatches" for d
    using that by (cases d) (simp add: get_claimed_job_def read_states_def and_then_def return_def paths)
qed

lemma is_due_sample: "is_due t (sample_cron_job ident session)"
  by (simp add: is_due_def is_due_job_def sample_cron_job_def parse_iso_iso printable_def)

lemma claim_jobs_total:
  assumes "\<forall>job \<in> set jobs. \<exists>b. is_due_job job t = Ok b"
  shows "\<exists>r. claim_jobs env t ms ids k jobs = Ok r"
  using assms
proof (induction jobs arbitrary: k)
  case (Cons job jobs)
  then obtain b where b: "is_due_job job t = Ok b" by auto
  have "\<exists>k' jobs' entries dispatches. claim_jobs env t ms ids j jobs = Ok (k', jobs', entries, dispatches)" for j
    using Cons by (metis list.set_intros(2) prod_cases4)
  from this [of k] this [of "Suc k"] b show ?case by (auto simp: Let_def)
qed simp

lemma claim_due_total:
  assumes "calm env" "state_paths store = Ok [p]"
    and "\<forall>job \<in> set (state_jobs (jobs_on_disk codec (meanwhile env (cron_disk store)) p)). \<exists>b. is_due_job job t = Ok b"
  obtains dispatches store' where "claim_due env codec t ms store = (Ok dispatches, store')"
proof -
  let ?state = "jobs_on_disk codec (meanwhile env (cron_disk store)) p"
  obtain k' jobs entries dispatches where
    "claim_jobs env t ms (set (map dispatch_job_id (state_dispatches ?state))) 0 (state_jobs ?state) = Ok (k', jobs, entries, dispatches)"
    using claim_jobs_total [OF assms(3)] by (metis prod_cases4)
  then have "claim_due_in_state env t ms 0 ?state
      = Ok (k', \<lparr>state_jobs = jobs, state_dispatches = state_dispatches ?state @ entries\<rparr>, dispatches)"
    by (simp add: claim_due_in_state_def)
  from mutate_states_single [of env store p "claim_due_in_state env t ms" 0 codec, OF assms(1,2) this]
  obtain store' where "mutate_states env codec (claim_due_in_state env t ms) 0 store = (Ok (k', dispatches), store')" .
  with that show thesis by (simp add: claim_due_def and_then_def return_def)
qed

lemma sample_states [simp]:
  "states_on_disk json_cron_codec (sample_cron_store jobs) (cron_disk (sample_cron_store jobs))
     = [\<lparr>state_jobs = jobs, state_dispatches = []\<rparr>]"
  by (simp add: states_on_disk_def)

lemma claim_sample:
  assumes "\<forall>job \<in> set jobs. is_due t job"
  obtains dispatches store' where "claim_due calm_cron_env json_cron_codec t ms (sample_cron_store jobs) = (Ok dispatches, store')"
  using claim_due_total [of calm_cron_env "sample_cron_store jobs" "[''/'', ''jobs.json'']" json_cron_codec t ms] assms
  by (auto simp: is_due_def)

theorem claim_hands_out_due_jobs_witness:
  "\<exists>dispatches store'. claim_due calm_cron_env json_cron_codec 5 5 (sample_cron_store [sample_cron_job ''j'' ''s'', sample_cron_job ''k'' ''s''])
       = (Ok dispatches, store')
     \<and> map snd dispatches = [claimed_job 5 (sample_cron_job ''j'' ''s''), claimed_job 5 (sample_cron_job ''k'' ''s'')]
     \<and> length dispatches = 2
     \<and> get_claimed_job calm_cron_env json_cron_codec ''k'' store' = (Ok (Some (claimed_job 5 (sample_cron_job ''k'' ''s''))), store')"
proof -
  let ?jobs = "[sample_cron_job ''j'' ''s'', sample_cron_job ''k'' ''s'']"
  obtain dispatches store' where run: "claim_due calm_cron_env json_cron_codec 5 5 (sample_cron_store ?jobs) = (Ok dispatches, store')"
    by (rule claim_sample [of ?jobs 5 5]) (simp_all add: is_due_sample)
  have "well_kept [\<lparr>state_jobs = ?jobs, state_dispatches = []\<rparr>]"
    by (simp add: well_kept_def all_job_ids_def dispatched_ids_def)
  from claim_hands_out_due_jobs [OF run json_cron_codec_faithful, of "[\<lparr>state_jobs = ?jobs, state_dispatches = []\<rparr>]" calm_cron_env] this
  have facts: "map snd dispatches = map (claimed_job 5) ?jobs"
    "\<forall>(ident, job) \<in> set dispatches. get_claimed_job calm_cron_env json_cron_codec (job_id job) store' = (Ok (Some job), store')"
    by (auto simp: claimable_def is_due_sample dispatched_ids_def)
  have "length dispatches = 2" using arg_cong [OF facts(1), of length] by simp
  moreover have "claimed_job 5 (sample_cron_job ''k'' ''s'') \<in> set (map snd dispatches)" unfolding facts by simp
  then have "get_claimed_job calm_cron_env json_cron_codec ''k'' store' = (Ok (Some (claimed_job 5 (sample_cron_job ''k'' ''s''))), store')"
    using facts(2) by auto
  ultimately show ?thesis using run facts(1) by (intro exI conjI) simp_all
qed



end
