(* ===== verification/Cron_One_Shots.thy ===== *)
theory Cron_One_Shots
  imports Cron_Claims
begin

text \<open>
  A one-shot job is handed out at most once, over any sequence of claims, settlements and recoveries, whatever
  writes, renames, directory flushes and locks fail in between.
\<close>

subsection \<open>What every state change keeps, faults included\<close>

text \<open>
  A property of the state of each file that the mutator keeps survives an operation however it ends: a failed
  write leaves its file as it was or, when only the flush failed, with the new state.
\<close>

lemma write_keeps_each:
  assumes "write_jobs_state env codec p state store = (r, store')" "faithful_codec codec" "p \<in> set files" "orderly env files"
    and "\<forall>q \<in> set files. P q (jobs_on_disk codec (cron_disk store) q)" "P p state" "q \<in> set files"
  shows "P q (jobs_on_disk codec (cron_disk store') q)"
proof (cases "q = p")
  case True
  have "p \<noteq> cron_temp_path env p" using assms(3,4) by (auto simp: orderly_def)
  with write_jobs_state_effect(4) [OF assms(1)]
  consider "bt_get (cron_disk store') p = bt_get (cron_disk store) p" | "bt_get (cron_disk store') p = Some (document codec state)" by blast
  then show ?thesis
    using assms(2,5-7) True by cases (simp_all add: jobs_on_disk_written jobs_on_disk_cong [of "cron_disk store'" p "cron_disk store"])
next
  case False
  have "q \<noteq> cron_temp_path env p" using assms(3,4,7) by (auto simp: orderly_def)
  with False have "bt_get (cron_disk store') q = bt_get (cron_disk store) q"
    using write_jobs_state_effect(1) [OF assms(1)] by (auto dest: agree_offD)
  with assms(5,7) show ?thesis using jobs_on_disk_cong by metis
qed

lemma mutate_files_keep_each:
  assumes "mutate_files env codec mutator ps (acc, changed, dispatches) store = (r, store')" "faithful_codec codec"
    and "set ps \<subseteq> set files" "orderly env files"
    and "\<forall>q \<in> set files. P q (jobs_on_disk codec (cron_disk store) q)"
    and keeps: "\<And>q a s a' s' ds. P q s \<Longrightarrow> mutator a s = Ok (a', s', ds) \<Longrightarrow> P q s'"
    and "q \<in> set files"
  shows "P q (jobs_on_disk codec (cron_disk store') q)"
  using assms(1,3,5,7)
proof (induction ps arbitrary: acc changed dispatches store q)
  case (Cons p ps)
  let ?state = "jobs_on_disk codec (cron_disk store) p"
  have p: "p \<in> set files" using Cons.prems(2) by simp
  have read: "read_jobs_state env codec (cron_disk store) p = ?state"
    using p assms(4) by (simp add: orderly_def read_jobs_state_on_disk)
  show ?case
  proof (cases "mutator acc ?state")
    case (Err e)
    with Cons.prems show ?thesis by (simp add: read Let_def)
  next
    case (Ok x)
    obtain acc1 state claimed where x: "x = (acc1, state, claimed)" by (cases x)
    have P: "P p state" using keeps [of p ?state acc] Ok x Cons.prems(3) p by blast
    show ?thesis
    proof (cases "compact codec state = compact codec ?state")
      case True
      with Cons Ok x show ?thesis by (simp add: read Let_def)
    next
      case False
      obtain w mid where w: "write_jobs_state env codec p state store = (w, mid)" by fastforce
      have mid: "\<forall>q \<in> set files. P q (jobs_on_disk codec (cron_disk mid) q)"
        using write_keeps_each [of env codec p state store w mid files P, OF w assms(2) p assms(4) Cons.prems(3) P] by blast
      show ?thesis
      proof (cases w)
        case (Err e)
        with Cons.prems Ok x False w mid show ?thesis by (simp add: read Let_def and_then_def)
      next
        case w_ok: (Ok u)
        have "mutate_files env codec mutator ps (acc1, True, dispatches @ claimed) mid = (r, store')"
          using Cons.prems(1) Ok x False w w_ok by (simp add: read Let_def and_then_def)
        from Cons.IH [OF this _ mid Cons.prems(4)] Cons.prems(2) show ?thesis by simp
      qed
    qed
  qed
qed simp

lemma mutate_states_keep_each:
  assumes "mutate_states env codec mutator acc store = (r, store')" "faithful_codec codec" "orderly env (store_files store)"
    and "\<forall>q \<in> set (store_files store). P q (jobs_on_disk codec (meanwhile env (cron_disk store)) q)"
    and "meanwhile env (cron_disk store) = cron_disk store"
    and "\<And>q a s a' s' ds. P q s \<Longrightarrow> mutator a s = Ok (a', s', ds) \<Longrightarrow> P q s'"
    and "q \<in> set (store_files store)"
  shows "P q (jobs_on_disk codec (cron_disk store') q)"
proof -
  obtain paths where paths: "state_paths store = Ok paths" "store_files store = paths"
    using assms(7) by (cases "state_paths store") (simp_all add: store_files_def)
  obtain before where before: "read_jobs env codec store = (Ok before, store)" using read_jobs_calm [OF paths(1)] by blast
  have same: "store\<lparr>cron_disk := meanwhile env (cron_disk store)\<rparr> = store" using assms(5) by simp
  obtain m mid where m: "mutate_files env codec mutator paths (acc, False, []) store = (m, mid)" by fastforce
  have mid: "P q (jobs_on_disk codec (cron_disk mid) q)"
    using mutate_files_keep_each [of env codec mutator paths acc False "[]" store m mid paths P q, OF m assms(2)] assms(3-7) paths by auto
  have "cron_disk store' = cron_disk mid \<or> cron_disk store' = cron_disk store"
    using assms(1) paths before m notify_keeps_files(1)
    by (auto simp: mutate_states_def and_then_def with_state_locks_def same return_def Let_def
        split: prod.splits result.splits if_splits)
  with mid assms(4,5,7) show ?thesis by auto
qed

subsection \<open>Histories of the store\<close>

datatype 'b cron_op =
    Claim "'b cron_env" nat nat
  | Settle "'b cron_env" string nat string "string option"
  | Recover "'b cron_env" nat

fun op_env :: "'b cron_op \<Rightarrow> 'b cron_env" where
  "op_env (Claim env t ms) = env"
| "op_env (Settle env ident now outcome error) = env"
| "op_env (Recover env now) = env"

text \<open>What an operation hands out, and the store it leaves. A claim that fails hands nothing out.\<close>

fun run_cron_op :: "'b cron_codec \<Rightarrow> 'b cron_op \<Rightarrow> 'b cron_store \<Rightarrow> agent_cron_dispatch list \<times> 'b cron_store" where
  "run_cron_op codec (Claim env t ms) store = (case claim_due env codec t ms store of
     (Ok dispatches, store') \<Rightarrow> (dispatches, store') | (Err _, store') \<Rightarrow> ([], store'))"
| "run_cron_op codec (Settle env ident now outcome error) store =
     ([], snd (record_dispatch_result env codec ident (Some now) outcome error store))"
| "run_cron_op codec (Recover env now) store = ([], snd (recover_interrupted_dispatches env codec now store))"

fun run_cron_ops :: "'b cron_codec \<Rightarrow> 'b cron_op list \<Rightarrow> 'b cron_store \<Rightarrow> agent_cron_dispatch list \<times> 'b cron_store" where
  "run_cron_ops codec [] store = ([], store)"
| "run_cron_ops codec (op # ops) store = (case run_cron_op codec op store of
     (handed, store') \<Rightarrow> (case run_cron_ops codec ops store' of (rest, store'') \<Rightarrow> (handed @ rest, store'')))"

definition op_undisturbed :: "path list \<Rightarrow> 'b cron_op \<Rightarrow> bool" where
  "op_undisturbed files op \<longleftrightarrow> orderly (op_env op) files \<and> (\<forall>disk. meanwhile (op_env op) disk = disk)"

subsection \<open>One-shot jobs\<close>

text \<open>The jobs of a name are one-shot; they are spent when they have no run left or are not active.\<close>

definition one_shot :: "string \<Rightarrow> cron_jobs_state \<Rightarrow> bool" where
  "one_shot ident state \<longleftrightarrow> (\<forall>job \<in> set (state_jobs state). job_id job = ident \<longrightarrow> kind (job_schedule job) = Once)"

definition spent :: "string \<Rightarrow> cron_jobs_state \<Rightarrow> bool" where
  "spent ident state \<longleftrightarrow> (\<forall>job \<in> set (state_jobs state). job_id job = ident \<longrightarrow>
     kind (job_schedule job) = Once \<and> (job_next_run_at job = None \<or> job_status job \<noteq> Active))"

text \<open>The mutators change jobs in place; none of them gives a one-shot job another run.\<close>

definition job_steps :: "agent_cron_job \<Rightarrow> agent_cron_job \<Rightarrow> bool" where
  "job_steps job job' \<longleftrightarrow> job_id job' = job_id job \<and> job_schedule job' = job_schedule job
     \<and> (kind (job_schedule job) = Once \<longrightarrow> job_next_run_at job = None \<or> job_status job \<noteq> Active
        \<longrightarrow> job_next_run_at job' = None \<or> job_status job' \<noteq> Active)"

definition state_steps :: "cron_jobs_state \<Rightarrow> cron_jobs_state \<Rightarrow> bool" where
  "state_steps state state' \<longleftrightarrow> (\<exists>f. state_jobs state' = map f (state_jobs state) \<and> (\<forall>job. job_steps job (f job)))"

lemma state_steps_keep:
  assumes "state_steps state state'"
  shows "map job_id (state_jobs state') = map job_id (state_jobs state)"
    "one_shot ident state \<Longrightarrow> one_shot ident state'" "spent ident state \<Longrightarrow> spent ident state'"
proof -
  obtain f where f: "state_jobs state' = map f (state_jobs state)" and steps: "\<And>job. job_steps job (f job)"
    using assms by (auto simp: state_steps_def)
  have same: "job_id (f job) = job_id job" "job_schedule (f job) = job_schedule job" for job
    using steps [of job] by (simp_all add: job_steps_def)
  show "map job_id (state_jobs state') = map job_id (state_jobs state)" by (simp add: f same)
  show "one_shot ident state'" if "one_shot ident state" using that by (auto simp: one_shot_def f same)
  show "spent ident state'" if "spent ident state"
    using that steps unfolding spent_def f job_steps_def by (simp add: same) blast
qed

lemma next_stamp_once: "kind schedule = Once \<Longrightarrow> next_stamp schedule t = None"
  by (simp add: next_stamp_def next_run_at_for_schedule_def)

lemma claim_steps: "claim_due_in_state env t ms k state = Ok (k', state', ds) \<Longrightarrow> state_steps state state'"
  unfolding state_steps_def
  by (rule exI [of _ "after_claim t ms (dispatched_ids state)"])
    (auto simp: claim_in_state_Ok(1) job_steps_def after_claim_def claimed_job_def next_stamp_once)

lemma changed_jobs_steps:
  assumes "state_jobs state' = changed_jobs change (state_jobs state)" "\<forall>job job'. change job = Some job' \<longrightarrow> job_steps job job'"
  shows "state_steps state state'"
  unfolding state_steps_def
  by (rule exI [of _ "\<lambda>job. case change job of None \<Rightarrow> job | Some job' \<Rightarrow> job'"])
    (use assms in \<open>auto simp: changed_jobs_def job_steps_def split: option.splits\<close>)

lemma state_steps_refl: "state_steps state state"
  unfolding state_steps_def by (rule exI [of _ "\<lambda>job. job"]) (simp add: job_steps_def)

lemma settle_steps:
  assumes "settle_in_state d now outcome error acc state = Ok (acc', state', ds)"
  shows "state_steps state state'"
proof (cases "find (\<lambda>candidate. dispatch_id candidate = d) (state_dispatches state)")
  case None
  with assms show ?thesis by (simp add: settle_in_state_def state_steps_refl)
next
  case (Some dispatch)
  have "job_steps job job'" if "settle_change (dispatch_job_id dispatch) now outcome error job = Some job'" for job job'
    using that by (auto simp: settle_change_def settled_job_def job_steps_def Let_def next_stamp_once split: if_splits)
  then show ?thesis
    using assms Some by (intro changed_jobs_steps [of _ "settle_change (dispatch_job_id dispatch) now outcome error"])
      (auto simp: settle_in_state_def Let_def)
qed

lemma recover_steps:
  assumes "recover_interrupted_in_state now ids acc state = Ok (acc', state', ds)"
  shows "state_steps state state'"
proof -
  have "job_steps job job'" if "interrupted_change js now job = Some job'" for js job job'
    using that by (auto simp: interrupted_change_def job_steps_def split: if_splits)
  then show ?thesis
    using assms by (auto simp: recover_interrupted_in_state_def Let_def state_steps_refl intro: changed_jobs_steps split: if_splits)
qed

text \<open>
  The interface of such mutators: whatever they keep of the state of each file survives the operation built on
  them, however it ends.
\<close>

locale step_mutator =
  fixes mutator :: "'acc mutator"
  assumes steps: "mutator a s = Ok (a', s', ds) \<Longrightarrow> state_steps s s'"
begin

lemma keeps_each:
  assumes "mutate_states env codec mutator acc store = (r, store')" "faithful_codec codec" "orderly env (store_files store)"
    and "meanwhile env (cron_disk store) = cron_disk store"
    and "\<forall>q \<in> set (store_files store). P q (jobs_on_disk codec (cron_disk store) q)"
    and "\<And>q s s'. P q s \<Longrightarrow> state_steps s s' \<Longrightarrow> P q s'" "q \<in> set (store_files store)"
  shows "P q (jobs_on_disk codec (cron_disk store') q)"
  by (rule mutate_states_keep_each [OF assms(1-3)]) (use assms(4-7) steps in auto)

end

interpretation claiming: step_mutator "claim_due_in_state env t ms" for env t ms
  by unfold_locales (rule claim_steps)

interpretation settling: step_mutator "settle_in_state d now outcome error" for d now outcome error
  by unfold_locales (rule settle_steps)

interpretation recovering: step_mutator "recover_interrupted_in_state now ids" for now ids
  by unfold_locales (rule recover_steps)

text \<open>Every operation of a history moves the state of each file by such a step, or leaves it.\<close>

lemma run_cron_op_mutates:
  assumes "snd (run_cron_op codec op store) = store'"
  obtains (claim) env t ms r where "op = Claim env t ms" "mutate_states env codec (claim_due_in_state env t ms) 0 store = (r, store')"
  | (settle) env d now outcome error r where "op = Settle env d now outcome error"
      "mutate_states env codec (settle_in_state d now outcome error) [] store = (r, store')"
  | (recover) env now r where "op = Recover env now"
      "mutate_states env codec (recover_interrupted_in_state now None) [] store = (r, store')"
  using assms
  by (cases op) (auto simp: claim_due_def record_dispatch_result_def recover_interrupted_dispatches_def resolve_now_def
      and_then_def return_def split: prod.splits result.splits)

lemma run_cron_op_files:
  assumes "snd (run_cron_op codec op store) = store'"
  shows "store_files store' = store_files store"
  using assms by (cases rule: run_cron_op_mutates) (auto simp: store_files_def dest!: mutate_states_paths)

lemma run_cron_op_keeps_each:
  assumes op: "snd (run_cron_op codec op store) = store'" and codec: "faithful_codec codec"
    and env: "op_undisturbed (store_files store) op"
    and each: "\<forall>q \<in> set (store_files store). P q (jobs_on_disk codec (cron_disk store) q)"
    and keeps: "\<And>q s s'. P q s \<Longrightarrow> state_steps s s' \<Longrightarrow> P q s'" and q: "q \<in> set (store_files store)"
  shows "P q (jobs_on_disk codec (cron_disk store') q)"
proof -
  have calm: "orderly (op_env op) (store_files store)" "meanwhile (op_env op) (cron_disk store) = cron_disk store"
    using env by (simp_all add: op_undisturbed_def)
  from op show ?thesis
  proof (cases rule: run_cron_op_mutates)
    case (claim env t ms r)
    with calm show ?thesis by (intro claiming.keeps_each [where P = P, OF claim(2) codec]) (use each keeps q in auto)
  next
    case (settle env d now outcome error r)
    with calm show ?thesis by (intro settling.keeps_each [where P = P, OF settle(2) codec]) (use each keeps q in auto)
  next
    case (recover env now r)
    with calm show ?thesis by (intro recovering.keeps_each [where P = P, OF recover(2) codec]) (use each keeps q in auto)
  qed
qed

lemma run_cron_op_spends:
  assumes "run_cron_op codec op store = (handed, store')" "faithful_codec codec" "op_undisturbed (store_files store) op"
    and "\<forall>q \<in> set (store_files store). spent ident (jobs_on_disk codec (cron_disk store) q)"
  shows "\<forall>q \<in> set (store_files store). spent ident (jobs_on_disk codec (cron_disk store') q)"
    and "ident \<notin> set (map (\<lambda>d. job_id (snd d)) handed)"
proof -
  show "\<forall>q \<in> set (store_files store). spent ident (jobs_on_disk codec (cron_disk store') q)"
    using run_cron_op_keeps_each [of codec op store store' "\<lambda>q. spent ident"] assms state_steps_keep(3) by auto
  show "ident \<notin> set (map (\<lambda>d. job_id (snd d)) handed)"
  proof (cases op)
    case (Claim env t ms)
    then consider "handed = []" | "claim_due env codec t ms store = (Ok handed, store')"
      using assms(1) by (auto split: prod.splits result.splits)
    then show ?thesis
    proof cases
      case 2
      have env: "orderly env (store_files store)" "meanwhile env (cron_disk store) = cron_disk store"
        using assms(3) Claim by (simp_all add: op_undisturbed_def)
      obtain k where run: "mutate_all (claim_due_in_state env t ms) 0 (states_on_disk codec store (cron_disk store))
          = Ok (k, states_on_disk codec store (cron_disk store'), handed)"
        using claim_due_states [OF 2 assms(2) env(1)] unfolding env(2) .
      have "\<not> is_due t job" if "s \<in> set (states_on_disk codec store (cron_disk store))" "job \<in> set (state_jobs s)" "job_id job = ident" for s job
      proof -
        have "spent ident s" using assms(4) that(1) by (auto simp: states_on_disk_def)
        with that(2,3) is_due_active [of t job] show ?thesis by (auto simp: spent_def)
      qed
      then show ?thesis unfolding handed_ids [OF run] by (auto simp: claimable_def)
    qed simp
  qed (use assms(1) in auto)
qed

text \<open>The claim that hands a one-shot job out hands it out once and spends it.\<close>

lemma claimable_distinct:
  "distinct (all_job_ids states) \<Longrightarrow> distinct (concat (map (\<lambda>s. map job_id (claimable t s)) states))"
proof (induction states)
  case (Cons s states)
  have "set (concat (map (\<lambda>s. map job_id (claimable t s)) states)) \<subseteq> set (all_job_ids states)"
    by (auto simp: all_job_ids_def claimable_def)
  with Cons show ?case by (auto simp: all_job_ids_def claimable_def distinct_map_filter)
qed simp

lemma count_list_distinct: "distinct xs \<Longrightarrow> count_list xs x \<le> 1"
  by (induction xs) (auto simp: count_list_0_iff)

lemma claim_spends:
  assumes run: "mutate_all (claim_due_in_state env t ms) k states = Ok (k', states', handed)"
    and unique: "distinct (all_job_ids states)" and once: "\<forall>s \<in> set states. one_shot ident s"
  shows "count_list (map (\<lambda>d. job_id (snd d)) handed) ident \<le> 1"
    and "ident \<in> set (map (\<lambda>d. job_id (snd d)) handed) \<Longrightarrow> \<forall>s \<in> set states'. spent ident s"
proof -
  have "map (\<lambda>d. job_id (snd d)) handed = map job_id (map snd handed)" by simp
  also have "\<dots> = concat (map (\<lambda>s. map job_id (claimable t s)) states)"
    unfolding claim_all_Ok(1) [OF run] by (simp add: map_concat comp_def)
  finally show "count_list (map (\<lambda>d. job_id (snd d)) handed) ident \<le> 1"
    using count_list_distinct claimable_distinct [OF unique] by metis
  assume "ident \<in> set (map (\<lambda>d. job_id (snd d)) handed)"
  then obtain s where s: "s \<in> set states" "ident \<in> set (map job_id (claimable t s))" unfolding handed_ids [OF run] by blast
  obtain i where i: "i < length states" "states ! i = s" using s(1) by (meson in_set_conv_nth)
  obtain job where job: "job \<in> set (state_jobs s)" "job_id job = ident" "is_due t job" "ident \<notin> dispatched_ids s"
    using s(2) by (auto simp: claimable_def)
  show "\<forall>s \<in> set states'. spent ident s"
  proof
    fix s' assume "s' \<in> set states'"
    then obtain j where j: "j < length states" "states' ! j = s'" using claim_all_at(1) [OF run] by (metis in_set_conv_nth)
    note jobs = claim_all_at(3) [OF run j(1), unfolded j(2)]
    have "kind (job_schedule new) = Once \<and> job_next_run_at new = None" if new: "new \<in> set (state_jobs s')" "job_id new = ident" for new
    proof -
      from new(1) obtain old where old: "old \<in> set (state_jobs (states ! j))" "new = after_claim t ms (dispatched_ids (states ! j)) old"
        unfolding jobs set_map by (elim imageE)
      have "job_id old = ident" using new(2) old(2) by simp
      have "ident \<in> set (map job_id (state_jobs (states ! i)))" using job(1,2) i(2) by auto
      moreover have "ident \<in> set (map job_id (state_jobs (states ! j)))"
        using imageI [OF old(1), of job_id] \<open>job_id old = ident\<close> by simp
      ultimately have "i = j" using unique i(1) j(1) unfolding all_job_ids_def by (intro distinct_concat_index)
      have "distinct (map job_id (state_jobs s))" using unique split_list [OF s(1)] by (auto simp: all_job_ids_def)
      then have "old = job" using job(1,2) old(1) \<open>job_id old = ident\<close> i(2) \<open>i = j\<close> by (metis distinct_map inj_on_def)
      then have "new = claimed_job ms job" using old(2) job(2-4) i(2) \<open>i = j\<close> by (simp add: after_claim_def)
      moreover have "kind (job_schedule job) = Once" using once s(1) job(1,2) by (auto simp: one_shot_def)
      ultimately show ?thesis by (simp add: claimed_job_def next_stamp_once)
    qed
    then show "spent ident s'" by (simp add: spent_def)
  qed
qed

lemma unique_from_names:
  assumes "\<forall>q \<in> set (store_files store). map job_id (state_jobs (jobs_on_disk codec disk q)) = names q"
  shows "all_job_ids (states_on_disk codec store disk) = concat (map names (store_files store))"
  using assms by (simp add: all_job_ids_def states_on_disk_def comp_def cong: map_cong)

lemma run_cron_ops_spent:
  assumes "faithful_codec codec" "\<forall>op \<in> set ops. op_undisturbed (store_files store) op"
    and "\<forall>q \<in> set (store_files store). spent ident (jobs_on_disk codec (cron_disk store) q)"
  shows "ident \<notin> set (map (\<lambda>d. job_id (snd d)) (fst (run_cron_ops codec ops store)))"
  using assms(2,3)
proof (induction ops arbitrary: store)
  case (Cons op ops)
  obtain handed store' where op: "run_cron_op codec op store = (handed, store')" by fastforce
  have files: "store_files store' = store_files store" using run_cron_op_files [of codec op store store'] op by simp
  note spends = run_cron_op_spends [OF op assms(1) _ Cons.prems(2)]
  have "ident \<notin> set (map (\<lambda>d. job_id (snd d)) (fst (run_cron_ops codec ops store')))"
    using Cons.IH [of store'] Cons.prems spends(1) files by simp
  with op spends(2) Cons.prems show ?case by (cases "run_cron_ops codec ops store'") (simp add: image_Un)
qed simp

lemma run_cron_ops_once:
  assumes "faithful_codec codec" "\<forall>op \<in> set ops. op_undisturbed (store_files store) op"
    and "\<forall>q \<in> set (store_files store). map job_id (state_jobs (jobs_on_disk codec (cron_disk store) q)) = names q
      \<and> one_shot ident (jobs_on_disk codec (cron_disk store) q)"
    and "distinct (concat (map names (store_files store)))"
  shows "count_list (map (\<lambda>d. job_id (snd d)) (fst (run_cron_ops codec ops store))) ident \<le> 1"
  using assms(2-)
proof (induction ops arbitrary: store)
  case (Cons op ops)
  obtain handed store' where op: "run_cron_op codec op store = (handed, store')" by fastforce
  obtain rest last where rest: "run_cron_ops codec ops store' = (rest, last)" by fastforce
  have files: "store_files store' = store_files store" using run_cron_op_files [of codec op store store'] op by simp
  let ?P = "\<lambda>q s. map job_id (state_jobs s) = names q \<and> one_shot ident s"
  have next_each: "?P q (jobs_on_disk codec (cron_disk store') q)" if "q \<in> set (store_files store)" for q
    using run_cron_op_keeps_each [of codec op store store' ?P, OF _ assms(1) _ Cons.prems(2) _ that] op Cons.prems(1) state_steps_keep by simp
  have later: "count_list (map (\<lambda>d. job_id (snd d)) rest) ident \<le> 1"
    using Cons.IH [of store'] next_each Cons.prems(1,3) files rest by simp
  show ?case
  proof (cases "ident \<in> set (map (\<lambda>d. job_id (snd d)) handed)")
    case False
    with op rest later show ?thesis by (simp add: count_list_0_iff)
  next
    case True
    then obtain env t ms where claim: "op = Claim env t ms" "claim_due env codec t ms store = (Ok handed, store')"
      using op by (cases op) (auto split: prod.splits result.splits)
    have env: "orderly env (store_files store)" "meanwhile env (cron_disk store) = cron_disk store"
      using Cons.prems(1) claim(1) by (simp_all add: op_undisturbed_def)
    obtain k where run: "mutate_all (claim_due_in_state env t ms) 0 (states_on_disk codec store (cron_disk store))
        = Ok (k, states_on_disk codec store (cron_disk store'), handed)"
      using claim_due_states [OF claim(2) assms(1) env(1)] unfolding env(2) .
    have unique: "distinct (all_job_ids (states_on_disk codec store (cron_disk store)))"
      using unique_from_names [of store codec "cron_disk store" names] Cons.prems(2,3) by simp
    have once: "\<forall>s \<in> set (states_on_disk codec store (cron_disk store)). one_shot ident s"
      using Cons.prems(2) by (auto simp: states_on_disk_def)
    note spends = claim_spends [OF run unique once]
    have "ident \<notin> set (map (\<lambda>d. job_id (snd d)) rest)"
      using run_cron_ops_spent [OF assms(1), of ops store' ident] spends(2) [OF True] Cons.prems(1) files rest
      by (auto simp: states_on_disk_def)
    with spends(1) op rest show ?thesis by (simp add: count_list_0_iff)
  qed
qed simp

text \<open>C6. A one-shot job is handed out at most once: over any sequence of claims, settlements and recoveries,
  at any times and with any failing writes, renames, flushes and locks, the dispatches handed out contain it at
  most once, so a crash between claim and settlement never makes it run again.\<close>

theorem one_shot_claimed_at_most_once:
  assumes "faithful_codec codec" "list_all (op_undisturbed (store_files store)) ops"
    and "distinct (all_job_ids (states_on_disk codec store (cron_disk store)))"
    and "list_all (one_shot ident) (states_on_disk codec store (cron_disk store))"
  shows "count_list (map (\<lambda>d. job_id (snd d)) (fst (run_cron_ops codec ops store))) ident \<le> 1"
proof (rule run_cron_ops_once [of _ _ _ "\<lambda>q. map job_id (state_jobs (jobs_on_disk codec (cron_disk store) q))"])
  show "distinct (concat (map (\<lambda>q. map job_id (state_jobs (jobs_on_disk codec (cron_disk store) q))) (store_files store)))"
    using assms(3) by (simp add: all_job_ids_def states_on_disk_def comp_def)
qed (use assms in \<open>auto simp: list_all_iff states_on_disk_def\<close>)

theorem one_shot_claimed_at_most_once_witness:
  "count_list (map (\<lambda>d. job_id (snd d)) (fst (run_cron_ops json_cron_codec
       [Claim calm_cron_env 5 5, Recover calm_cron_env 6, Claim calm_cron_env 7 7] (sample_cron_store [sample_cron_job ''j'' ''s''])))) ''j'' \<le> 1
   \<and> fst (run_cron_op json_cron_codec (Claim calm_cron_env 5 5) (sample_cron_store [sample_cron_job ''j'' ''s''])) \<noteq> []"
proof
  let ?jobs = "[sample_cron_job ''j'' ''s'']"
  show "count_list (map (\<lambda>d. job_id (snd d)) (fst (run_cron_ops json_cron_codec
      [Claim calm_cron_env 5 5, Recover calm_cron_env 6, Claim calm_cron_env 7 7] (sample_cron_store ?jobs)))) ''j'' \<le> 1"
    by (rule one_shot_claimed_at_most_once [OF json_cron_codec_faithful])
      (simp_all add: op_undisturbed_def all_job_ids_def one_shot_def)
  obtain handed store' where run: "claim_due calm_cron_env json_cron_codec 5 5 (sample_cron_store ?jobs) = (Ok handed, store')"
    by (rule claim_sample [of ?jobs 5 5]) (simp_all add: is_due_sample)
  obtain k where "mutate_all (claim_due_in_state calm_cron_env 5 5) 0 [\<lparr>state_jobs = ?jobs, state_dispatches = []\<rparr>]
      = Ok (k, states_on_disk json_cron_codec (sample_cron_store ?jobs) (cron_disk store'), handed)"
    using claim_due_states [OF run json_cron_codec_faithful] by auto
  from claim_all_Ok(1) [OF this] have "handed \<noteq> []" by (auto simp: claimable_def is_due_sample dispatched_ids_def)
  with run show "fst (run_cron_op json_cron_codec (Claim calm_cron_env 5 5) (sample_cron_store ?jobs)) \<noteq> []" by simp
qed

end
