(* ===== verification/Spec2Isabelle.thy ===== *)
theory Spec2Isabelle
  imports Calendar Profile Store_Records Harvest Git Daemon_Client Delivery Observer_Reviews Query Enrollment Dispatch Cli
    Lock_Dir Heartbeat_Command Cron_Beats Cron_Partition Cron_Runs Cron_One_Shots
begin

text \<open>
  Verification of the Big Brother review service and of the scheduler of agent jobs.

  \<^bold>\<open>The program.\<close> Two subsystems of the repository are modelled.
  Big Brother watches enrolled git work trees, and for every range of new commits on the
  tracked branch it has a resident agent (the conductor) run a multi-layer review. The operator enrolls a
  repository with \<open>big-brother init\<close>, which writes a profile and seeds a baseline cursor. A watch service,
  the observer, then scans all enrolled repositories: it harvests finished reviews from the conductor's
  transcript, supervises attempts that died or ran out of time, fast-forwards the work tree, admits a new
  head into the durable state, wakes the conductor and delivers finished reviews to GitHub and Bark. The
  conductor dispatches one child session per layer with the tool \<open>dispatch_review\<close>. The durable state of a
  repository is one \<open>state.json\<close> and one immutable JSON record per reviewed range, changed only through the
  store in \<open>state.rs\<close>, under a cross-process directory lock. The operator reads the result with
  \<open>big-brother status\<close>. The scheduler in \<open>crates/pa-core/src/cron\<close> runs prompts of agent sessions at given times:
  a job has a schedule (\<open>in 10m\<close>, \<open>every 5m\<close>, \<open>at\<close> an instant, or a cron expression), a heartbeat is a job that
  keeps a session going, and the jobs live in one JSON file or in one file per session, shared by processes under
  the same kind of lock. A pass of the scheduler recovers dispatches a crash interrupted, claims the due jobs, runs
  the claimed dispatches concurrently but one at a time per session, and records what came of them.

  \<^bold>\<open>Theories and sources.\<close> File names are relative to \<open>src/crates/pa-daemon/src/big_brother/\<close> unless they
  start with \<open>crates\<close>. Definitions keep the names of the Rust items they translate.
  \<^item> \<open>Prelude\<close>: Rust's \<open>Result\<close>, unsigned words with saturating operations, and \<open>BTreeMap\<close> as a key-ordered
    association list, with the locale \<open>keyed_map\<close> as the interface the components use.
  \<^item> \<open>Rust_Strings\<close>, \<open>Filesystem\<close>, \<open>Json\<close>: what the sources use of \<open>str\<close> (UTF-8 bytes, trimming, splitting),
    \<open>std::path\<close>, \<open>std::fs\<close> and JSON values.
  \<^item> \<open>Calendar\<close>: \<open>crates/pa-daemon/src/util.rs\<close> (\<open>days_from_civil\<close>, \<open>civil_from_days\<close>, \<open>iso_from_unix_ms\<close>,
    \<open>iso_to_unix_ms\<close>).
  \<^item> \<open>Profile\<close>: \<open>profile.rs\<close> (\<open>validate\<close>, \<open>load_profile\<close>, \<open>repo_slug\<close>, \<open>repo_dir\<close>) and \<open>find_git_repo_root\<close>
    of \<open>crates/pa-core/src/packages/resolve/discovery.rs\<close>.
  \<^item> \<open>Repo_State\<close>: \<open>state.rs\<close>, one definition per operation: \<open>seed_cursor\<close>, \<open>admit\<close>, \<open>complete\<close>, \<open>fail_range\<close>,
    \<open>retry_attempt\<close>, the observation failures, \<open>update_delivery\<close>, \<open>records\<close>, and the helpers below them.
    \<open>State_Spec\<close> is the abstract specification: a branch is \<open>Unseeded\<close>, \<open>Idle\<close> or \<open>Reviewing\<close>, and each
    operation is at most one step of that machine. \<open>Repo_Lemmas\<close>, \<open>Store_Properties\<close>, \<open>Store_Healthy\<close>,
    \<open>Store_Theorems\<close> and \<open>Store_Records\<close> hold its lemmas and properties.
  \<^item> \<open>Lock_Dir\<close>: \<open>crates/pa-core/src/platform/lock_dir.rs\<close>.
  \<^item> \<open>Harvest\<close>: \<open>harvest.rs\<close>. \<open>Git\<close>: \<open>git.rs\<close>. \<open>Daemon_Client\<close>: \<open>client.rs\<close>. \<open>Delivery\<close>: \<open>delivery.rs\<close>.
  \<^item> \<open>World\<close>: the state the service's programs thread (disk, clock, connection, set of woken ranges, logs of git
    commands, HTTP requests and daemon commands) and the record \<open>host\<close> of what answers them.
  \<^item> \<open>Store_Effects\<close>: the relation \<open>advances\<close>, a change of a repository's files that a run of store operations
    explains, and how it composes.
  \<^item> \<open>Observer\<close>: \<open>observer.rs\<close>, with \<open>Observer_Store\<close> (everything it writes is a run of the store) and
    \<open>Observer_Reviews\<close> (its guarantees for reviews).
  \<^item> \<open>Query\<close>: \<open>query.rs\<close>. \<open>Enrollment\<close>: \<open>init.rs\<close>. \<open>Dispatch\<close>: \<open>dispatch.rs\<close> and \<open>prompt.rs\<close>. \<open>Cli\<close>:
    \<open>crates/pa-cli/src/bin/big_brother.rs\<close>.

  The scheduler, with file names relative to \<open>src/crates/pa-core/src/cron/\<close>:
  \<^item> \<open>Rust_Text\<close>: white space, lowercasing and byte slices of \<open>str\<close>, with panics as errors.
  \<^item> \<open>Cron_Schedule\<close>: \<open>mod.rs\<close> (schedule texts, cron expressions and the search for the next run, timestamps,
    deferral of heartbeats) and \<open>format_iso\<close> of \<open>crates/pa-core/src/session/manager/ids.rs\<close>; \<open>Cron_Times\<close> holds its
    properties. \<open>Heartbeat_Command\<close>: the command parser of \<open>mod.rs\<close>.
  \<^item> \<open>Cron_Store\<close>: \<open>store/state.rs\<close>, \<open>store/mod.rs\<close>, \<open>store/session_artifacts.rs\<close> (reading, locking, merging and
    writing of state files, the partition by session) and \<open>atomic_write_with\<close> of
    \<open>crates/pa-core/src/settings/storage.rs\<close>. \<open>Cron_Jobs\<close>: \<open>store/jobs.rs\<close> and the transitions of \<open>store/state.rs\<close>.
    \<open>Cron_Heartbeats\<close>: \<open>store/heartbeat.rs\<close> and \<open>store/rlm_heartbeat.rs\<close>.
  \<^item> \<open>Cron_Scheduler\<close>: \<open>scheduler.rs\<close>. The futures of a pass are small state machines, and \<open>pass_poll\<close> is the
    relation of one poll; \<open>run_due_at\<close> is a whole pass.
  \<^item> \<open>Cron_Codec\<close> and \<open>Cron_Files\<close>: serialization, and the refinement of the files by a list of states.
    \<open>Cron_Claims\<close>, \<open>Cron_One_Shots\<close>, \<open>Cron_Merge\<close>, \<open>Cron_Partition\<close>, \<open>Cron_Beats\<close>, \<open>Cron_Passes\<close>
    and \<open>Cron_Runs\<close> hold the properties of claims, histories, merges, the files of sessions, heartbeats and passes.

  \<^bold>\<open>State and errors.\<close> A store operation is a function of an environment and a disk, and returns a \<open>Result\<close>
  with the disk it leaves. The environment decides which file-system calls fail, what a failing write leaves
  behind and what the clock reads, and the properties hold for every environment unless they say otherwise.
  Every error of the sources is a value: \<open>state_error\<close> for the store, \<open>failure\<close> for the code that uses
  \<open>anyhow\<close>. The observer and enrollment are programs over \<open>world\<close>, composed with \<open>and_then\<close> the way the
  source composes them with \<open>?\<close>; \<open>attempt\<close> is a call whose failure the source handles. The job store of the
  scheduler is a record of its files and its disk; its errors are \<open>Bail\<close>, which the code can handle, and \<open>Panic\<close>,
  which unwinds.

  \<^bold>\<open>Interfaces.\<close> \<open>keyed_map\<close> is interpreted on \<open>bt_insert\<close> (as \<open>bt\<close>). \<open>effect_preorder\<close> is a reflexive and
  transitive relation between worlds, with the rules by which a program stays within it; it is interpreted on
  \<open>advances\<close> (as \<open>store_run\<close>, from which the observer's properties follow), on \<open>untouched\<close> (disk,
  daemon commands and HTTP requests as they were) and on \<open>same_disk\<close>, both for enrollment. \<open>step_mutator\<close> is a
  change of a job state that keeps the identity of its jobs and gives no spent one-shot another run; it is
  interpreted on the mutators of claiming, settling and recovering.

  \<^bold>\<open>Parameters.\<close> Code outside the repository is an argument: \<open>serde_json\<close> (\<open>codec\<close>, with the hypothesis
  \<open>codec_ok\<close> that decoding what was encoded gives it back, and \<open>codec_total\<close> that encoding succeeds), the git
  program (\<open>git_run\<close>), HTTP (\<open>http_reply\<close>), the daemon's socket (\<open>wire_event\<close> lists), and the supervisor's
  child sessions (\<open>child_host\<close>). \<open>quiet\<close> environments, where no call fails, appear only in properties that
  say an operation succeeds; \<open>alone\<close> means that no other process interferes with a lock. Each hypothesis is
  shown to hold for a concrete instance by the witness of the property.

  \<^bold>\<open>What is proved.\<close>
  \<^item> Reviews are gapless: after any store operations under any faults, the completed ranges of a branch lead
    from the baseline to the cursor, each starting where the previous one ended
    (\<open>completed_ranges_tile\<close>), and this lifts to the observer as a whole
    (\<open>observation_keeps_reviews_gapless\<close>, below). The store refines the three-phase machine
    (\<open>store_refines_review_machine\<close>), keeps its invariant, and refused or contended operations change nothing.
  \<^item> Completions are durable and exact: a completed range has a record, forever, unchanged but for its
    deliveries; a completion that crashed anywhere can be replayed; the observer completes only the very range
    in flight with all its layers answered.
  \<^item> Attempts are bounded by the profile; failed ranges are recovered; a dead turn is never one that could
    still be harvested; one repository's failure does not stop a scan.
  \<^item> The harvest attributes answers, missing layers and the conclusion exactly; names given by the dispatch are
    read back by the harvest.
  \<^item> Deliveries are sent exactly when due, never again after success. Git is only advanced on a clean tree on
    the tracked branch. Enrollment seeds the head it read, and writes nothing without a daemon. The status shows
    every completed review.
  \<^item> Schedules: the next run of a cron schedule is the first minute at which it fires, cron fields denote what
    they print, first and later runs agree.
  \<^item> The job store: its files refine a list of states; a claim hands out exactly the due jobs, none of which is
    claimed again before it is settled; a one-shot job is handed out at most once over any history of claims,
    settlements and crashes; concurrent writers lose no job and keep the freshest; every job lives in the
    file of its session, with its open dispatches; setting a heartbeat replaces the session's earlier one.
  \<^item> Passes: dispatches of one session never overlap; a pass takes at most three polls per dispatch and always
    comes to an end; two passes never overlap; the pause after failures is bounded.
  \<^item> Round trips: calendar and timestamps, command-line arguments, GitHub remotes, reviewer names.

  \<^bold>\<open>Bounds and fuel.\<close> The lock loop of the store makes the source's ten attempts (\<open>lock_loop\<close>); the retries of
  \<open>lock_dir.rs\<close> recurse on the number of retries left. The observer's endless loop has fuel in
  \<open>observer_loop\<close>: \<open>scan_visits_every_repository\<close> says that it ends after one scan with \<open>once\<close>, and that
  otherwise no amount of fuel ends it. Milliseconds are natural numbers; the timestamps round trip for clocks
  before the year 10000, where the printed year has four digits. Attempt counters are 32-bit words, and the
  bound on attempts includes that they do not wrap. Instants of the scheduler are natural numbers with the wraps
  of 64 bits written out; the search for the next cron run takes at most the 366 days of the source; the flag
  loops of the command parser end because the text gets shorter, and a pass because its futures have fewer polls left.

  \<^bold>\<open>Where the code departs from its intent.\<close> \<open>repo_dir_collision\<close> and \<open>colliding_branch_records_fail\<close>: slugs of
  paths and branch names collide. \<open>trimmed_status_misreads_first_line\<close>: trimming git's output shifts the first
  porcelain line. \<open>stale_reclaim_race\<close>: two processes can both reclaim one stale lock.
  \<open>iso_reads_beyond_documented_shape\<close>: the timestamp parser accepts more than its comment says. In the
  scheduler, \<open>unreadable_state_is_overwritten\<close>: a file that cannot be read counts as empty and is overwritten.
  \<open>at_before_epoch_is_accepted\<close>, \<open>long_delay_is_due_at_once\<close>, \<open>at_without_time_panics\<close>: schedule texts at the edges.
  \<open>second_blank_leaks_the_unit\<close>, \<open>trailing_blank_sets_a_heartbeat\<close>: blanks in heartbeat commands.

  \<^bold>\<open>Not modelled.\<close> Log lines, the sorted listings of jobs and heartbeats, the pause between scans, randomness (\<open>new_display_id\<close>), the Windows file times of
  the lock, and the rendering of JSON text. Outside the two subsystems: the daemon's supervisor and workers, the
  agent engine and its kernel, model providers, the terminal interfaces and the telemetry, which the two
  reach only through the daemon protocol or the hooks, or not at all.
\<close>

text \<open>
  C2. The observer as a whole keeps the review history gapless: if the files of an enrolled repository
  are what some run of the store left, then after any observation of that repository, whatever the
  daemon, git, the network and the file system answered and whatever the observation returned, they are
  what a longer run of the store left, and the cursor of every branch is still where the completed
  ranges lead from the seeded baseline.
\<close>

theorem observation_keeps_reviews_gapless:
  assumes codec: "codec_ok (host_codec host)" and store: "store = open_store agent git_root"
    and root: "absolute_path git_root" "repo_slug git_root \<noteq> []"
    and fresh: "fresh_disk store disk0" and run: "runs (host_codec host) store disk0 trace (world_disk w)"
    and observed: "observe_repo host socket (store_repo_dir store) channels w = (r, w')"
  shows "\<exists>more. runs (host_codec host) store disk0 (trace @ more) (world_disk w')
    \<and> (\<forall>state branch bs revision. stored_state (host_codec host) store (world_disk w') = Some state \<longrightarrow>
         bt_get (branches state) branch = Some bs \<longrightarrow> cursor bs = Some revision \<longrightarrow>
         reviewed_upto branch (trace @ more) revision)"
proof -
  obtain more where more: "runs (host_codec host) store disk0 (trace @ more) (world_disk w')"
    using observe_repo_extends [OF codec store root fresh run observed] by blast
  have "reviewed_upto branch (trace @ more) revision"
    if "stored_state (host_codec host) store (world_disk w') = Some state"
      "bt_get (branches state) branch = Some bs" "cursor bs = Some revision" for state branch bs revision
  proof -
    have "state_wf state" "phase_explained branch (trace @ more) (phase_at state branch)"
      using runs_explained [OF more codec fresh] that(1) by auto
    with cursor_phase [OF this(1) that(2,3)] show ?thesis by auto
  qed
  with more show ?thesis by blast
qed

theorem observation_keeps_reviews_gapless_witness:
  "\<exists>trace more (w' :: stored_file world). runs plain_codec sample_store [] (trace @ more) (world_disk w') \<and> trace \<noteq> []"
proof -
  obtain trace disk state bs rng where sample: "in_review_sample trace disk state bs rng" using sample_in_review by blast
  have codec: "host_codec push_host = plain_codec" by simp
  have run: "runs plain_codec sample_store [] trace (world_disk (start_world disk))" "trace \<noteq> []"
    using sample by (auto simp: in_review_sample_def start_world_def)
  obtain r w' where observed: "observe_repo push_host [] (store_repo_dir sample_store) push_channels (start_world disk) = (r, w')"
    by fastforce
  have "absolute_path [''/'', ''srv'', ''work'']" by (simp add: absolute_path_def plain_component_def)
  from observation_keeps_reviews_gapless [of push_host sample_store, unfolded codec, OF plain_codec_ok sample_store_opened(2) this _ fresh_empty run(1) observed]
  show ?thesis using sample_store_opened(1) run(2) by auto
qed

end
